(* ===== verification/Prelude.thy ===== *)
theory Prelude
  imports Main "HOL-Library.Word" "HOL-Library.AList" "HOL-Library.Sublist"
    "HOL-Library.Monad_Syntax"
begin

text \<open>
  Shared vocabulary of the development: bytes and Go strings, the big-endian
  reads and writes of Go's \<open>encoding/binary\<close>, Go maps with string keys, and the
  parts of \<open>fmt\<close> and \<open>strings\<close> the server uses.  Conventions:

  \<^item> a Go \<open>[]byte\<close> is a list of \<^typ>\<open>8 word\<close>; a Go \<open>string\<close> is a list of
    \<^typ>\<open>char\<close>, one character per byte, converted by \<open>str\<close> and \<open>bts\<close>;
  \<^item> a panic of Go is \<^const>\<open>None\<close>: every indexing, slicing, nil dereference or
    \<open>encoding/binary\<close> read that panics in Go is an option-valued function here;
  \<^item> \<open>int\<close> is Go's 64-bit \<open>int\<close>; an offset or a length is a \<^typ>\<open>nat\<close>, since
    none of them is negative and a 32-bit wire length never overflows 64 bits;
  \<^item> a Go map is an association list with distinct keys.  The order in which Go's
    \<open>range\<close> visits a map is unspecified; it is the order of the list here, and
    every theorem quantifies over all lists, hence over all orders.
\<close>

unbundle bit_operations_syntax

named_theorems wire_simps \<open>reads of a buffer at the offset where a field was written\<close>
named_theorems gomap_simps \<open>lookups and key lists of updated Go maps\<close>

type_synonym byte = "8 word"
type_synonym bytes = "8 word list"


section \<open>Bytes and strings\<close>

definition str :: "bytes \<Rightarrow> string" where
  "str bs = map (\<lambda>b. char_of (unat b)) bs"

definition bts :: "string \<Rightarrow> bytes" where
  "bts s = map of_char s"

lemma length_str [simp]: "length (str bs) = length bs"
  by (simp add: str_def)

lemma length_bts [simp]: "length (bts s) = length s"
  by (simp add: bts_def)

lemma of_char_nat_bound: "(of_char c :: nat) < 256"
proof -
  have "(of_char (char_of (of_char c :: nat) :: char) :: nat) = of_char c mod 256"
    by (rule of_char_of)
  then have "(of_char c :: nat) = of_char c mod 256" by simp
  also have "\<dots> < 256" by simp
  finally show ?thesis .
qed

lemma unat_of_char [simp]: "unat (of_char c :: 8 word) = of_char c"
proof -
  have "unat (word_of_nat (of_char c) :: 8 word) = of_char c"
    using of_char_nat_bound [of c] by (simp add: unat_of_nat take_bit_eq_mod)
  then show ?thesis by (simp add: of_nat_of_char)
qed

lemma str_bts [simp]: "str (bts s) = s"
  by (simp add: str_def bts_def comp_def)

lemma of_char_char_of_byte [simp]: "of_char (char_of (unat b) :: char) = (b :: 8 word)"
proof -
  have "unat b < 256"
    using unsigned_less [of b, where ?'a = nat] by simp
  then have "(of_char (char_of (unat b) :: char) :: nat) = unat b"
    by simp
  then have "(of_char (char_of (unat b) :: char) :: 8 word) = word_of_nat (unat b)"
    by (metis of_nat_of_char)
  then show ?thesis by simp
qed

lemma bts_str [simp]: "bts (str bs) = bs"
  by (simp add: str_def bts_def comp_def)

lemma str_eq_iff [simp]: "str a = str b \<longleftrightarrow> a = b"
  by (metis bts_str)


section \<open>Big-endian integers\<close>

text \<open>\<open>binary.BigEndian.PutUint16/32/64\<close> and the reads \<open>Uint16/32/64(raw[off:])\<close>,
  which panic when fewer bytes remain than the integer needs.\<close>

definition put_uint16 :: "16 word \<Rightarrow> bytes" where
  "put_uint16 v = [ucast (drop_bit 8 v), ucast v]"

definition put_uint32 :: "32 word \<Rightarrow> bytes" where
  "put_uint32 v = [ucast (drop_bit 24 v), ucast (drop_bit 16 v), ucast (drop_bit 8 v), ucast v]"

definition put_uint64 :: "64 word \<Rightarrow> bytes" where
  "put_uint64 v =
     [ucast (drop_bit 56 v), ucast (drop_bit 48 v), ucast (drop_bit 40 v), ucast (drop_bit 32 v),
      ucast (drop_bit 24 v), ucast (drop_bit 16 v), ucast (drop_bit 8 v), ucast v]"

fun uint16 :: "bytes \<Rightarrow> 16 word option" where
  "uint16 (a # b # _) = Some (ucast b OR push_bit 8 (ucast a))"
| "uint16 _ = None"

fun uint32 :: "bytes \<Rightarrow> 32 word option" where
  "uint32 (a # b # c # d # _) =
     Some (ucast d OR push_bit 8 (ucast c) OR push_bit 16 (ucast b) OR push_bit 24 (ucast a))"
| "uint32 _ = None"

fun uint64 :: "bytes \<Rightarrow> 64 word option" where
  "uint64 (a # b # c # d # e # f # g # h # _) =
     Some (ucast h OR push_bit 8 (ucast g) OR push_bit 16 (ucast f) OR push_bit 24 (ucast e)
       OR push_bit 32 (ucast d) OR push_bit 40 (ucast c) OR push_bit 48 (ucast b)
       OR push_bit 56 (ucast a))"
| "uint64 _ = None"

text \<open>\<open>raw[off:]\<close> panics beyond the end of the slice; at the end it is empty and the
  integer read panics, so both failures are the \<^const>\<open>None\<close> of the read.\<close>

definition uint16_at :: "bytes \<Rightarrow> nat \<Rightarrow> 16 word option" where
  "uint16_at raw off = uint16 (drop off raw)"

definition uint32_at :: "bytes \<Rightarrow> nat \<Rightarrow> 32 word option" where
  "uint32_at raw off = uint32 (drop off raw)"

definition uint64_at :: "bytes \<Rightarrow> nat \<Rightarrow> 64 word option" where
  "uint64_at raw off = uint64 (drop off raw)"

text \<open>\<open>raw[lo:hi]\<close>, which panics unless \<open>lo \<le> hi \<le> len(raw)\<close>.\<close>

definition subslice :: "bytes \<Rightarrow> nat \<Rightarrow> nat \<Rightarrow> bytes option" where
  "subslice raw lo hi = (if lo \<le> hi \<and> hi \<le> length raw then Some (take (hi - lo) (drop lo raw)) else None)"

lemma length_put [simp]:
  "length (put_uint16 a) = 2" "length (put_uint32 b) = 4" "length (put_uint64 c) = 8"
  by (simp_all add: put_uint16_def put_uint32_def put_uint64_def)

lemma xor_twice [simp]: "(a XOR b) XOR b = (a :: 'a :: len word)"
  by (simp add: xor.assoc)

lemma bytes_join16:
  fixes v :: "16 word"
  shows "ucast (ucast v :: 8 word) OR push_bit 8 (ucast (ucast (drop_bit 8 v) :: 8 word)) = v" (is "?join = v")
proof (rule bit_word_eqI)
  fix n assume "n < LENGTH(16)"
  then consider "n < 8" | "8 \<le> n" "n < 16"
    by fastforce
  then show "bit ?join n = bit v n"
    by cases (simp_all add: bit_simps less_diff_conv2)
qed

lemma bytes_join32:
  fixes v :: "32 word"
  shows "ucast (ucast v :: 8 word) OR push_bit 8 (ucast (ucast (drop_bit 8 v) :: 8 word)) OR push_bit 16 (ucast (ucast (drop_bit 16 v) :: 8 word)) OR push_bit 24 (ucast (ucast (drop_bit 24 v) :: 8 word)) = v" (is "?join = v")
proof (rule bit_word_eqI)
  fix n assume "n < LENGTH(32)"
  then consider "n < 8" | "8 \<le> n" "n < 16" | "16 \<le> n" "n < 24" | "24 \<le> n" "n < 32"
    by fastforce
  then show "bit ?join n = bit v n"
    by cases (simp_all add: bit_simps less_diff_conv2)
qed

lemma bytes_join64:
  fixes v :: "64 word"
  shows "ucast (ucast v :: 8 word) OR push_bit 8 (ucast (ucast (drop_bit 8 v) :: 8 word)) OR push_bit 16 (ucast (ucast (drop_bit 16 v) :: 8 word)) OR push_bit 24 (ucast (ucast (drop_bit 24 v) :: 8 word)) OR push_bit 32 (ucast (ucast (drop_bit 32 v) :: 8 word)) OR push_bit 40 (ucast (ucast (drop_bit 40 v) :: 8 word)) OR push_bit 48 (ucast (ucast (drop_bit 48 v) :: 8 word)) OR push_bit 56 (ucast (ucast (drop_bit 56 v) :: 8 word)) = v" (is "?join = v")
proof (rule bit_word_eqI)
  fix n assume "n < LENGTH(64)"
  then consider "n < 8" | "8 \<le> n" "n < 16" | "16 \<le> n" "n < 24" | "24 \<le> n" "n < 32" | "32 \<le> n" "n < 40" | "40 \<le> n" "n < 48" | "48 \<le> n" "n < 56" | "56 \<le> n" "n < 64"
    by fastforce
  then show "bit ?join n = bit v n"
    by cases (simp_all add: bit_simps less_diff_conv2)
qed

lemma uint16_put [wire_simps]: "uint16 (put_uint16 v @ r) = Some v"
  by (simp add: put_uint16_def bytes_join16)

lemma uint32_put [wire_simps]: "uint32 (put_uint32 v @ r) = Some v"
  by (simp add: put_uint32_def bytes_join32)

lemma uint64_put [wire_simps]: "uint64 (put_uint64 v @ r) = Some v"
  by (simp add: put_uint64_def bytes_join64)

lemma uint16_eq_Some_iff: "(\<exists>v. uint16 bs = Some v) \<longleftrightarrow> 2 \<le> length bs"
  by (cases bs rule: uint16.cases) auto

lemma uint32_eq_Some_iff: "(\<exists>v. uint32 bs = Some v) \<longleftrightarrow> 4 \<le> length bs"
  by (cases bs rule: uint32.cases) auto

lemma uint64_eq_Some_iff: "(\<exists>v. uint64 bs = Some v) \<longleftrightarrow> 8 \<le> length bs"
  by (cases bs rule: uint64.cases) auto

lemma uint_at_None_iff [simp]:
  "uint16_at raw off = None \<longleftrightarrow> length raw < off + 2"
  "uint32_at raw off = None \<longleftrightarrow> length raw < off + 4"
  "uint64_at raw off = None \<longleftrightarrow> length raw < off + 8"
  using uint16_eq_Some_iff [of "drop off raw"] uint32_eq_Some_iff [of "drop off raw"]
    uint64_eq_Some_iff [of "drop off raw"]
  by (auto simp: uint16_at_def uint32_at_def uint64_at_def not_Some_eq [symmetric]
      simp del: not_Some_eq)

lemma uint_at_append [wire_simps]:
  "uint16_at (p @ x) (length p + k) = uint16_at x k"
  "uint32_at (p @ x) (length p + k) = uint32_at x k"
  "uint64_at (p @ x) (length p + k) = uint64_at x k"
  by (simp_all add: uint16_at_def uint32_at_def uint64_at_def)

lemma uint_at_put [wire_simps]:
  "uint16_at (p @ put_uint16 a @ r) (length p) = Some a"
  "uint32_at (p @ put_uint32 b @ r) (length p) = Some b"
  "uint64_at (p @ put_uint64 c @ r) (length p) = Some c"
  by (simp_all add: uint16_at_def uint32_at_def uint64_at_def wire_simps)

lemma subslice_append [wire_simps]: "subslice (p @ x @ r) (length p) (length p + length x) = Some x"
  by (simp add: subslice_def)

lemma subslice_None_iff [simp]: "subslice raw lo hi = None \<longleftrightarrow> hi < lo \<or> length raw < hi"
  by (auto simp: subslice_def)

lemma length_subslice: "subslice raw lo hi = Some x \<Longrightarrow> length x = hi - lo"
  by (auto simp: subslice_def split: if_splits)


section \<open>Go maps and sets\<close>

type_synonym 'v gomap = "(string \<times> 'v) list"

abbreviation gomap_ok :: "'v gomap \<Rightarrow> bool" where
  "gomap_ok m \<equiv> distinct (map fst m)"

text \<open>\<open>m[k]\<close> with the comma-ok form is \<^const>\<open>map_of\<close>, \<open>m[k] = v\<close> is
  \<^const>\<open>AList.update\<close> and \<open>delete(m, k)\<close> is \<^const>\<open>AList.delete\<close>.  A
  \<open>map[string]struct{}\<close> is the list of its keys.\<close>

declare map_of_eq_Some_iff [simp del] Some_eq_map_of_iff [simp del]

lemma map_of_alist_update [gomap_simps]:
  "map_of (AList.update k v m) x = (if x = k then Some v else map_of m x)"
  by (simp add: update_conv)

lemma map_of_alist_delete [gomap_simps]:
  "map_of (AList.delete k m) x = (if x = k then None else map_of m x)"
  by (simp add: delete_conv)

lemma keys_alist_update [gomap_simps]: "fst ` set (AList.update k v m) = insert k (fst ` set m)"
  by (simp add: dom_update)

lemma keys_alist_delete [gomap_simps]: "fst ` set (AList.delete k m) = fst ` set m - {k}"
  by (auto simp: AList.delete_eq)

lemma gomap_ok_update [simp, intro]: "gomap_ok m \<Longrightarrow> gomap_ok (AList.update k v m)"
  by (rule distinct_update)

lemma gomap_ok_delete [simp, intro]: "gomap_ok m \<Longrightarrow> gomap_ok (AList.delete k m)"
  by (rule distinct_delete)


section \<open>Decimal and hexadecimal output\<close>

definition digit_char :: "nat \<Rightarrow> char" where
  "digit_char n = (if n < 10 then char_of (48 + n) else char_of (87 + n))"

fun dec_nat :: "nat \<Rightarrow> string" where
  "dec_nat n = (if n < 10 then [digit_char n] else dec_nat (n div 10) @ [digit_char (n mod 10)])"

declare dec_nat.simps [simp del]

text \<open>\<open>%d\<close> of a signed integer.\<close>

definition dec_int :: "int \<Rightarrow> string" where
  "dec_int i = (if i < 0 then CHR ''-'' # dec_nat (nat (- i)) else dec_nat (nat i))"

text \<open>\<open>%x\<close> of a byte slice: two lower-case digits per byte.\<close>

definition hex_byte :: "byte \<Rightarrow> string" where
  "hex_byte b = [digit_char (unat b div 16), digit_char (unat b mod 16)]"

definition hex_bytes :: "bytes \<Rightarrow> string" where
  "hex_bytes bs = concat (map hex_byte bs)"

text \<open>\<open>%f\<close> of a \<open>float64\<close> or \<open>float32\<close> given by its bits: the exact value rounded
  half-to-even to six decimals, as \<open>strconv\<close>'s decimal conversion does.\<close>

definition round_half_even :: "nat \<Rightarrow> nat \<Rightarrow> nat" where
  "round_half_even num den =
     (let q = num div den; r = num mod den
      in if 2 * r > den \<or> (2 * r = den \<and> odd q) then q + 1 else q)"

definition pad6 :: "string \<Rightarrow> string" where
  "pad6 s = replicate (6 - length s) CHR ''0'' @ s"

definition fixed6 :: "nat \<Rightarrow> nat \<Rightarrow> string" where
  "fixed6 num den =
     (let n = round_half_even (num * 10 ^ 6) den
      in dec_nat (n div 10 ^ 6) @ ''.'' @ pad6 (dec_nat (n mod 10 ^ 6)))"

definition fmt_float :: "nat \<Rightarrow> nat \<Rightarrow> nat \<Rightarrow> string" where
  "fmt_float mbits ebits n =
     (let mant = n mod 2 ^ mbits;
          ex = (n div 2 ^ mbits) mod 2 ^ ebits;
          neg = odd (n div 2 ^ (mbits + ebits));
          bias = 2 ^ (ebits - 1) - 1;
          sig = (if ex = 0 then mant else 2 ^ mbits + mant);
          e = max ex 1
      in if ex = 2 ^ ebits - 1
         then (if mant \<noteq> 0 then ''NaN'' else if neg then ''-Inf'' else ''+Inf'')
         else (if neg then ''-'' else []) @
              (if e \<ge> bias + mbits then fixed6 (sig * 2 ^ (e - (bias + mbits))) 1
               else fixed6 sig (2 ^ (bias + mbits - e))))"

definition fmt_f64 :: "64 word \<Rightarrow> string" where
  "fmt_f64 w = fmt_float 52 11 (unat w)"

definition fmt_f32 :: "32 word \<Rightarrow> string" where
  "fmt_f32 w = fmt_float 23 8 (unat w)"


section \<open>Strings\<close>

text \<open>\<open>strings.HasPrefix\<close> is \<^const>\<open>prefix\<close>; \<open>strings.TrimPrefix\<close> removes it once.\<close>

definition trim_prefix :: "string \<Rightarrow> string \<Rightarrow> string" where
  "trim_prefix p s = (if prefix p s then drop (length p) s else s)"

lemma trim_prefix_append [simp]: "trim_prefix p (p @ s) = s"
  by (simp add: trim_prefix_def)

section \<open>Errors and panics\<close>

text \<open>The sentinel errors the code compares against (\<open>ports/database.go\<close>,
  \<open>ports/token_store.go\<close>, \<open>mus/system_service.go\<close>); every other error is \<open>ErrOther\<close>,
  whose text only reaches the log.  A Go call that can both panic and return an error
  has a result of type \<open>go\<close>.\<close>

datatype error = ErrUserNotFound | ErrBanNotFound | ErrInvalidCredentials | ErrTokenInvalid
  | ErrCrossUserDenied | ErrOther

datatype 'a go = Panic | Err error | Ok 'a

text \<open>A call that can only panic, followed by the rest of the function.\<close>

fun nopanic :: "'a option \<Rightarrow> ('a \<Rightarrow> 'b go) \<Rightarrow> 'b go" where
  "nopanic None f = Panic"
| "nopanic (Some x) f = f x"

text \<open>A call that can also return an error: \<open>if err != nil { return ..., err }\<close>.\<close>

fun go_bind :: "'a go \<Rightarrow> ('a \<Rightarrow> 'b go) \<Rightarrow> 'b go" where
  "go_bind Panic f = Panic"
| "go_bind (Err e) f = Err e"
| "go_bind (Ok x) f = f x"

lemma nopanic_eq_Panic_iff [simp]:
  "nopanic m f = Panic \<longleftrightarrow> m = None \<or> (\<exists>x. m = Some x \<and> f x = Panic)"
  by (cases m) auto

lemma go_bind_eq_Panic_iff [simp]:
  "go_bind m f = Panic \<longleftrightarrow> m = Panic \<or> (\<exists>x. m = Ok x \<and> f x = Panic)"
  by (cases m) auto

lemma go_bind_eq_Ok_iff: "go_bind m f = Ok y \<longleftrightarrow> (\<exists>x. m = Ok x \<and> f x = Ok y)"
  by (cases m) auto

lemma nopanic_eq_Ok_iff: "nopanic m f = Ok y \<longleftrightarrow> (\<exists>x. m = Some x \<and> f x = Ok y)"
  by (cases m) auto

end
