(* ===== verification/Lingo.thy ===== *)
theory Lingo
  imports Prelude
begin

text \<open>
  The Lingo value types of \<open>internal/domain/types/lingo\<close>: the values, the byte
  decoder \<open>FromRawBytes\<close> with the \<open>ExtractFromBytes\<close> method of every type, the
  encoder \<open>GetBytes\<close>, \<open>String\<close>, and the property-list and argument accessors.

  A \<open>float64\<close> or \<open>float32\<close> field is its bit pattern (\<open>math.Float64bits\<close> and
  \<open>math.Float64frombits\<close> are the identity on it).  The fields of \<open>LPoint\<close> and
  \<open>LRect\<close> are interface values that a truncated message leaves nil, hence options.
  \<open>ExtractFromBytes\<close> mutates its receiver: the model takes the receiver and returns
  the new one with the number of bytes consumed.  The containers first build an
  element with \<open>FromRawBytes\<close>, which already runs \<open>ExtractFromBytes\<close> on it, and then
  run \<open>ExtractFromBytes\<close> on the same element again to learn its size; the model does
  the same.
\<close>


section \<open>Values\<close>

definition VtVoid :: "16 word" where "VtVoid = 0"
definition VtInteger :: "16 word" where "VtInteger = 1"
definition VtSymbol :: "16 word" where "VtSymbol = 2"
definition VtString :: "16 word" where "VtString = 3"
definition VtPicture :: "16 word" where "VtPicture = 5"
definition VtFloat :: "16 word" where "VtFloat = 6"
definition VtList :: "16 word" where "VtList = 7"
definition VtPoint :: "16 word" where "VtPoint = 8"
definition VtRect :: "16 word" where "VtRect = 9"
definition VtPropList :: "16 word" where "VtPropList = 10"
definition VtColor :: "16 word" where "VtColor = 18"
definition VtDate :: "16 word" where "VtDate = 19"
definition VtMedia :: "16 word" where "VtMedia = 20"
definition Vt3dVector :: "16 word" where "Vt3dVector = 22"
definition Vt3dTransform :: "16 word" where "Vt3dTransform = 23"

lemmas vt_defs = VtVoid_def VtInteger_def VtSymbol_def VtString_def VtPicture_def VtFloat_def
  VtList_def VtPoint_def VtRect_def VtPropList_def VtColor_def VtDate_def VtMedia_def
  Vt3dVector_def Vt3dTransform_def

datatype lvalue =
    LVoid
  | LInteger "32 word"
  | LSymbol string
  | LString string
  | LPicture bytes
  | LFloat "64 word"
  | LList "lvalue list"
  | LPoint "lvalue option" "lvalue option"
  | LRect "lvalue option" "lvalue option" "lvalue option" "lvalue option"
  | LPropList "lvalue list" "lvalue list"
  | LColor byte byte byte
  | LDate bytes
  | LMedia bytes
  | L3dVector "32 word" "32 word" "32 word"
  | L3dTransform "32 word list"

fun GetType :: "lvalue \<Rightarrow> 16 word" where
  "GetType LVoid = VtVoid"
| "GetType (LInteger _) = VtInteger"
| "GetType (LSymbol _) = VtSymbol"
| "GetType (LString _) = VtString"
| "GetType (LPicture _) = VtPicture"
| "GetType (LFloat _) = VtFloat"
| "GetType (LList _) = VtList"
| "GetType (LPoint _ _) = VtPoint"
| "GetType (LRect _ _ _ _) = VtRect"
| "GetType (LPropList _ _) = VtPropList"
| "GetType (LColor _ _ _) = VtColor"
| "GetType (LDate _) = VtDate"
| "GetType (LMedia _) = VtMedia"
| "GetType (L3dVector _ _ _) = Vt3dVector"
| "GetType (L3dTransform _) = Vt3dTransform"


section \<open>Decoding\<close>

text \<open>The value \<open>FromRawBytes\<close> allocates for a type code, before extraction: the zero
  value of the type, and \<open>LVoid\<close> for an unknown code.\<close>

definition new_lvalue :: "16 word \<Rightarrow> lvalue" where
  "new_lvalue t =
     (if t = VtVoid then LVoid
      else if t = VtInteger then LInteger 0
      else if t = VtSymbol then LSymbol []
      else if t = VtString then LString []
      else if t = VtFloat then LFloat 0
      else if t = VtList then LList []
      else if t = VtPicture then LPicture []
      else if t = VtMedia then LMedia []
      else if t = VtPoint then LPoint None None
      else if t = VtRect then LRect None None None None
      else if t = VtPropList then LPropList [] []
      else if t = VtColor then LColor 0 0 0
      else if t = VtDate then LDate (replicate 8 0)
      else if t = Vt3dVector then L3dVector 0 0 0
      else if t = Vt3dTransform then L3dTransform (replicate 16 0)
      else LVoid)"

text \<open>The \<open>ExtractFromBytes\<close> methods of the types without nested values.\<close>

definition extract_integer :: "lvalue \<Rightarrow> bytes \<Rightarrow> nat \<Rightarrow> (lvalue \<times> nat) option" where
  "extract_integer v raw off =
     (if off + 4 \<le> length raw
      then do { x \<leftarrow> uint32_at raw off; Some (LInteger x, 4) }
      else Some (v, 0))"

definition extract_float :: "lvalue \<Rightarrow> bytes \<Rightarrow> nat \<Rightarrow> (lvalue \<times> nat) option" where
  "extract_float v raw off =
     (if off + 8 \<le> length raw
      then do { x \<leftarrow> uint64_at raw off; Some (LFloat x, 8) }
      else Some (v, 0))"

definition padded :: "nat \<Rightarrow> nat" where
  "padded n = (if odd n then n + 1 else n)"

definition extract_text :: "(string \<Rightarrow> lvalue) \<Rightarrow> lvalue \<Rightarrow> bytes \<Rightarrow> nat \<Rightarrow> (lvalue \<times> nat) option" where
  "extract_text con v raw off =
     (if off + 4 > length raw then Some (v, 0)
      else do {
        w \<leftarrow> uint32_at raw off;
        let len = unat w;
        if off + 4 + len > length raw then Some (v, 0)
        else do {
          b \<leftarrow> subslice raw (off + 4) (off + 4 + len);
          Some (con (str b), 4 + padded len)
        }
      })"

text \<open>\<open>LSymbol.ExtractFromBytes\<close> spells the padding differently.\<close>

definition extract_symbol :: "lvalue \<Rightarrow> bytes \<Rightarrow> nat \<Rightarrow> (lvalue \<times> nat) option" where
  "extract_symbol v raw off =
     (if off + 4 > length raw then Some (v, 0)
      else do {
        w \<leftarrow> uint32_at raw off;
        let len = unat w;
        if off + 4 + len > length raw then Some (v, 0)
        else do {
          b \<leftarrow> subslice raw (off + 4) (off + 4 + len);
          let bytesConsumed = 4 + len;
          Some (LSymbol (str b), if odd len then bytesConsumed + 1 else bytesConsumed)
        }
      })"

lemma extract_symbol_eq [simp]: "extract_symbol v raw off = extract_text LSymbol v raw off"
  by (simp add: extract_symbol_def extract_text_def padded_def Let_def if_distrib cong: if_cong)

definition extract_picture :: "lvalue \<Rightarrow> bytes \<Rightarrow> nat \<Rightarrow> (lvalue \<times> nat) option" where
  "extract_picture v raw off =
     (if off + 4 > length raw then Some (v, 0)
      else do {
        w \<leftarrow> uint32_at raw off;
        let len = unat w;
        if off + 4 + len > length raw then Some (v, 0)
        else do {
          b \<leftarrow> subslice raw (off + 4) (off + 4 + len);
          Some (LPicture b, 4 + len)
        }
      })"

definition byte_at :: "bytes \<Rightarrow> nat \<Rightarrow> byte option" where
  "byte_at raw i = (if i < length raw then Some (raw ! i) else None)"

definition extract_color :: "lvalue \<Rightarrow> bytes \<Rightarrow> nat \<Rightarrow> (lvalue \<times> nat) option" where
  "extract_color v raw off =
     (if off + 4 > length raw then Some (v, 0)
      else do {
        r \<leftarrow> byte_at raw off;
        g \<leftarrow> byte_at raw (off + 1);
        b \<leftarrow> byte_at raw (off + 2);
        Some (LColor r g b, 4)
      })"

definition extract_date :: "lvalue \<Rightarrow> bytes \<Rightarrow> nat \<Rightarrow> (lvalue \<times> nat) option" where
  "extract_date v raw off =
     (if off + 8 > length raw then Some (v, 0)
      else do { d \<leftarrow> subslice raw off (off + 8); Some (LDate d, 8) })"

definition extract_3dvector :: "lvalue \<Rightarrow> bytes \<Rightarrow> nat \<Rightarrow> (lvalue \<times> nat) option" where
  "extract_3dvector v raw off =
     (if off + 12 > length raw then Some (v, 0)
      else do {
        x \<leftarrow> uint32_at raw off;
        y \<leftarrow> uint32_at raw (off + 4);
        z \<leftarrow> uint32_at raw (off + 8);
        Some (L3dVector x y z, 12)
      })"

text \<open>\<open>for i := 0; i < n; i++ { ... Uint32(raw[off+i*4:]) }\<close>\<close>

fun read_matrix :: "nat \<Rightarrow> bytes \<Rightarrow> nat \<Rightarrow> 32 word list option" where
  "read_matrix 0 raw off = Some []"
| "read_matrix (Suc n) raw off = do {
     x \<leftarrow> uint32_at raw off;
     xs \<leftarrow> read_matrix n raw (off + 4);
     Some (x # xs)
   }"

definition extract_3dtransform :: "lvalue \<Rightarrow> bytes \<Rightarrow> nat \<Rightarrow> (lvalue \<times> nat) option" where
  "extract_3dtransform v raw off =
     (if off + 64 > length raw then Some (v, 0)
      else do { m \<leftarrow> read_matrix 16 raw off; Some (L3dTransform m, 64) })"

text \<open>Field \<open>i\<close> of a rect or point after decoding the fields \<open>xs\<close>: the decoded value, or
  the receiver's old one when the loop stopped before it.\<close>

definition field :: "lvalue list \<Rightarrow> nat \<Rightarrow> lvalue option \<Rightarrow> lvalue option" where
  "field xs i old = (if i < length xs then Some (xs ! i) else old)"

text \<open>
  \<open>FromRawBytes\<close> and the \<open>ExtractFromBytes\<close> methods of the containers.  \<open>fields_loop\<close>
  decodes the fields of a rect or a point in order and stops at the first that does
  not fit; \<open>list_loop\<close> and \<open>prop_loop\<close> are the element loops of \<open>LList\<close> and
  \<open>LPropList\<close>, returning the elements read and the position after them.
\<close>

function (sequential)
      FromRawBytes :: "bytes \<Rightarrow> nat \<Rightarrow> lvalue option"
  and ExtractFromBytes :: "lvalue \<Rightarrow> bytes \<Rightarrow> nat \<Rightarrow> (lvalue \<times> nat) option"
  and fields_loop :: "nat \<Rightarrow> bytes \<Rightarrow> nat \<Rightarrow> (lvalue list \<times> bool \<times> nat) option"
  and list_loop :: "nat \<Rightarrow> bytes \<Rightarrow> nat \<Rightarrow> (lvalue list \<times> nat) option"
  and prop_loop :: "nat \<Rightarrow> bytes \<Rightarrow> nat \<Rightarrow> (lvalue list \<times> lvalue list \<times> nat) option"
where
  "FromRawBytes raw off =
     (if off + 2 > length raw then Some LVoid
      else case uint16_at raw off of
        None \<Rightarrow> None
      | Some t \<Rightarrow> (case ExtractFromBytes (new_lvalue t) raw (off + 2) of
            None \<Rightarrow> None
          | Some (v, _) \<Rightarrow> Some v))"
| "ExtractFromBytes (LInteger x) raw off = extract_integer (LInteger x) raw off"
| "ExtractFromBytes (LSymbol x) raw off = extract_symbol (LSymbol x) raw off"
| "ExtractFromBytes (LString x) raw off = extract_text LString (LString x) raw off"
| "ExtractFromBytes (LPicture x) raw off = extract_picture (LPicture x) raw off"
| "ExtractFromBytes (LFloat x) raw off = extract_float (LFloat x) raw off"
| "ExtractFromBytes (LColor r g b) raw off = extract_color (LColor r g b) raw off"
| "ExtractFromBytes (LDate d) raw off = extract_date (LDate d) raw off"
| "ExtractFromBytes (L3dVector x y z) raw off = extract_3dvector (L3dVector x y z) raw off"
| "ExtractFromBytes (L3dTransform m) raw off = extract_3dtransform (L3dTransform m) raw off"
| "ExtractFromBytes (LList vs) raw off =
     (if off + 4 > length raw then Some (LList vs, 0)
      else case uint32_at raw off of
        None \<Rightarrow> None
      | Some w \<Rightarrow>
          (if unat w > (length raw - off - 4) div 2 then Some (LList vs, 0)
           else case list_loop (unat w) raw (off + 4) of
             None \<Rightarrow> None
           | Some (xs, cur) \<Rightarrow> Some (LList xs, cur - off)))"
| "ExtractFromBytes (LPoint h v) raw off =
     (case fields_loop 2 raw off of
        None \<Rightarrow> None
      | Some (xs, ok, cur) \<Rightarrow>
          Some (LPoint (field xs 0 h) (field xs 1 v), if ok then cur - off else 0))"
| "ExtractFromBytes (LRect l t r b) raw off =
     (case fields_loop 4 raw off of
        None \<Rightarrow> None
      | Some (xs, ok, cur) \<Rightarrow>
          Some (LRect (field xs 0 l) (field xs 1 t) (field xs 2 r) (field xs 3 b),
                if ok then cur - off else 0))"
| "ExtractFromBytes (LPropList ps vs) raw off =
     (if off + 4 > length raw then Some (LPropList ps vs, 0)
      else case uint32_at raw off of
        None \<Rightarrow> None
      | Some w \<Rightarrow>
          (case prop_loop (unat w) raw (off + 4) of
             None \<Rightarrow> None
           | Some (xs, ys, cur) \<Rightarrow> Some (LPropList (ps @ xs) (vs @ ys), cur - off)))"
| "ExtractFromBytes v raw off = Some (v, 0)"
| "fields_loop 0 raw pos = Some ([], True, pos)"
| "fields_loop (Suc n) raw pos =
     (if pos + 2 > length raw then Some ([], False, pos)
      else case FromRawBytes raw pos of
        None \<Rightarrow> None
      | Some e \<Rightarrow> (case ExtractFromBytes e raw (pos + 2) of
          None \<Rightarrow> None
        | Some (e', c) \<Rightarrow> (case fields_loop n raw (pos + 2 + c) of
            None \<Rightarrow> None
          | Some (xs, ok, cur) \<Rightarrow> Some (e' # xs, ok, cur))))"
| "list_loop 0 raw pos = Some ([], pos)"
| "list_loop (Suc n) raw pos =
     (case FromRawBytes raw pos of
        None \<Rightarrow> None
      | Some e \<Rightarrow> (case ExtractFromBytes e raw (pos + 2) of
          None \<Rightarrow> None
        | Some (e', c) \<Rightarrow> (case list_loop n raw (pos + 2 + c) of
            None \<Rightarrow> None
          | Some (xs, cur) \<Rightarrow> Some (e' # xs, cur))))"
| "prop_loop 0 raw pos = Some ([], [], pos)"
| "prop_loop (Suc n) raw pos =
     (if pos + 2 > length raw then Some ([], [], pos)
      else case FromRawBytes raw pos of
        None \<Rightarrow> None
      | Some p \<Rightarrow> (case ExtractFromBytes p raw (pos + 2) of
          None \<Rightarrow> None
        | Some (p', c) \<Rightarrow>
            (if pos + c + 4 > length raw then Some ([], [], pos)
             else case FromRawBytes raw (pos + 2 + c) of
               None \<Rightarrow> None
             | Some e \<Rightarrow> (case ExtractFromBytes e raw (pos + c + 4) of
                 None \<Rightarrow> None
               | Some (e', d) \<Rightarrow> (case prop_loop n raw (pos + c + 4 + d) of
                   None \<Rightarrow> None
                 | Some (xs, ys, cur) \<Rightarrow> Some (p' # xs, e' # ys, cur))))))"
  by pat_completeness auto

text \<open>Every nested decode starts further into the buffer, or at the same place one
  level down, so the decoder terminates on every input.\<close>

termination
  by (relation "measures
        [case_sum (case_sum (\<lambda>(raw, off). length raw - off) (\<lambda>(v, raw, off). length raw - off))
           (case_sum (\<lambda>(n, raw, pos). length raw - pos)
             (case_sum (\<lambda>(n, raw, pos). length raw - pos) (\<lambda>(n, raw, pos). length raw - pos))),
         case_sum (case_sum (\<lambda>_. 0) (\<lambda>_. 2)) (case_sum (\<lambda>_. 1) (case_sum (\<lambda>_. 3) (\<lambda>_. 1))),
         case_sum (case_sum (\<lambda>_. 0) (\<lambda>_. 0))
           (case_sum (\<lambda>(n, raw, pos). n) (case_sum (\<lambda>(n, raw, pos). n) (\<lambda>(n, raw, pos). n)))]")
    auto

section \<open>Encoding\<close>

fun concat_opts :: "'a list option list \<Rightarrow> 'a list option" where
  "concat_opts [] = Some []"
| "concat_opts (x # xs) = do { b \<leftarrow> x; r \<leftarrow> concat_opts xs; Some (b @ r) }"

definition interleave :: "'a list \<Rightarrow> 'a list \<Rightarrow> 'a list" where
  "interleave xs ys = concat (map (\<lambda>(x, y). [x, y]) (zip xs ys))"

definition text_bytes :: "16 word \<Rightarrow> string \<Rightarrow> bytes" where
  "text_bytes t s =
     put_uint16 t @ put_uint32 (word_of_nat (length s)) @ bts s @
     replicate (padded (length s) - length s) 0"

text \<open>The \<open>GetBytes\<close> method of every type; those of the containers take the bytes of the
  nested values, where \<^const>\<open>None\<close> is a panic inside them or a method call on a nil
  field.  \<open>LMedia\<close> has no encoder of its own and inherits the empty one of \<open>BaseLValue\<close>.\<close>

definition LVoid_GetBytes :: bytes where
  [simp]: "LVoid_GetBytes = put_uint16 VtVoid"

definition LInteger_GetBytes :: "32 word \<Rightarrow> bytes" where
  [simp]: "LInteger_GetBytes x = put_uint16 VtInteger @ put_uint32 x"

definition LSymbol_GetBytes :: "string \<Rightarrow> bytes" where
  [simp]: "LSymbol_GetBytes s = text_bytes VtSymbol s"

definition LString_GetBytes :: "string \<Rightarrow> bytes" where
  [simp]: "LString_GetBytes s = text_bytes VtString s"

definition LPicture_GetBytes :: "bytes \<Rightarrow> bytes" where
  [simp]: "LPicture_GetBytes d = put_uint16 VtPicture @ put_uint32 (word_of_nat (length d)) @ d"

definition LFloat_GetBytes :: "64 word \<Rightarrow> bytes" where
  [simp]: "LFloat_GetBytes x = put_uint16 VtFloat @ put_uint64 x"

definition LList_GetBytes :: "bytes option list \<Rightarrow> bytes option" where
  [simp]: "LList_GetBytes elems = do {
     b \<leftarrow> concat_opts elems;
     Some (put_uint16 VtList @ put_uint32 (word_of_nat (length elems)) @ b)
   }"

definition LPoint_GetBytes :: "bytes option \<Rightarrow> bytes option \<Rightarrow> bytes option" where
  [simp]: "LPoint_GetBytes h v = do {
     hBytes \<leftarrow> h;
     vBytes \<leftarrow> v;
     Some (put_uint16 VtPoint @ hBytes @ vBytes)
   }"

definition LRect_GetBytes :: "bytes option \<Rightarrow> bytes option \<Rightarrow> bytes option \<Rightarrow> bytes option \<Rightarrow> bytes option" where
  [simp]: "LRect_GetBytes l t r b = do {
     lb \<leftarrow> l;
     tb \<leftarrow> t;
     rb \<leftarrow> r;
     bb \<leftarrow> b;
     Some (put_uint16 VtRect @ lb @ tb @ rb @ bb)
   }"

text \<open>Indexing \<open>Values\<close> with an index of a longer \<open>Properties\<close> panics.\<close>

definition LPropList_GetBytes :: "bytes option list \<Rightarrow> bytes option list \<Rightarrow> bytes option" where
  [simp]: "LPropList_GetBytes ps vs =
     (if length vs < length ps then None
      else do {
        b \<leftarrow> concat_opts (interleave ps vs);
        Some (put_uint16 VtPropList @ put_uint32 (word_of_nat (length ps)) @ b)
      })"

definition LColor_GetBytes :: "byte \<Rightarrow> byte \<Rightarrow> byte \<Rightarrow> bytes" where
  [simp]: "LColor_GetBytes r g b = put_uint16 VtColor @ [r, g, b, 0]"

definition LDate_GetBytes :: "bytes \<Rightarrow> bytes" where
  [simp]: "LDate_GetBytes d = put_uint16 VtDate @ d"

definition L3dVector_GetBytes :: "32 word \<Rightarrow> 32 word \<Rightarrow> 32 word \<Rightarrow> bytes" where
  [simp]: "L3dVector_GetBytes x y z = put_uint16 Vt3dVector @ put_uint32 x @ put_uint32 y @ put_uint32 z"

definition L3dTransform_GetBytes :: "32 word list \<Rightarrow> bytes" where
  [simp]: "L3dTransform_GetBytes m = put_uint16 Vt3dTransform @ concat (map put_uint32 m)"

fun GetBytes :: "lvalue \<Rightarrow> bytes option" where
  "GetBytes LVoid = Some LVoid_GetBytes"
| "GetBytes (LInteger x) = Some (LInteger_GetBytes x)"
| "GetBytes (LSymbol s) = Some (LSymbol_GetBytes s)"
| "GetBytes (LString s) = Some (LString_GetBytes s)"
| "GetBytes (LPicture d) = Some (LPicture_GetBytes d)"
| "GetBytes (LFloat x) = Some (LFloat_GetBytes x)"
| "GetBytes (LList vs) = LList_GetBytes (map GetBytes vs)"
| "GetBytes (LPoint h v) = LPoint_GetBytes (Option.bind h GetBytes) (Option.bind v GetBytes)"
| "GetBytes (LRect l t r b) =
     LRect_GetBytes (Option.bind l GetBytes) (Option.bind t GetBytes)
       (Option.bind r GetBytes) (Option.bind b GetBytes)"
| "GetBytes (LPropList ps vs) = LPropList_GetBytes (map GetBytes ps) (map GetBytes vs)"
| "GetBytes (LColor r g b) = Some (LColor_GetBytes r g b)"
| "GetBytes (LDate d) = Some (LDate_GetBytes d)"
| "GetBytes (LMedia d) = Some []"
| "GetBytes (L3dVector x y z) = Some (L3dVector_GetBytes x y z)"
| "GetBytes (L3dTransform m) = Some (L3dTransform_GetBytes m)"


section \<open>Text form and accessors\<close>

definition base_String :: "16 word \<Rightarrow> string" where
  "base_String t = ''{LValue type '' @ dec_int (sint t) @ ''}''"

fun join :: "string \<Rightarrow> string list \<Rightarrow> string" where
  "join sep [] = []"
| "join sep [s] = s"
| "join sep (s # ss) = s @ sep @ join sep ss"

definition join_opts :: "string \<Rightarrow> string option list \<Rightarrow> string option" where
  "join_opts sep xs = map_option (join sep) (those xs)"

text \<open>The \<open>String\<close> method of every type that has one.\<close>

definition LInteger_String :: "32 word \<Rightarrow> string" where
  "LInteger_String x = dec_int (sint x)"

definition LString_String :: "string \<Rightarrow> string" where
  "LString_String s = CHR 0x22 # s @ [CHR 0x22]"

definition LPicture_String :: "bytes \<Rightarrow> string" where
  "LPicture_String d = ''<picture '' @ dec_nat (length d) @ '' bytes>''"

definition LPoint_String :: "string option \<Rightarrow> string option \<Rightarrow> string option" where
  [simp]: "LPoint_String h v = do {
     a \<leftarrow> h;
     b \<leftarrow> v;
     Some (''point('' @ a @ '', '' @ b @ '')'')
   }"

definition LRect_String :: "string option \<Rightarrow> string option \<Rightarrow> string option \<Rightarrow> string option \<Rightarrow> string option" where
  [simp]: "LRect_String l t r b = do {
     ls \<leftarrow> l;
     ts \<leftarrow> t;
     rs \<leftarrow> r;
     bs \<leftarrow> b;
     Some (''rect('' @ ls @ '', '' @ ts @ '', '' @ rs @ '', '' @ bs @ '')'')
   }"

definition LPropList_String :: "string option list \<Rightarrow> string option list \<Rightarrow> string option" where
  [simp]: "LPropList_String ps vs =
     (if length vs < length ps then None
      else map_option (\<lambda>s. ''['' @ s @ '']'')
             (join_opts '', ''
               (map (\<lambda>(p, v). do { a \<leftarrow> p; b \<leftarrow> v; Some (a @ '': '' @ b) }) (zip ps vs))))"

definition LColor_String :: "byte \<Rightarrow> byte \<Rightarrow> byte \<Rightarrow> string" where
  "LColor_String r g b =
     ''color('' @ dec_nat (unat r) @ '', '' @ dec_nat (unat g) @ '', '' @ dec_nat (unat b) @ '')''"

definition LDate_String :: "bytes \<Rightarrow> string" where
  "LDate_String d = ''<date '' @ hex_bytes d @ ''>''"

definition L3dVector_String :: "32 word \<Rightarrow> 32 word \<Rightarrow> 32 word \<Rightarrow> string" where
  "L3dVector_String x y z = ''vector('' @ fmt_f32 x @ '', '' @ fmt_f32 y @ '', '' @ fmt_f32 z @ '')''"

definition L3dTransform_String :: "32 word list \<Rightarrow> string" where
  "L3dTransform_String m = ''transform(['' @ join '', '' (map fmt_f32 m) @ ''])''"

fun String :: "lvalue \<Rightarrow> string option" where
  "String LVoid = Some (base_String VtVoid)"
| "String (LInteger x) = Some (LInteger_String x)"
| "String (LSymbol s) = Some s"
| "String (LString s) = Some (LString_String s)"
| "String (LPicture d) = Some (LPicture_String d)"
| "String (LFloat x) = Some (fmt_f64 x)"
| "String (LList _) = Some (base_String VtList)"
| "String (LPoint h v) = LPoint_String (Option.bind h String) (Option.bind v String)"
| "String (LRect l t r b) =
     LRect_String (Option.bind l String) (Option.bind t String) (Option.bind r String) (Option.bind b String)"
| "String (LPropList ps vs) = LPropList_String (map String ps) (map String vs)"
| "String (LColor r g b) = Some (LColor_String r g b)"
| "String (LDate d) = Some (LDate_String d)"
| "String (LMedia _) = Some (base_String VtMedia)"
| "String (L3dVector x y z) = Some (L3dVector_String x y z)"
| "String (L3dTransform m) = Some (L3dTransform_String m)"

fun ToInteger :: "lvalue \<Rightarrow> 32 word" where
  "ToInteger (LInteger x) = x"
| "ToInteger _ = 0"

fun ToDouble :: "lvalue \<Rightarrow> 64 word" where
  "ToDouble (LFloat x) = x"
| "ToDouble _ = 0"

fun ToBytes :: "lvalue \<Rightarrow> bytes" where
  "ToBytes (LMedia d) = d"
| "ToBytes (LPicture d) = d"
| "ToBytes (LDate d) = d"
| "ToBytes _ = []"

fun StringValue :: "lvalue \<Rightarrow> string option" where
  "StringValue (LString s) = Some s"
| "StringValue v = String v"

text \<open>\<open>ExtractString\<close> of an interface value, nil included (a nil value matches no case
  of the type switch).\<close>

fun ExtractString :: "lvalue \<Rightarrow> string go" where
  "ExtractString (LString s) = Ok s"
| "ExtractString (LSymbol s) = Ok s"
| "ExtractString (LList (v # _)) = ExtractString v"
| "ExtractString (LList []) = Err ErrOther"
| "ExtractString _ = Err ErrOther"

definition extract_string_arg :: "lvalue option \<Rightarrow> string go" where
  "extract_string_arg c = (case c of None \<Rightarrow> Err ErrOther | Some v \<Rightarrow> ExtractString v)"

text \<open>Property lists: \<open>AddElement\<close>, \<open>Count\<close>, \<open>GetElementAt\<close>, \<open>GetPropAt\<close>, \<open>GetElement\<close>.\<close>

fun AddElement :: "lvalue \<Rightarrow> lvalue \<Rightarrow> lvalue \<Rightarrow> lvalue" where
  "AddElement (LPropList ps vs) p v = LPropList (ps @ [p]) (vs @ [v])"
| "AddElement x p v = x"

definition GetElementAt :: "lvalue list \<Rightarrow> lvalue list \<Rightarrow> int \<Rightarrow> lvalue option" where
  "GetElementAt ps vs pos =
     (if pos < 0 \<or> pos \<ge> int (length ps) then Some LVoid
      else if nat pos < length vs then Some (vs ! nat pos) else None)"

definition GetPropAt :: "lvalue list \<Rightarrow> lvalue list \<Rightarrow> int \<Rightarrow> lvalue option" where
  "GetPropAt ps vs pos =
     (if pos < 0 \<or> pos \<ge> int (length ps) then Some LVoid else Some (ps ! nat pos))"

definition with_bang :: "string \<Rightarrow> string" where
  "with_bang n = (case n of [] \<Rightarrow> [] | c # _ \<Rightarrow> if c \<noteq> CHR ''!'' then CHR ''!'' # n else n)"

definition without_bang :: "string \<Rightarrow> string" where
  "without_bang n = (case n of [] \<Rightarrow> [] | c # r \<Rightarrow> if c = CHR ''!'' then r else n)"

fun find_prop :: "string \<Rightarrow> lvalue list \<Rightarrow> lvalue list \<Rightarrow> lvalue go" where
  "find_prop name [] vs = Err ErrOther"
| "find_prop name (p # ps) vs =
     nopanic (String p) (\<lambda>s.
       if s = with_bang name \<or> s = without_bang name \<or> s = name
       then (case vs of v # _ \<Rightarrow> Ok v | [] \<Rightarrow> Panic)
       else find_prop name ps (tl vs))"

definition GetElement :: "lvalue list \<Rightarrow> lvalue list \<Rightarrow> string \<Rightarrow> lvalue go" where
  "GetElement ps vs name = find_prop name ps vs"

end
