(* ===== verification/LingoWire.thy ===== *)
theory LingoWire
  imports Lingo
begin

text \<open>
  Properties of the Lingo decoder and encoder: the decoder returns on every input
  and never panics, the property lists it builds are aligned, the encoder panics
  exactly on values with a nil field or a misaligned property list, and what
  decoding an encoded value gives, value by value.
\<close>


section \<open>The decoder never panics\<close>

declare FromRawBytes.simps [simp del]

lemma extract_leaf_defined [simp]:
  "extract_integer v raw off \<noteq> None"
  "extract_float v raw off \<noteq> None"
  "extract_text con v raw off \<noteq> None"
  "extract_picture v raw off \<noteq> None"
  "extract_color v raw off \<noteq> None"
  "extract_date v raw off \<noteq> None"
  "extract_3dvector v raw off \<noteq> None"
  by (simp_all add: extract_integer_def extract_float_def extract_text_def extract_picture_def
      extract_color_def extract_date_def extract_3dvector_def byte_at_def Let_def bind_eq_None_conv
      del: not_None_eq)

lemma read_matrix_defined: "off + 4 * n \<le> length raw \<Longrightarrow> read_matrix n raw off \<noteq> None"
  by (induction n arbitrary: off) (simp_all add: bind_eq_None_conv del: not_None_eq)

lemma extract_3dtransform_defined [simp]: "extract_3dtransform v raw off \<noteq> None"
  using read_matrix_defined [of off 16 raw]
  by (simp add: extract_3dtransform_def bind_eq_None_conv del: not_None_eq)

lemma decoder_defined:
  "FromRawBytes raw off \<noteq> None"
  "ExtractFromBytes v raw off2 \<noteq> None"
  "fields_loop n raw pos \<noteq> None"
  "list_loop n2 raw pos2 \<noteq> None"
  "prop_loop n3 raw pos3 \<noteq> None"
proof (induction raw off and v raw off2 and n raw pos and n2 raw pos2 and n3 raw pos3
      rule: FromRawBytes_ExtractFromBytes_fields_loop_list_loop_prop_loop.induct)
  case (1 raw off)
  then show ?case
    by (subst FromRawBytes.simps) (auto simp del: not_None_eq split: option.splits)
qed (auto simp del: not_None_eq split: option.splits, blast)

section \<open>Alignment and encodability\<close>

text \<open>Every property list in the value has as many values as properties.\<close>

fun aligned :: "lvalue \<Rightarrow> bool" where
  "aligned (LList vs) = (\<forall>v \<in> set vs. aligned v)"
| "aligned (LPoint h v) = ((\<forall>x \<in> set_option h. aligned x) \<and> (\<forall>x \<in> set_option v. aligned x))"
| "aligned (LRect l t r b) =
     ((\<forall>x \<in> set_option l. aligned x) \<and> (\<forall>x \<in> set_option t. aligned x) \<and>
      (\<forall>x \<in> set_option r. aligned x) \<and> (\<forall>x \<in> set_option b. aligned x))"
| "aligned (LPropList ps vs) =
     (length ps = length vs \<and> (\<forall>v \<in> set ps. aligned v) \<and> (\<forall>v \<in> set vs. aligned v))"
| "aligned _ = True"

lemma aligned_new_lvalue [simp]: "aligned (new_lvalue t)"
  by (simp add: new_lvalue_def)

lemma extract_leaf_aligned:
  "extract_integer v raw off = Some (v', c) \<Longrightarrow> aligned v \<Longrightarrow> aligned v'"
  "extract_float v raw off = Some (v', c) \<Longrightarrow> aligned v \<Longrightarrow> aligned v'"
  "extract_picture v raw off = Some (v', c) \<Longrightarrow> aligned v \<Longrightarrow> aligned v'"
  "extract_color v raw off = Some (v', c) \<Longrightarrow> aligned v \<Longrightarrow> aligned v'"
  "extract_date v raw off = Some (v', c) \<Longrightarrow> aligned v \<Longrightarrow> aligned v'"
  "extract_3dvector v raw off = Some (v', c) \<Longrightarrow> aligned v \<Longrightarrow> aligned v'"
  "extract_3dtransform v raw off = Some (v', c) \<Longrightarrow> aligned v \<Longrightarrow> aligned v'"
  "extract_text LSymbol v raw off = Some (v', c) \<Longrightarrow> aligned v \<Longrightarrow> aligned v'"
  "extract_text LString v raw off = Some (v', c) \<Longrightarrow> aligned v \<Longrightarrow> aligned v'"
  by (auto simp: extract_integer_def extract_float_def extract_text_def extract_picture_def
      extract_color_def extract_date_def extract_3dvector_def extract_3dtransform_def Let_def
      bind_eq_Some_conv split: if_splits)

lemma field_aligned: "\<forall>v \<in> set xs. aligned v \<Longrightarrow> \<forall>v \<in> set_option old. aligned v \<Longrightarrow>
    \<forall>v \<in> set_option (field xs i old). aligned v"
  by (simp add: field_def)

lemma decoder_aligned:
  "FromRawBytes raw off = Some r \<Longrightarrow> aligned r"
  "ExtractFromBytes v raw off2 = Some (v', c) \<Longrightarrow> aligned v \<Longrightarrow> aligned v'"
  "fields_loop n raw pos = Some (xs, ok, cur) \<Longrightarrow> \<forall>x \<in> set xs. aligned x"
  "list_loop n2 raw pos2 = Some (ys, cur2) \<Longrightarrow> \<forall>x \<in> set ys. aligned x"
  "prop_loop n3 raw pos3 = Some (ps, vs, cur3) \<Longrightarrow>
     length ps = length vs \<and> (\<forall>x \<in> set ps. aligned x) \<and> (\<forall>x \<in> set vs. aligned x)"
proof (induction raw off and v raw off2 and n raw pos and n2 raw pos2 and n3 raw pos3
      arbitrary: r and v' c and xs ok cur and ys cur2 and ps vs cur3
      rule: FromRawBytes_ExtractFromBytes_fields_loop_list_loop_prop_loop.induct)
  case (1 raw off)
  from "1.prems" show ?case
    by (subst (asm) FromRawBytes.simps)
      (auto split: option.splits if_splits intro: "1.IH")
next
  case (11 vs raw off)
  from "11.prems" show ?case
    by (auto split: option.splits if_splits dest: "11.IH")
next
  case (12 h v raw off)
  from "12.prems" show ?case
    by (auto split: option.splits if_splits simp: field_def dest!: "12.IH")
next
  case (13 l t r b raw off)
  from "13.prems" show ?case
    by (auto split: option.splits if_splits simp: field_def dest!: "13.IH")
next
  case (14 ps vs raw off)
  from "14.prems" show ?case
    by (auto split: option.splits if_splits) (use "14.IH" in blast)+
next
  case (17 n raw pos)
  from "17.prems" show ?case
    by (auto split: option.splits if_splits simp del: add_2_eq_Suc') (use "17.IH" in blast)+
next
  case (19 n raw pos)
  from "19.prems" show ?case
    by (auto split: option.splits if_splits simp del: add_2_eq_Suc') (use "19.IH" in blast)+
next
  case (21 n raw pos)
  show ?case
  proof (cases "pos + 2 > length raw")
    case True
    with "21.prems" show ?thesis by simp
  next
    case False
    from "21.prems" False show ?thesis
      by (auto split: option.splits if_splits simp del: add_2_eq_Suc')
        (metis "21.IH" [OF False])+
  qed
qed (auto dest: extract_leaf_aligned)

text \<open>No point or rect in the value has a nil field.\<close>

fun no_nil :: "lvalue \<Rightarrow> bool" where
  "no_nil (LList vs) = (\<forall>v \<in> set vs. no_nil v)"
| "no_nil (LPoint h v) = (h \<noteq> None \<and> v \<noteq> None \<and>
     (\<forall>x \<in> set_option h. no_nil x) \<and> (\<forall>x \<in> set_option v. no_nil x))"
| "no_nil (LRect l t r b) = (l \<noteq> None \<and> t \<noteq> None \<and> r \<noteq> None \<and> b \<noteq> None \<and>
     (\<forall>x \<in> set_option l. no_nil x) \<and> (\<forall>x \<in> set_option t. no_nil x) \<and>
     (\<forall>x \<in> set_option r. no_nil x) \<and> (\<forall>x \<in> set_option b. no_nil x))"
| "no_nil (LPropList ps vs) = ((\<forall>v \<in> set ps. no_nil v) \<and> (\<forall>v \<in> set vs. no_nil v))"
| "no_nil _ = True"

lemma concat_opts_None_iff: "concat_opts xs = None \<longleftrightarrow> None \<in> set xs"
  by (induction xs) (auto simp: bind_eq_None_conv)

lemma set_interleave: "length xs = length ys \<Longrightarrow> set (interleave xs ys) = set xs \<union> set ys"
  by (induction xs ys rule: list_induct2) (auto simp: interleave_def)

lemma those_None_iff: "those xs = None \<longleftrightarrow> None \<in> set xs"
  by (induction xs) (auto split: option.splits)

lemma None_in_image: "None \<in> f ` A \<longleftrightarrow> (\<exists>x \<in> A. f x = None)"
  by (auto simp: image_iff eq_commute [of None])

lemma GetBytes_None_iff: "aligned v \<Longrightarrow> GetBytes v = None \<longleftrightarrow> \<not> no_nil v"
  by (induction v rule: lvalue.induct)
    (auto simp: bind_eq_None_conv concat_opts_None_iff set_interleave None_in_image
      simp del: not_None_eq)

lemma String_proplist_defined:
  assumes "length ps = length vs"
    and "\<forall>v \<in> set ps \<union> set vs. String v \<noteq> None"
  shows "String (LPropList ps vs) \<noteq> None"
proof -
  have "(case x of (p, v) \<Rightarrow> do { a \<leftarrow> p; b \<leftarrow> v; Some (a @ '': '' @ b) }) \<noteq> None"
    if "x \<in> set (zip (map String ps) (map String vs))" for x
  proof -
    obtain p v where x: "x = (p, v)" by (rule prod.exhaust)
    with that have "p \<in> String ` set ps" "v \<in> String ` set vs"
      using set_zip_leftD [of p v "map String ps"]
        set_zip_rightD [of p v "map String ps" "map String vs"] by auto
    with assms(2) x show ?thesis
      by (auto simp: bind_eq_None_conv simp del: not_None_eq)
  qed
  with assms(1) show ?thesis
    by (auto simp: join_opts_def those_None_iff None_in_image simp del: not_None_eq)
qed

lemma String_defined: "aligned v \<Longrightarrow> no_nil v \<Longrightarrow> String v \<noteq> None"
proof (induction v rule: lvalue.induct)
  case (LPropList ps vs)
  then show ?case by (intro String_proplist_defined) auto
qed (auto simp: bind_eq_None_conv simp del: not_None_eq)

section \<open>Decoding an encoded value\<close>

text \<open>The values whose encoding the decoder can read back: lengths that fit their
  32-bit prefix, aligned property lists, no nil field, and no media.\<close>

fun wire_ok :: "lvalue \<Rightarrow> bool" where
  "wire_ok (LSymbol s) = (length s < 2 ^ 32)"
| "wire_ok (LString s) = (length s < 2 ^ 32)"
| "wire_ok (LPicture d) = (length d < 2 ^ 32)"
| "wire_ok (LList vs) = (length vs < 2 ^ 32 \<and> (\<forall>v \<in> set vs. wire_ok v))"
| "wire_ok (LPoint (Some h) (Some v)) = (wire_ok h \<and> wire_ok v)"
| "wire_ok (LPoint _ _) = False"
| "wire_ok (LRect (Some l) (Some t) (Some r) (Some b)) =
     (wire_ok l \<and> wire_ok t \<and> wire_ok r \<and> wire_ok b)"
| "wire_ok (LRect _ _ _ _) = False"
| "wire_ok (LPropList ps vs) =
     (length ps = length vs \<and> length ps < 2 ^ 32 \<and>
      (\<forall>v \<in> set ps. wire_ok v) \<and> (\<forall>v \<in> set vs. wire_ok v))"
| "wire_ok (LDate d) = (length d = 8)"
| "wire_ok (LMedia _) = False"
| "wire_ok (L3dTransform m) = (length m = 16)"
| "wire_ok _ = True"

text \<open>What a container stores for an encoded element: a property list is extracted
  twice into the same receiver, which appends, so its entries come out doubled.\<close>

fun stored :: "lvalue \<Rightarrow> lvalue" where
  "stored (LList vs) = LList (map stored vs)"
| "stored (LPoint h v) = LPoint (map_option stored h) (map_option stored v)"
| "stored (LRect l t r b) =
     LRect (map_option stored l) (map_option stored t) (map_option stored r) (map_option stored b)"
| "stored (LPropList ps vs) =
     LPropList (map stored ps @ map stored ps) (map stored vs @ map stored vs)"
| "stored v = v"

text \<open>What decoding an encoded value gives at the top: the property list itself is
  extracted once.\<close>

definition decoded :: "lvalue \<Rightarrow> lvalue" where
  "decoded v = (case v of LPropList ps vs \<Rightarrow> LPropList (map stored ps) (map stored vs)
                        | _ \<Rightarrow> stored v)"

definition decodes :: "lvalue \<Rightarrow> bytes \<Rightarrow> bool" where
  "decodes v b \<longleftrightarrow> 2 \<le> length b \<and>
     (\<forall>pre suf. FromRawBytes (pre @ b @ suf) (length pre) = Some (decoded v) \<and>
        ExtractFromBytes (decoded v) (pre @ b @ suf) (length pre + 2) =
          Some (stored v, length b - 2))"

lemma new_lvalue_simps [simp]:
  "new_lvalue VtVoid = LVoid" "new_lvalue VtInteger = LInteger 0"
  "new_lvalue VtSymbol = LSymbol []" "new_lvalue VtString = LString []"
  "new_lvalue VtFloat = LFloat 0" "new_lvalue VtList = LList []"
  "new_lvalue VtPicture = LPicture []" "new_lvalue VtMedia = LMedia []"
  "new_lvalue VtPoint = LPoint None None" "new_lvalue VtRect = LRect None None None None"
  "new_lvalue VtPropList = LPropList [] []" "new_lvalue VtColor = LColor 0 0 0"
  "new_lvalue VtDate = LDate (replicate 8 0)" "new_lvalue Vt3dVector = L3dVector 0 0 0"
  "new_lvalue Vt3dTransform = L3dTransform (replicate 16 0)"
  by (simp_all add: new_lvalue_def vt_defs)

lemma decodesI:
  assumes "b = put_uint16 (GetType v) @ body"
    and "\<And>pre suf. ExtractFromBytes (new_lvalue (GetType v)) (pre @ body @ suf) (length pre) =
            Some (decoded v, length body)"
    and "\<And>pre suf. ExtractFromBytes (decoded v) (pre @ body @ suf) (length pre) =
            Some (stored v, length body)"
  shows "decodes v b"
proof -
  have "FromRawBytes (pre @ b @ suf) (length pre) = Some (decoded v)" for pre suf
    using assms(2) [of "pre @ put_uint16 (GetType v)" suf]
    by (simp add: FromRawBytes.simps assms(1) wire_simps)
  moreover have "ExtractFromBytes (decoded v) (pre @ b @ suf) (length pre + 2) =
      Some (stored v, length b - 2)" for pre suf
    using assms(3) [of "pre @ put_uint16 (GetType v)" suf] by (simp add: assms(1))
  ultimately show ?thesis by (simp add: decodes_def assms(1))
qed

lemma unat_word_of_nat32 [simp]: "n < 4294967296 \<Longrightarrow> unat (word_of_nat n :: 32 word) = n"
  by (simp add: unat_of_nat take_bit_eq_mod)

lemma extract_text_encoded:
  assumes "length s < 2 ^ 32"
  shows "extract_text con v (pre @ (put_uint32 (word_of_nat (length s)) @ bts s @
           replicate (padded (length s) - length s) 0) @ suf) (length pre) =
         Some (con s, 4 + padded (length s))"
  using assms
  by (simp add: extract_text_def wire_simps subslice_def Let_def)

lemma extract_picture_encoded:
  assumes "length d < 2 ^ 32"
  shows "extract_picture v (pre @ (put_uint32 (word_of_nat (length d)) @ d) @ suf) (length pre) =
         Some (LPicture d, 4 + length d)"
  using assms
  by (simp add: extract_picture_def wire_simps subslice_def Let_def)

lemma read_matrix_encoded:
  "read_matrix (length m) (pre @ concat (map put_uint32 m) @ suf) (length pre) = Some m"
proof (induction m arbitrary: pre)
  case Nil
  show ?case by simp
next
  case (Cons x m)
  from Cons [of "pre @ put_uint32 x"] show ?case
    by (simp add: wire_simps)
qed

lemma length_matrix_bytes [simp]: "length (concat (map put_uint32 m)) = 4 * length m"
  by (induction m) auto

lemma padded_ge [simp]: "n \<le> padded n"
  by (simp add: padded_def)

lemma decodes_void: "decodes LVoid (put_uint16 VtVoid)"
  by (rule decodesI [where body = "[]"]) (simp_all add: decoded_def)

lemma decodes_integer: "decodes (LInteger x) (put_uint16 VtInteger @ put_uint32 x)"
  by (rule decodesI [where body = "put_uint32 x"])
    (simp_all add: decoded_def extract_integer_def wire_simps)

lemma decodes_float: "decodes (LFloat x) (put_uint16 VtFloat @ put_uint64 x)"
  by (rule decodesI [where body = "put_uint64 x"])
    (simp_all add: decoded_def extract_float_def wire_simps)

lemma decodes_color: "decodes (LColor r g b) (put_uint16 VtColor @ [r, g, b, 0])"
  by (rule decodesI [where body = "[r, g, b, 0]"])
    (simp_all add: decoded_def extract_color_def byte_at_def nth_append)

lemma decodes_text:
  assumes "length s < 2 ^ 32"
  shows "decodes (LSymbol s) (text_bytes VtSymbol s)" "decodes (LString s) (text_bytes VtString s)"
  using extract_text_encoded [OF assms]
  by (auto intro!: decodesI simp: text_bytes_def decoded_def)

lemma decodes_picture: "length d < 2 ^ 32 \<Longrightarrow>
    decodes (LPicture d) (put_uint16 VtPicture @ put_uint32 (word_of_nat (length d)) @ d)"
  using extract_picture_encoded [of d] by (auto intro!: decodesI simp: decoded_def)

lemma decodes_date: "length d = 8 \<Longrightarrow> decodes (LDate d) (put_uint16 VtDate @ d)"
  by (rule decodesI [where body = d]) (simp_all add: decoded_def extract_date_def subslice_def)

lemma decodes_3dvector:
  "decodes (L3dVector x y z) (put_uint16 Vt3dVector @ put_uint32 x @ put_uint32 y @ put_uint32 z)"
proof (rule decodesI [where body = "put_uint32 x @ put_uint32 y @ put_uint32 z"])
  show "ExtractFromBytes (decoded (L3dVector x y z))
      (pre @ (put_uint32 x @ put_uint32 y @ put_uint32 z) @ suf) (length pre) =
      Some (stored (L3dVector x y z), length (put_uint32 x @ put_uint32 y @ put_uint32 z))"
    and "ExtractFromBytes (new_lvalue (GetType (L3dVector x y z)))
      (pre @ (put_uint32 x @ put_uint32 y @ put_uint32 z) @ suf) (length pre) =
      Some (decoded (L3dVector x y z), length (put_uint32 x @ put_uint32 y @ put_uint32 z))"
    for pre suf
    using uint_at_put(2) [of "pre @ put_uint32 x" y "put_uint32 z @ suf"]
      uint_at_put(2) [of "pre @ put_uint32 x @ put_uint32 y" z suf]
    by (simp_all add: decoded_def extract_3dvector_def wire_simps)
qed simp

lemma decodes_3dtransform: "length m = 16 \<Longrightarrow>
    decodes (L3dTransform m) (put_uint16 Vt3dTransform @ concat (map put_uint32 m))"
  using read_matrix_encoded [of m]
  by (auto intro!: decodesI simp: decoded_def extract_3dtransform_def)

lemmas decodes_leaf = decodes_void decodes_integer decodes_float decodes_color decodes_text
  decodes_picture decodes_date decodes_3dvector decodes_3dtransform

text \<open>The element loops on a run of encoded elements.\<close>

lemma decodes_at:
  assumes "decodes v b"
  shows "FromRawBytes (pre @ b @ suf) (length pre) = Some (decoded v)"
    and "ExtractFromBytes (decoded v) (pre @ b @ suf) (length pre + 2) =
      Some (stored v, length b - 2)"
  using assms by (simp_all add: decodes_def)

lemma decodes_length: "decodes v b \<Longrightarrow> \<exists>k. length b = Suc (Suc k)"
  using le_Suc_ex [of 2 "length b"] by (auto simp: decodes_def)

lemma list_loop_encoded:
  "list_all2 decodes vs bs \<Longrightarrow>
   list_loop (length vs) (pre @ concat bs @ suf) (length pre) =
     Some (map stored vs, length pre + length (concat bs))"
proof (induction vs bs arbitrary: pre rule: list_all2_induct)
  case Nil
  show ?case by simp
next
  case (Cons v vs b bs)
  note at = decodes_at [OF Cons(1), of pre "concat bs @ suf"]
  obtain k where "length b = Suc (Suc k)" using decodes_length [OF Cons(1)] ..
  with Cons.IH [of "pre @ b"] at show ?case by simp
qed

lemma fields_loop_encoded:
  "list_all2 decodes vs bs \<Longrightarrow>
   fields_loop (length vs) (pre @ concat bs @ suf) (length pre) =
     Some (map stored vs, True, length pre + length (concat bs))"
proof (induction vs bs arbitrary: pre rule: list_all2_induct)
  case Nil
  show ?case by simp
next
  case (Cons v vs b bs)
  note at = decodes_at [OF Cons(1), of pre "concat bs @ suf"]
  obtain k where "length b = Suc (Suc k)" using decodes_length [OF Cons(1)] ..
  with Cons.IH [of "pre @ b"] at show ?case by simp
qed

lemma prop_loop_encoded:
  "list_all2 decodes ps bs \<Longrightarrow> list_all2 decodes vs cs \<Longrightarrow> length ps = length vs \<Longrightarrow>
   prop_loop (length ps) (pre @ concat (interleave bs cs) @ suf) (length pre) =
     Some (map stored ps, map stored vs, length pre + length (concat (interleave bs cs)))"
proof (induction ps bs arbitrary: vs cs pre rule: list_all2_induct)
  case Nil
  then show ?case by (simp add: interleave_def)
next
  case (Cons p ps b bs)
  from Cons.prems obtain v vs' c cs' where vs: "vs = v # vs'" "cs = c # cs'"
    and dv: "decodes v c" and rest: "list_all2 decodes vs' cs'" "length ps = length vs'"
    by (cases vs; cases cs) auto
  let ?r = "concat (interleave bs cs')"
  note at_p = decodes_at [OF Cons(1), of pre "c @ ?r @ suf"]
  note at_v = decodes_at [OF dv, of "pre @ b" "?r @ suf"]
  have IH: "prop_loop (length ps) ((pre @ b @ c) @ ?r @ suf) (length (pre @ b @ c)) =
      Some (map stored ps, map stored vs', length (pre @ b @ c) + length ?r)"
    by (rule Cons.IH [OF rest])
  obtain k where k: "length b = Suc (Suc k)" using decodes_length [OF Cons(1)] ..
  obtain l where l: "length c = Suc (Suc l)" using decodes_length [OF dv] ..
  have four: "n + 4 = Suc (Suc (Suc (Suc n)))" for n :: nat by simp
  have "interleave (b # bs) (c # cs') = b # c # interleave bs cs'"
    by (simp add: interleave_def)
  with at_p at_v IH k l show ?case
    by (simp add: vs four add.assoc)
qed

lemma concat_opts_map_Some [simp]: "concat_opts (map Some bs) = Some (concat bs)"
  by (induction bs) auto

lemma interleave_map: "interleave (map f xs) (map f ys) = map f (interleave xs ys)"
  by (simp add: interleave_def zip_map_map map_concat comp_def split_beta)

lemma encodes_all:
  assumes "\<And>v. v \<in> set vs \<Longrightarrow> \<exists>b. GetBytes v = Some b \<and> decodes v b"
  shows "\<exists>bs. map GetBytes vs = map Some bs \<and> list_all2 decodes vs bs"
  using assms
proof (induction vs)
  case Nil
  show ?case by simp
next
  case (Cons v vs)
  then obtain b bs where "GetBytes v = Some b" "decodes v b"
    and "map GetBytes vs = map Some bs" "list_all2 decodes vs bs"
    by (metis list.set_intros)
  then have "map GetBytes (v # vs) = map Some (b # bs) \<and> list_all2 decodes (v # vs) (b # bs)"
    by simp
  then show ?case by blast
qed

lemma length_concat_decodes: "list_all2 decodes vs bs \<Longrightarrow> 2 * length vs \<le> length (concat bs)"
  by (induction vs bs rule: list_all2_induct) (auto dest: decodes_length)

lemma decodes_list:
  assumes "list_all2 decodes vs bs" and "length vs < 2 ^ 32"
  shows "decodes (LList vs) (put_uint16 VtList @ put_uint32 (word_of_nat (length vs)) @ concat bs)"
proof (rule decodesI [where body = "put_uint32 (word_of_nat (length vs)) @ concat bs"])
  fix pre suf :: bytes
  let ?w = "put_uint32 (word_of_nat (length vs))"
  have loop: "list_loop (length vs) (pre @ ?w @ concat bs @ suf) (length pre + 4) =
      Some (map stored vs, length pre + 4 + length (concat bs))"
    using list_loop_encoded [OF assms(1), of "pre @ ?w" suf] by simp
  have count: "length vs \<le> (length (concat bs) + length suf) div 2"
    using length_concat_decodes [OF assms(1)] by simp
  show "ExtractFromBytes (new_lvalue (GetType (LList vs))) (pre @ (?w @ concat bs) @ suf) (length pre)
      = Some (decoded (LList vs), length (?w @ concat bs))"
    and "ExtractFromBytes (decoded (LList vs)) (pre @ (?w @ concat bs) @ suf) (length pre)
      = Some (stored (LList vs), length (?w @ concat bs))"
    using loop count assms(2) by (simp_all add: decoded_def wire_simps)
qed simp

lemma decodes_proplist:
  assumes "list_all2 decodes ps bs" "list_all2 decodes vs cs"
    and "length ps = length vs" "length ps < 2 ^ 32"
  shows "decodes (LPropList ps vs)
     (put_uint16 VtPropList @ put_uint32 (word_of_nat (length ps)) @ concat (interleave bs cs))"
proof (rule decodesI [where body = "put_uint32 (word_of_nat (length ps)) @ concat (interleave bs cs)"])
  fix pre suf :: bytes
  let ?w = "put_uint32 (word_of_nat (length ps))" and ?b = "concat (interleave bs cs)"
  have loop: "prop_loop (length ps) (pre @ ?w @ ?b @ suf) (length pre + 4) =
      Some (map stored ps, map stored vs, length pre + 4 + length ?b)"
    using prop_loop_encoded [OF assms(1-3), of "pre @ ?w" suf] by simp
  show "ExtractFromBytes (new_lvalue (GetType (LPropList ps vs))) (pre @ (?w @ ?b) @ suf) (length pre)
      = Some (decoded (LPropList ps vs), length (?w @ ?b))"
    and "ExtractFromBytes (decoded (LPropList ps vs)) (pre @ (?w @ ?b) @ suf) (length pre)
      = Some (stored (LPropList ps vs), length (?w @ ?b))"
    using loop assms(3,4) by (simp_all add: decoded_def wire_simps)
qed simp

lemma decodes_point:
  assumes "decodes h a" "decodes v b"
  shows "decodes (LPoint (Some h) (Some v)) (put_uint16 VtPoint @ a @ b)"
proof (rule decodesI [where body = "a @ b"])
  fix pre suf :: bytes
  have "fields_loop 2 (pre @ a @ b @ suf) (length pre) =
      Some ([stored h, stored v], True, length pre + length (a @ b))"
    using fields_loop_encoded [of "[h, v]" "[a, b]" pre suf] assms by (simp add: numeral_2_eq_2)
  then show "ExtractFromBytes (new_lvalue (GetType (LPoint (Some h) (Some v)))) (pre @ (a @ b) @ suf)
      (length pre) = Some (decoded (LPoint (Some h) (Some v)), length (a @ b))"
    and "ExtractFromBytes (decoded (LPoint (Some h) (Some v))) (pre @ (a @ b) @ suf) (length pre) =
      Some (stored (LPoint (Some h) (Some v)), length (a @ b))"
    by (simp_all add: decoded_def field_def)
qed simp

lemma decodes_rect:
  assumes "decodes l a" "decodes t b" "decodes r c" "decodes w d"
  shows "decodes (LRect (Some l) (Some t) (Some r) (Some w)) (put_uint16 VtRect @ a @ b @ c @ d)"
proof (rule decodesI [where body = "a @ b @ c @ d"])
  fix pre suf :: bytes
  let ?v = "LRect (Some l) (Some t) (Some r) (Some w)"
  have "fields_loop 4 (pre @ a @ b @ c @ d @ suf) (length pre) =
      Some ([stored l, stored t, stored r, stored w], True, length pre + length (a @ b @ c @ d))"
    using fields_loop_encoded [of "[l, t, r, w]" "[a, b, c, d]" pre suf] assms
    by (simp add: numeral_eq_Suc)
  then show "ExtractFromBytes (new_lvalue (GetType ?v)) (pre @ (a @ b @ c @ d) @ suf) (length pre) =
      Some (decoded ?v, length (a @ b @ c @ d))"
    and "ExtractFromBytes (decoded ?v) (pre @ (a @ b @ c @ d) @ suf) (length pre) =
      Some (stored ?v, length (a @ b @ c @ d))"
    by (simp_all add: decoded_def field_def)
qed simp

lemma encode_decodes: "wire_ok v \<Longrightarrow> \<exists>b. GetBytes v = Some b \<and> decodes v b"
proof (induction v rule: lvalue.induct)
  case (LList vs)
  then obtain bs where "map GetBytes vs = map Some bs" and bs: "list_all2 decodes vs bs"
    using encodes_all [of vs] by auto
  with LList.prems decodes_list [OF bs] list_all2_lengthD [OF bs] show ?case by simp
next
  case (LPropList ps vs)
  then obtain bs cs where bs: "map GetBytes ps = map Some bs" "list_all2 decodes ps bs"
    and cs: "map GetBytes vs = map Some cs" "list_all2 decodes vs cs"
    using encodes_all [of ps] encodes_all [of vs] by auto
  with LPropList.prems decodes_proplist [OF bs(2) cs(2)] list_all2_lengthD [OF bs(2)]
    list_all2_lengthD [OF cs(2)] show ?case
    by (simp add: interleave_map)
next
  case (LPoint h v)
  then show ?case by (cases h; cases v) (auto intro!: decodes_point)
next
  case (LRect l t r b)
  then show ?case by (cases l; cases t; cases r; cases b) (auto intro!: decodes_rect)
qed (auto intro: decodes_leaf)

text \<open>Values that no container doubles: property lists occur inside only when empty.\<close>

fun prop_free :: "lvalue \<Rightarrow> bool" where
  "prop_free (LList vs) = (\<forall>v \<in> set vs. prop_free v)"
| "prop_free (LPoint h v) =
     ((\<forall>x \<in> set_option h. prop_free x) \<and> (\<forall>x \<in> set_option v. prop_free x))"
| "prop_free (LRect l t r b) =
     ((\<forall>x \<in> set_option l. prop_free x) \<and> (\<forall>x \<in> set_option t. prop_free x) \<and>
      (\<forall>x \<in> set_option r. prop_free x) \<and> (\<forall>x \<in> set_option b. prop_free x))"
| "prop_free (LPropList ps vs) = (ps = [] \<and> vs = [])"
| "prop_free _ = True"

fun inner_prop_free :: "lvalue \<Rightarrow> bool" where
  "inner_prop_free (LPropList ps vs) = ((\<forall>v \<in> set ps. prop_free v) \<and> (\<forall>v \<in> set vs. prop_free v))"
| "inner_prop_free v = prop_free v"

lemma map_eq_self_iff: "map f xs = xs \<longleftrightarrow> (\<forall>x \<in> set xs. f x = x)"
  by (induction xs) auto

lemma map_option_eq_self_iff: "map_option f x = x \<longleftrightarrow> (\<forall>y \<in> set_option x. f y = y)"
  by (cases x) auto

lemma map_double_eq_self_iff: "map f xs @ map f xs = xs \<longleftrightarrow> xs = []"
proof
  assume "map f xs @ map f xs = xs"
  then have "length (map f xs @ map f xs) = length xs" by simp
  then show "xs = []" by simp
qed simp

lemma stored_eq_self_iff: "stored v = v \<longleftrightarrow> prop_free v"
  by (induction v rule: lvalue.induct)
    (auto simp: map_eq_self_iff map_option_eq_self_iff map_double_eq_self_iff)

lemma decoded_eq_self_iff: "decoded v = v \<longleftrightarrow> inner_prop_free v"
proof (cases v)
  case (LPropList ps vs)
  then show ?thesis by (simp add: decoded_def map_eq_self_iff stored_eq_self_iff)
qed (simp_all add: decoded_def stored_eq_self_iff del: stored.simps prop_free.simps)


section \<open>Properties\<close>

text \<open>The decoder returns a value for every buffer and every offset: no input makes
  \<open>FromRawBytes\<close> index or slice out of range, and its recursion ends.  The value has as many
  values as properties in every property list it contains, which is what the comment in
  \<open>LPropList.ExtractFromBytes\<close> promises.\<close>

theorem decode_total_aligned: "\<exists>v. FromRawBytes raw off = Some v \<and> aligned v"
  using decoder_defined(1) [of raw off] decoder_aligned(1) [of raw off] by auto

text \<open>Encoding a decoded value panics exactly when some point or rect in it was cut short
  and kept a nil field; otherwise both \<open>GetBytes\<close> and \<open>String\<close> return.\<close>

theorem encode_decoded_panics_iff:
  assumes "FromRawBytes raw off = Some v"
  shows "(GetBytes v = None \<longleftrightarrow> \<not> no_nil v) \<and> (no_nil v \<longrightarrow> (\<exists>s. String v = Some s))"
  using GetBytes_None_iff [of v] String_defined [of v] decoder_aligned(1) [OF assms] by auto

text \<open>C1.  Decoding the encoding of a value, anywhere in a buffer, gives exactly \<open>decoded\<close> of it:
  every property list nested in a list, point, rect or property list comes back with all of its
  entries twice.\<close>

theorem decode_encode_exact:
  assumes "wire_ok v"
  shows "\<exists>b. GetBytes v = Some b \<and>
    (\<forall>pre suf. FromRawBytes (pre @ b @ suf) (length pre) = Some (decoded v))"
  using encode_decodes [OF assms] by (auto simp: decodes_def)


text \<open>Concrete instances of the properties.\<close>

lemma uint32_at_simps:
  "uint32_at raw 0 = uint32 raw" "uint16_at raw 0 = uint16 raw" "uint64_at raw 0 = uint64 raw"
  by (simp_all add: uint32_at_def uint16_at_def uint64_at_def)

lemma fields_loop_short: "0 < n \<Longrightarrow> length raw < pos + 2 \<Longrightarrow> fields_loop n raw pos = Some ([], False, pos)"
  by (cases n) auto

theorem encode_decoded_panics_iff_witness:
  "FromRawBytes [0, 8] 0 = Some (LPoint None None) \<and> GetBytes (LPoint None None) = None"
proof -
  have d: "FromRawBytes [0, 8] 0 = Some (LPoint None None)"
    by (subst FromRawBytes.simps) (simp add: uint32_at_simps new_lvalue_def vt_defs field_def fields_loop_short)
  with encode_decoded_panics_iff [OF d] show ?thesis by simp
qed

theorem decode_encode_exact_witness:
  "\<exists>b. GetBytes (LList [LPropList [LSymbol ''a''] [LInteger 1]]) = Some b \<and>
     (\<forall>pre suf. FromRawBytes (pre @ b @ suf) (length pre) =
        Some (LList [LPropList [LSymbol ''a'', LSymbol ''a''] [LInteger 1, LInteger 1]]))"
  using decode_encode_exact [of "LList [LPropList [LSymbol ''a''] [LInteger 1]]"]
  by (simp add: decoded_def)


end
