(* ===== verification/Smus.thy ===== *)
theory Smus
  imports LingoWire
begin

text \<open>
  The message envelope of \<open>internal/domain/types/smus\<close>: header strings and header
  string lists, the parser \<open>ParseMUSMessageWithDecryption\<close> and the encoder
  \<open>MUSMessage.GetBytes\<close>.  A cipher (\<open>ports.Cipher\<close>) is a parameter of the parser: nil is
  \<^const>\<open>None\<close>, otherwise the function its \<open>Decrypt\<close> computes.

  The parser and the encoder are shown inverse to each other through two interfaces:
  \<open>wire_item\<close>, what the list decoder needs of the decoder of an element, and
  \<open>stream_cipher\<close>, what the parser needs of a cipher.
\<close>


section \<open>Error codes on the wire\<close>

text \<open>The \<open>int32\<close> codes of \<open>mus_error_code.go\<close> that the server sends.\<close>

definition ErrNoError :: "32 word" where "ErrNoError = 0"
definition ErrInvalidUserID :: "32 word" where "ErrInvalidUserID = - 0x7FFBEB5D"
definition ErrInvalidPassword :: "32 word" where "ErrInvalidPassword = - 0x7FFBEB5C"
definition ErrConnectionRefused :: "32 word" where "ErrConnectionRefused = - 0x7FFBEB51"
definition ErrInvalidMessageFormat :: "32 word" where "ErrInvalidMessageFormat = - 0x7FFBEB4F"
definition ErrServerInternalError :: "32 word" where "ErrServerInternalError = - 0x7FFBEB45"
definition ErrInvalidServerCommand :: "32 word" where "ErrInvalidServerCommand = - 0x7FFBEB41"
definition ErrDatabaseUserIDNotFound :: "32 word" where "ErrDatabaseUserIDNotFound = - 0x7FFBEB3B"
definition ErrDatabaseDataNotFound :: "32 word" where "ErrDatabaseDataNotFound = - 0x7FFBEB34"

lemmas err_defs = ErrNoError_def ErrInvalidUserID_def ErrInvalidPassword_def ErrConnectionRefused_def
  ErrInvalidMessageFormat_def ErrServerInternalError_def ErrInvalidServerCommand_def
  ErrDatabaseUserIDNotFound_def ErrDatabaseDataNotFound_def


section \<open>Header strings\<close>

record header_string =
  Length :: nat
  Value :: string

definition ExtractMUSMsgHeaderString :: "bytes \<Rightarrow> nat \<Rightarrow> (header_string \<times> nat) go" where
  "ExtractMUSMsgHeaderString data off =
     (if off + 4 > length data then Err ErrOther
      else nopanic (uint32_at data off) (\<lambda>w.
        let len = unat w
        in if off + 4 + len > length data then Err ErrOther
           else nopanic (subslice data (off + 4) (off + 4 + len)) (\<lambda>b.
             let bytesConsumed = 4 + len
             in Ok (\<lparr>Length = len, Value = str b\<rparr>,
                    if odd len then bytesConsumed + 1 else bytesConsumed))))"

definition WriteBytes :: "header_string \<Rightarrow> bytes" where
  "WriteBytes m = put_uint32 (word_of_nat (length (Value m))) @ bts (Value m) @
     (if odd (length (Value m)) then [0] else [])"


section \<open>Header string lists\<close>

record header_string_list =
  Count :: nat
  Strings :: "header_string list"

text \<open>The element loop of a list decoder: \<open>n\<close> elements from \<open>off\<close>, with the bytes consumed.\<close>

fun dec_many :: "(bytes \<Rightarrow> nat \<Rightarrow> ('a \<times> nat) go) \<Rightarrow> nat \<Rightarrow> bytes \<Rightarrow> nat \<Rightarrow> ('a list \<times> nat) go" where
  "dec_many dec 0 data off = Ok ([], 0)"
| "dec_many dec (Suc n) data off =
     go_bind (dec data off) (\<lambda>(x, consumed).
       go_bind (dec_many dec n data (off + consumed)) (\<lambda>(xs, total).
         Ok (x # xs, consumed + total)))"

definition ExtractMUSMsgHeaderStringList :: "bytes \<Rightarrow> nat \<Rightarrow> (header_string_list \<times> nat) go" where
  "ExtractMUSMsgHeaderStringList data off =
     (if off + 4 > length data then Err ErrOther
      else nopanic (uint32_at data off) (\<lambda>w.
        let count = unat w
        in if count > (length data - off - 4) div 4 then Err ErrOther
           else go_bind (dec_many ExtractMUSMsgHeaderString count data (off + 4)) (\<lambda>(ss, total).
             Ok (\<lparr>Count = count, Strings = ss\<rparr>, 4 + total))))"

definition WriteBytesList :: "header_string_list \<Rightarrow> bytes" where
  "WriteBytesList m =
     put_uint32 (word_of_nat (length (Strings m))) @ concat (map WriteBytes (Strings m))"


section \<open>Messages\<close>

definition MUSHeader :: bytes where
  "MUSHeader = [0x72, 0x00]"

record mus_message =
  ContentSize :: "32 word"
  ErrCode :: "32 word"
  TimeStamp :: "32 word"
  Subject :: header_string
  SenderID :: header_string
  RecptID :: header_string_list
  RawContents :: bytes
  DecryptedContents :: bytes
  MsgContent :: "lvalue option"

text \<open>The header check and, for a packet without the header, its decryption.  Formatting the
  error text slices two bytes off what the cipher returned.\<close>

definition has_header :: "bytes \<Rightarrow> bool" where
  "has_header raw \<longleftrightarrow> take 2 raw = MUSHeader"

definition check_header :: "bytes \<Rightarrow> (bytes \<Rightarrow> bytes) option \<Rightarrow> bytes go" where
  "check_header rawmsg decrypt =
     (if has_header rawmsg then Ok rawmsg
      else case decrypt of
        None \<Rightarrow> nopanic (subslice rawmsg 0 2) (\<lambda>_. Err ErrOther)
      | Some d \<Rightarrow>
          (let raw = d rawmsg
           in if length raw < 14 \<or> \<not> has_header raw
              then nopanic (subslice raw 0 2) (\<lambda>_. Err ErrOther)
              else Ok raw))"

definition parse_content :: "mus_message \<Rightarrow> bytes \<Rightarrow> (bytes \<Rightarrow> bytes) option \<Rightarrow> nat \<Rightarrow> mus_message go" where
  "parse_content msg rawmsg decrypt readPtr =
     (if readPtr < length rawmsg
      then (let remaining = drop readPtr rawmsg;
                content = (case decrypt of
                    Some d \<Rightarrow> if Value (Subject msg) = ''Logon'' then d remaining else remaining
                  | None \<Rightarrow> remaining)
            in nopanic (FromRawBytes content 0) (\<lambda>v.
                 Ok (msg\<lparr>RawContents := remaining, DecryptedContents := content,
                         MsgContent := Some v\<rparr>)))
      else Ok msg)"

definition ParseMUSMessageWithDecryption ::
    "bytes \<Rightarrow> (bytes \<Rightarrow> bytes) option \<Rightarrow> mus_message go" where
  "ParseMUSMessageWithDecryption rawmsg0 decrypt =
     (if length rawmsg0 < 14 then Err ErrOther
      else go_bind (check_header rawmsg0 decrypt) (\<lambda>rawmsg.
        nopanic (uint32_at rawmsg 2) (\<lambda>size.
        if sint size < 0 \<or> int (length rawmsg) < 6 + sint size then Err ErrOther
        else
        nopanic (uint32_at rawmsg 6) (\<lambda>err.
        nopanic (uint32_at rawmsg 10) (\<lambda>ts.
        go_bind (ExtractMUSMsgHeaderString rawmsg 14) (\<lambda>(subject, c1).
        go_bind (ExtractMUSMsgHeaderString rawmsg (14 + c1)) (\<lambda>(sender, c2).
        go_bind (ExtractMUSMsgHeaderStringList rawmsg (14 + c1 + c2)) (\<lambda>(recpt, c3).
        parse_content
          \<lparr>ContentSize = size, ErrCode = err, TimeStamp = ts, Subject = subject,
           SenderID = sender, RecptID = recpt, RawContents = [], DecryptedContents = [],
           MsgContent = None\<rparr>
          rawmsg decrypt (14 + c1 + c2 + c3)))))))))"

definition ParseMUSMessage :: "bytes \<Rightarrow> mus_message go" where
  "ParseMUSMessage rawmsg = ParseMUSMessageWithDecryption rawmsg None"

text \<open>\<open>GetBytes\<close>: the header fields, then the content, behind the magic bytes and the size.\<close>

definition message_head :: "mus_message \<Rightarrow> bytes" where
  "message_head msg = put_uint32 (ErrCode msg) @ put_uint32 (TimeStamp msg) @
     WriteBytes (Subject msg) @ WriteBytes (SenderID msg) @ WriteBytesList (RecptID msg)"

definition envelope :: "bytes \<Rightarrow> bytes" where
  "envelope payload = MUSHeader @ put_uint32 (word_of_nat (length payload)) @ payload"

definition content_bytes :: "mus_message \<Rightarrow> bytes option" where
  "content_bytes msg = (case MsgContent msg of None \<Rightarrow> Some [] | Some v \<Rightarrow> GetBytes v)"

definition message_bytes :: "mus_message \<Rightarrow> bytes option" where
  "message_bytes msg = do { c \<leftarrow> content_bytes msg; Some (envelope (message_head msg @ c)) }"

section \<open>The parser never panics\<close>

lemma ExtractMUSMsgHeaderString_no_panic [simp]: "ExtractMUSMsgHeaderString data off \<noteq> Panic"
  by (auto simp: ExtractMUSMsgHeaderString_def Let_def)

lemma dec_many_no_panic: "(\<And>data off. dec data off \<noteq> Panic) \<Longrightarrow> dec_many dec n data off \<noteq> Panic"
  by (induction n arbitrary: off) (auto simp: split_beta)

lemma ExtractMUSMsgHeaderStringList_no_panic [simp]: "ExtractMUSMsgHeaderStringList data off \<noteq> Panic"
  by (auto simp: ExtractMUSMsgHeaderStringList_def Let_def split_beta dec_many_no_panic)

lemma parse_content_no_panic [simp]: "parse_content msg raw decrypt p \<noteq> Panic"
  using decoder_defined(1) by (auto simp: parse_content_def Let_def)

text \<open>What the parser needs of a cipher that decrypts for it.\<close>

locale length_cipher =
  fixes decrypt :: "bytes \<Rightarrow> bytes"
  assumes length_decrypt [simp]: "length (decrypt x) = length x"
begin

lemma check_header_no_panic: "14 \<le> length raw \<Longrightarrow> check_header raw (Some decrypt) \<noteq> Panic"
  by (auto simp: check_header_def Let_def)

lemma check_header_length: "check_header raw (Some decrypt) = Ok raw' \<Longrightarrow> length raw' = length raw"
  by (auto simp: check_header_def Let_def nopanic_eq_Ok_iff split: if_splits)

lemma parse_no_panic: "ParseMUSMessageWithDecryption raw (Some decrypt) \<noteq> Panic"
  using check_header_no_panic [of raw] check_header_length [of raw]
  by (auto simp: ParseMUSMessageWithDecryption_def split_beta split: if_splits)

end

lemma check_header_None_no_panic: "14 \<le> length raw \<Longrightarrow> check_header raw None \<noteq> Panic"
  by (auto simp: check_header_def)

lemma check_header_None_length: "check_header raw None = Ok raw' \<Longrightarrow> raw' = raw"
  by (auto simp: check_header_def nopanic_eq_Ok_iff split: if_splits)

lemma parse_plain_no_panic: "ParseMUSMessage raw \<noteq> Panic"
  using check_header_None_no_panic [of raw] check_header_None_length [of raw]
  by (auto simp: ParseMUSMessage_def ParseMUSMessageWithDecryption_def split_beta split: if_splits)

section \<open>Parsing what was encoded\<close>

text \<open>What a list decoder relies on in the decoder of its elements: \<open>dec\<close> reads \<open>enc x\<close> back
  anywhere in a buffer, as \<open>img x\<close>, and says how long it was.\<close>

locale wire_item =
  fixes enc :: "'a \<Rightarrow> bytes" and dec :: "bytes \<Rightarrow> nat \<Rightarrow> ('b \<times> nat) go"
    and ok :: "'a \<Rightarrow> bool" and img :: "'a \<Rightarrow> 'b"
  assumes dec_enc: "ok x \<Longrightarrow> dec (pre @ enc x @ suf) (length pre) = Ok (img x, length (enc x))"
begin

lemma dec_many_enc:
  "\<forall>x \<in> set xs. ok x \<Longrightarrow>
   dec_many dec (length xs) (pre @ concat (map enc xs) @ suf) (length pre) =
     Ok (map img xs, length (concat (map enc xs)))"
proof (induction xs arbitrary: pre)
  case (Cons x xs)
  from Cons.prems have "ok x" by simp
  then have "dec (pre @ enc x @ concat (map enc xs) @ suf) (length pre) = Ok (img x, length (enc x))"
    by (rule dec_enc)
  moreover from Cons have
    "dec_many dec (length xs) ((pre @ enc x) @ concat (map enc xs) @ suf) (length (pre @ enc x)) =
       Ok (map img xs, length (concat (map enc xs)))"
    by (intro Cons.IH) simp
  ultimately show ?case by simp
qed simp

end

text \<open>A header string that fits its 32-bit length, and the string the parser makes of it: its
  \<open>Length\<close> field is set to the length of the value.\<close>

definition string_ok :: "header_string \<Rightarrow> bool" where
  "string_ok s \<longleftrightarrow> length (Value s) < 2 ^ 32"

definition canon :: "header_string \<Rightarrow> header_string" where
  "canon s = s\<lparr>Length := length (Value s)\<rparr>"

lemma Value_canon [simp]: "Value (canon s) = Value s"
  by (simp add: canon_def)

lemma unat_word_of_nat_32: "n < 2 ^ 32 \<Longrightarrow> unat (word_of_nat n :: 32 word) = n"
  by (simp add: unat_of_nat take_bit_eq_mod)

interpretation hs: wire_item WriteBytes ExtractMUSMsgHeaderString string_ok canon
proof
  fix x :: header_string and pre suf :: bytes
  assume ok: "string_ok x"
  let ?n = "length (Value x)" and ?pad = "if odd (length (Value x)) then [0] else []"
  let ?data = "pre @ WriteBytes x @ suf"
  have "uint32_at ?data (length pre) = Some (word_of_nat ?n)"
    by (simp add: WriteBytes_def wire_simps)
  moreover have "subslice ?data (length pre + 4) (length pre + 4 + ?n) = Some (bts (Value x))"
    using subslice_append [of "pre @ put_uint32 (word_of_nat ?n)" "bts (Value x)" "?pad @ suf"]
    by (simp add: WriteBytes_def)
  moreover have "unat (word_of_nat ?n :: 32 word) = ?n"
    using ok unat_word_of_nat_32 by (simp add: string_ok_def)
  moreover have "length (WriteBytes x) = (if odd ?n then 4 + ?n + 1 else 4 + ?n)"
    by (simp add: WriteBytes_def)
  ultimately show "ExtractMUSMsgHeaderString ?data (length pre) = Ok (canon x, length (WriteBytes x))"
    by (simp add: ExtractMUSMsgHeaderString_def Let_def canon_def)
qed

definition list_ok :: "header_string_list \<Rightarrow> bool" where
  "list_ok m \<longleftrightarrow> length (Strings m) < 2 ^ 32 \<and> (\<forall>s \<in> set (Strings m). string_ok s)"

definition canon_list :: "header_string_list \<Rightarrow> header_string_list" where
  "canon_list m = \<lparr>Count = length (Strings m), Strings = map canon (Strings m)\<rparr>"

lemma length_concat_WriteBytes: "4 * length ss \<le> length (concat (map WriteBytes ss))"
  by (induction ss) (simp_all add: WriteBytes_def)

interpretation hsl: wire_item WriteBytesList ExtractMUSMsgHeaderStringList list_ok canon_list
proof
  fix m :: header_string_list and pre suf :: bytes
  assume ok: "list_ok m"
  let ?n = "length (Strings m)" and ?body = "concat (map WriteBytes (Strings m))"
  let ?data = "pre @ WriteBytesList m @ suf"
  have "uint32_at ?data (length pre) = Some (word_of_nat ?n)"
    by (simp add: WriteBytesList_def wire_simps)
  moreover have "dec_many ExtractMUSMsgHeaderString ?n ?data (length pre + 4) =
      Ok (map canon (Strings m), length ?body)"
    using hs.dec_many_enc [of "Strings m" "pre @ put_uint32 (word_of_nat ?n)" suf] ok
    by (simp add: WriteBytesList_def list_ok_def)
  moreover have "unat (word_of_nat ?n :: 32 word) = ?n"
    using ok unat_word_of_nat_32 by (simp add: list_ok_def)
  moreover have "?n \<le> (length ?data - length pre - 4) div 4"
    using length_concat_WriteBytes [of "Strings m"] by (simp add: WriteBytesList_def)
  ultimately show "ExtractMUSMsgHeaderStringList ?data (length pre) = Ok (canon_list m, length (WriteBytesList m))"
    by (simp add: ExtractMUSMsgHeaderStringList_def Let_def canon_list_def WriteBytesList_def)
qed

text \<open>The fields every message carries, and the message the parser starts from when it has read
  them from an envelope with a payload of \<open>n\<close> bytes.\<close>

definition head_ok :: "mus_message \<Rightarrow> bool" where
  "head_ok msg \<longleftrightarrow> string_ok (Subject msg) \<and> string_ok (SenderID msg) \<and> list_ok (RecptID msg)"

definition parsed_head :: "mus_message \<Rightarrow> nat \<Rightarrow> mus_message" where
  "parsed_head msg n =
     \<lparr>ContentSize = word_of_nat n, ErrCode = ErrCode msg, TimeStamp = TimeStamp msg,
      Subject = canon (Subject msg), SenderID = canon (SenderID msg),
      RecptID = canon_list (RecptID msg), RawContents = [], DecryptedContents = [],
      MsgContent = None\<rparr>"

lemma sint_word_of_nat_32: "n < 2 ^ 31 \<Longrightarrow> sint (word_of_nat n :: 32 word) = int n"
proof -
  assume n: "n < 2 ^ 31"
  then have "take_bit 32 n = n" by (intro take_bit_nat_eq_self) simp
  moreover from n have "signed_take_bit 31 (int n) = int n"
    by (simp add: signed_take_bit_int_eq_self_iff)
  ultimately show ?thesis by (simp add: sint_uint unsigned_of_nat)
qed

lemma length_MUSHeader [simp]: "length MUSHeader = 2"
  by (simp add: MUSHeader_def)

lemma has_header_envelope [simp]: "has_header (envelope p)"
  by (simp add: has_header_def envelope_def MUSHeader_def)

lemma length_envelope [simp]: "length (envelope p) = 6 + length p"
  by (simp add: envelope_def)

lemma parse_envelope:
  assumes ok: "head_ok msg" and small: "length (message_head msg @ c) < 2 ^ 31"
  shows "ParseMUSMessageWithDecryption (envelope (message_head msg @ c)) d =
    parse_content (parsed_head msg (length (message_head msg @ c)))
      (envelope (message_head msg @ c)) d (6 + length (message_head msg))"
proof -
  let ?n = "length (message_head msg @ c)" and ?raw = "envelope (message_head msg @ c)"
  let ?w = "put_uint32 (word_of_nat ?n)" and ?e = "put_uint32 (ErrCode msg)"
  let ?t = "put_uint32 (TimeStamp msg)" and ?su = "WriteBytes (Subject msg)"
  let ?se = "WriteBytes (SenderID msg)" and ?re = "WriteBytesList (RecptID msg)"
  have raw: "?raw = MUSHeader @ ?w @ ?e @ ?t @ ?su @ ?se @ ?re @ c"
    by (simp add: envelope_def message_head_def)
  have n: "14 + length ?su + length ?se + length ?re = 6 + length (message_head msg)"
    by (simp add: message_head_def)
  have "uint32_at ?raw 2 = Some (word_of_nat ?n)"
    unfolding raw using uint_at_put(2) [of MUSHeader "word_of_nat ?n" "?e @ ?t @ ?su @ ?se @ ?re @ c"] by simp
  moreover have "uint32_at ?raw 6 = Some (ErrCode msg)"
    unfolding raw using uint_at_put(2) [of "MUSHeader @ ?w" "ErrCode msg" "?t @ ?su @ ?se @ ?re @ c"] by simp
  moreover have "uint32_at ?raw 10 = Some (TimeStamp msg)"
    unfolding raw using uint_at_put(2) [of "MUSHeader @ ?w @ ?e" "TimeStamp msg" "?su @ ?se @ ?re @ c"] by simp
  moreover have "ExtractMUSMsgHeaderString ?raw 14 = Ok (canon (Subject msg), length ?su)"
    unfolding raw using hs.dec_enc [of "Subject msg" "MUSHeader @ ?w @ ?e @ ?t" "?se @ ?re @ c"] ok
    by (simp add: head_ok_def)
  moreover have "ExtractMUSMsgHeaderString ?raw (14 + length ?su) = Ok (canon (SenderID msg), length ?se)"
    unfolding raw using hs.dec_enc [of "SenderID msg" "MUSHeader @ ?w @ ?e @ ?t @ ?su" "?re @ c"] ok
    by (simp add: head_ok_def)
  moreover have "ExtractMUSMsgHeaderStringList ?raw (14 + length ?su + length ?se) =
      Ok (canon_list (RecptID msg), length ?re)"
    unfolding raw using hsl.dec_enc [of "RecptID msg" "MUSHeader @ ?w @ ?e @ ?t @ ?su @ ?se" c] ok
    by (simp add: head_ok_def add.assoc)
  moreover have "sint (word_of_nat ?n :: 32 word) = int ?n"
    using small by (rule sint_word_of_nat_32)
  moreover have "\<not> length ?raw < 14"
    by (simp add: message_head_def)
  moreover have "check_header ?raw d = Ok ?raw"
    by (simp add: check_header_def)
  ultimately show ?thesis
    by (simp add: ParseMUSMessageWithDecryption_def parsed_head_def n)
qed

text \<open>The content a receiver decodes: decrypted for a Logon when there is a cipher.\<close>

definition opened :: "(bytes \<Rightarrow> bytes) option \<Rightarrow> mus_message \<Rightarrow> bytes \<Rightarrow> bytes" where
  "opened d msg c = (case d of Some f \<Rightarrow> if Value (Subject msg) = ''Logon'' then f c else c | None \<Rightarrow> c)"

lemma parse_with_content:
  assumes "head_ok msg" and "length (message_head msg @ c) < 2 ^ 31" and "c \<noteq> []"
    and v: "FromRawBytes (opened d msg c) 0 = Some v"
  shows "ParseMUSMessageWithDecryption (envelope (message_head msg @ c)) d =
    Ok ((parsed_head msg (length (message_head msg @ c)))
      \<lparr>RawContents := c, DecryptedContents := opened d msg c, MsgContent := Some v\<rparr>)"
proof -
  have drop: "drop (6 + length (message_head msg)) (envelope (message_head msg @ c)) = c"
    by (simp add: envelope_def drop_append)
  have "Value (Subject (parsed_head msg n)) = Value (Subject msg)" for n
    by (simp add: parsed_head_def)
  with v show ?thesis
    unfolding parse_envelope [OF assms(1,2)] parse_content_def drop
    using \<open>c \<noteq> []\<close> by (cases d) (auto simp: opened_def Let_def)
qed

lemma parse_without_content:
  assumes "head_ok msg" and "length (message_head msg) < 2 ^ 31"
  shows "ParseMUSMessageWithDecryption (envelope (message_head msg)) d =
    Ok (parsed_head msg (length (message_head msg)))"
  using parse_envelope [of msg "[]" d] assms by (simp add: parse_content_def)

lemma FromRawBytes_GetBytes: "wire_ok v \<Longrightarrow> GetBytes v = Some b \<Longrightarrow> FromRawBytes b 0 = Some (decoded v) \<and> b \<noteq> []"
  using encode_decodes [of v] decodes_at(1) [of v b "[]" "[]"] by (auto simp: decodes_def)

text \<open>A cipher whose \<open>Decrypt\<close> undoes \<open>Encrypt\<close>: what a client that encrypts its Logon relies on.\<close>

locale stream_cipher = length_cipher +
  fixes encrypt :: "bytes \<Rightarrow> bytes"
  assumes decrypt_encrypt [simp]: "decrypt (encrypt x) = x"
begin

lemma length_encrypt [simp]: "length (encrypt x) = length x"
  by (metis decrypt_encrypt length_decrypt)

lemma parse_encrypted_logon:
  assumes "head_ok msg" and "Value (Subject msg) = ''Logon''"
    and "wire_ok v" and "GetBytes v = Some c" and "length (message_head msg @ c) < 2 ^ 31"
  shows "ParseMUSMessageWithDecryption (envelope (message_head msg @ encrypt c)) (Some decrypt) =
    Ok ((parsed_head msg (length (message_head msg @ c)))
      \<lparr>RawContents := encrypt c, DecryptedContents := c, MsgContent := Some (decoded v)\<rparr>)"
proof -
  have v: "FromRawBytes c 0 = Some (decoded v)" and "c \<noteq> []"
    using FromRawBytes_GetBytes [OF assms(3,4)] by auto
  then have "encrypt c \<noteq> []" by (metis length_encrypt length_0_conv)
  then show ?thesis
    using parse_with_content [of msg "encrypt c" "Some decrypt" "decoded v"] assms v
    by (simp add: opened_def)
qed

text \<open>The \<open>#All\<close> mode of the parser: a whole packet that was encrypted parses as the plain one.\<close>

lemma parse_encrypted_packet:
  assumes "\<not> has_header (encrypt raw)" and "14 \<le> length raw" and "has_header raw"
  shows "ParseMUSMessageWithDecryption (encrypt raw) (Some decrypt) =
    ParseMUSMessageWithDecryption raw (Some decrypt)"
proof -
  have "check_header (encrypt raw) (Some decrypt) = Ok raw" "check_header raw (Some decrypt) = Ok raw"
    using assms by (simp_all add: check_header_def Let_def)
  then show ?thesis by (simp add: ParseMUSMessageWithDecryption_def)
qed

end


section \<open>Properties\<close>

text \<open>C4.  A message whose strings fit their length prefixes and whose content the wire format can
  carry is parsed back from its own encoding: every header field is kept (the \<open>Length\<close> and \<open>Count\<close>
  fields are set from the data) and the content is what the value decoder makes of it.\<close>

theorem parse_message_bytes:
  assumes "head_ok msg" and "MsgContent msg = Some v" and "wire_ok v"
    and "message_bytes msg = Some b" and "length b < 2 ^ 31"
  shows "\<exists>c. GetBytes v = Some c \<and> b = envelope (message_head msg @ c) \<and>
    ParseMUSMessage b = Ok ((parsed_head msg (length b - 6))
      \<lparr>RawContents := c, DecryptedContents := c, MsgContent := Some (decoded v)\<rparr>)"
proof -
  from assms(2,4) obtain c where c: "GetBytes v = Some c" and b: "b = envelope (message_head msg @ c)"
    by (auto simp: message_bytes_def content_bytes_def bind_eq_Some_conv)
  from assms(5) b have small: "length (message_head msg @ c) < 2 ^ 31" by simp
  from FromRawBytes_GetBytes [OF assms(3) c]
  have v: "FromRawBytes (opened None msg c) 0 = Some (decoded v)" and "c \<noteq> []"
    by (simp_all add: opened_def)
  from parse_with_content [OF assms(1) small this(2,1)] c b show ?thesis
    by (simp add: ParseMUSMessage_def opened_def)
qed

theorem parse_message_bytes_witness:
  "\<exists>c. GetBytes (LInteger 7) = Some c \<and>
    ParseMUSMessage (envelope (message_head \<lparr>ContentSize = 0, ErrCode = 0, TimeStamp = 1,
        Subject = \<lparr>Length = 0, Value = ''Hi''\<rparr>, SenderID = \<lparr>Length = 0, Value = ''bob''\<rparr>,
        RecptID = \<lparr>Count = 0, Strings = [\<lparr>Length = 0, Value = ''System''\<rparr>]\<rparr>, RawContents = [],
        DecryptedContents = [], MsgContent = Some (LInteger 7)\<rparr> @ c)) =
    Ok \<lparr>ContentSize = 42, ErrCode = 0, TimeStamp = 1,
        Subject = \<lparr>Length = 2, Value = ''Hi''\<rparr>, SenderID = \<lparr>Length = 3, Value = ''bob''\<rparr>,
        RecptID = \<lparr>Count = 1, Strings = [\<lparr>Length = 6, Value = ''System''\<rparr>]\<rparr>, RawContents = c,
        DecryptedContents = c, MsgContent = Some (LInteger 7)\<rparr>"
proof -
  let ?m = "\<lparr>ContentSize = 0, ErrCode = 0, TimeStamp = 1,
        Subject = \<lparr>Length = 0, Value = ''Hi''\<rparr>, SenderID = \<lparr>Length = 0, Value = ''bob''\<rparr>,
        RecptID = \<lparr>Count = 0, Strings = [\<lparr>Length = 0, Value = ''System''\<rparr>]\<rparr>, RawContents = [],
        DecryptedContents = [], MsgContent = Some (LInteger 7)\<rparr> :: mus_message"
  have "head_ok ?m" by (simp add: head_ok_def string_ok_def list_ok_def)
  from parse_message_bytes [OF this, of "LInteger 7"] show ?thesis
    by (simp add: message_bytes_def content_bytes_def message_head_def WriteBytes_def WriteBytesList_def
        parsed_head_def canon_def canon_list_def decoded_def)
qed

end
