(* ===== verification/Frame.thy ===== *)
theory Frame
  imports Smus
begin

text \<open>
  Framing of the TCP byte stream, from \<open>internal/adapters/inbound/tcp_server.go\<close>: \<open>nextFrame\<close>
  and the read loop of \<open>handleConnection\<close>.  What the loop does with a frame is a parameter
  \<open>step\<close> here (the server's own step is in the theory of the server): it returns the new state,
  and whether the loop is left (\<open>break readLoop\<close>).  The reads of the socket are a list of chunks,
  as long as the \<open>Read\<close> calls happened to return.
\<close>


section \<open>One frame\<close>

definition musFrameHeaderLen :: nat where
  "musFrameHeaderLen = 6"

text \<open>The results of \<open>nextFrame\<close>: an error, \<open>ok = false\<close> with a nil error, or a frame and the rest.\<close>

datatype frame_result = FrameErr | FrameMore | FrameOk bytes bytes

definition nextFrame :: "bytes \<Rightarrow> int \<Rightarrow> frame_result" where
  "nextFrame buf maxSize =
     (if length buf < musFrameHeaderLen then FrameMore
      else if buf ! 0 \<noteq> MUSHeader ! 0 \<or> buf ! 1 \<noteq> MUSHeader ! 1 then FrameErr
      else case uint32_at buf 2 of
        None \<Rightarrow> FrameErr
      | Some w \<Rightarrow>
          (let total = musFrameHeaderLen + unat w
           in if maxSize > 0 \<and> int total > maxSize then FrameErr
              else if length buf < total then FrameMore
              else FrameOk (take total buf) (drop total buf)))"

lemma nextFrame_FrameOk:
  "nextFrame buf m = FrameOk f r \<Longrightarrow> buf = f @ r \<and> 6 \<le> length f \<and> length r < length buf"
  by (auto simp: nextFrame_def musFrameHeaderLen_def Let_def split: if_splits option.splits)


section \<open>The read loop\<close>

text \<open>The inner loop: handle every complete frame in the buffer.  The result is the state and the
  bytes left over, or \<^const>\<open>None\<close> for those when the connection is dropped.\<close>

function drain :: "int \<Rightarrow> (bytes \<Rightarrow> 's \<Rightarrow> 's \<times> bool) \<Rightarrow> bytes \<Rightarrow> 's \<Rightarrow> 's \<times> bytes option" where
  "drain maxSize step acc s =
     (case nextFrame acc maxSize of
        FrameErr \<Rightarrow> (s, None)
      | FrameMore \<Rightarrow> (s, Some acc)
      | FrameOk f rest \<Rightarrow>
          (let (s', stop) = step f s
           in if stop then (s', None) else drain maxSize step rest s'))"
  by pat_completeness auto
termination
  by (relation "measure (\<lambda>(m, step, acc, s). length acc)") (auto dest!: nextFrame_FrameOk)

declare drain.simps [simp del]

fun read_loop :: "int \<Rightarrow> (bytes \<Rightarrow> 's \<Rightarrow> 's \<times> bool) \<Rightarrow> bytes \<Rightarrow> bytes list \<Rightarrow> 's \<Rightarrow> 's \<times> bytes option" where
  "read_loop maxSize step acc [] s = (s, Some acc)"
| "read_loop maxSize step acc (chunk # chunks) s =
     (if chunk = [] then read_loop maxSize step acc chunks s
      else case drain maxSize step (acc @ chunk) s of
        (s', None) \<Rightarrow> (s', None)
      | (s', Some acc') \<Rightarrow> read_loop maxSize step acc' chunks s')"


section \<open>Chunks do not matter\<close>

lemma uint32_at_append_left: "off + 4 \<le> length a \<Longrightarrow> uint32_at (a @ b) off = uint32_at a off"
proof -
  assume "off + 4 \<le> length a"
  then obtain w x y z r where "drop off a = w # x # y # z # r"
    by (metis (no_types) le_add_diff_inverse length_drop uint32_eq_Some_iff uint32.elims
        add_le_imp_le_diff add.commute option.distinct(1))
  with \<open>off + 4 \<le> length a\<close> show ?thesis by (simp add: uint32_at_def)
qed

lemma nextFrame_append:
  "nextFrame a m = FrameOk f r \<Longrightarrow> nextFrame (a @ x) m = FrameOk f (r @ x)"
  "nextFrame a m = FrameErr \<Longrightarrow> nextFrame (a @ x) m = FrameErr"
  by (auto simp: nextFrame_def musFrameHeaderLen_def Let_def nth_append uint32_at_append_left
      split: if_splits option.splits)

lemma drain_append:
  "drain m step (acc @ x) s =
     (case drain m step acc s of (s', None) \<Rightarrow> (s', None) | (s', Some r) \<Rightarrow> drain m step (r @ x) s')"
proof (induction m step acc s rule: drain.induct)
  case (1 m step acc s)
  show ?case
  proof (cases "nextFrame acc m")
    case FrameErr
    then show ?thesis using nextFrame_append(2) [of acc m x] by (simp add: drain.simps)
  next
    case FrameMore
    then show ?thesis by (simp add: drain.simps [of m step acc s])
  next
    case (FrameOk f r)
    then show ?thesis
      using nextFrame_append(1) [of acc m f r x] "1.IH" [OF FrameOk]
      by (simp add: drain.simps [of m step acc s] drain.simps [of m step "acc @ x" s] split: prod.splits)
  qed
qed

lemma drain_rest: "drain m step acc s = (s', Some r) \<Longrightarrow> nextFrame r m = FrameMore"
proof (induction m step acc s rule: drain.induct)
  case (1 m step acc s)
  then show ?case
    by (subst (asm) (2) drain.simps) (auto split: frame_result.splits prod.splits if_splits)
qed

lemma read_loop_drain:
  "nextFrame acc m = FrameMore \<Longrightarrow>
   read_loop m step acc chunks s = drain m step (acc @ concat chunks) s"
proof (induction chunks arbitrary: acc s)
  case Nil
  then show ?case by (simp add: drain.simps)
next
  case (Cons c cs)
  show ?case
  proof (cases "drain m step (acc @ c) s")
    case (Pair s' r)
    show ?thesis
      using Cons Pair drain_append [of m step "acc @ c" "concat cs" s] drain_rest [of m step "acc @ c" s s']
      by (auto split: option.splits)
  qed
qed


section \<open>Frames of encoded messages\<close>

text \<open>The frames in order, until a step leaves the loop.\<close>

fun run_frames :: "(bytes \<Rightarrow> 's \<Rightarrow> 's \<times> bool) \<Rightarrow> bytes list \<Rightarrow> 's \<Rightarrow> 's \<times> bytes option" where
  "run_frames step [] s = (s, Some [])"
| "run_frames step (f # fs) s =
     (let (s', stop) = step f s in if stop then (s', None) else run_frames step fs s')"

definition payload_ok :: "int \<Rightarrow> bytes \<Rightarrow> bool" where
  "payload_ok m p \<longleftrightarrow> length p < 2 ^ 32 \<and> (m > 0 \<longrightarrow> 6 + int (length p) \<le> m)"

lemma nextFrame_envelope: "payload_ok m p \<Longrightarrow> nextFrame (envelope p @ x) m = FrameOk (envelope p) x"
proof -
  assume ok: "payload_ok m p"
  have "uint32_at (envelope p @ x) 2 = Some (word_of_nat (length p))"
    using uint_at_put(2) [of MUSHeader "word_of_nat (length p)" "p @ x"] by (simp add: envelope_def)
  moreover have "unat (word_of_nat (length p) :: 32 word) = length p"
    using ok unat_word_of_nat_32 by (simp add: payload_ok_def)
  moreover have "(envelope p @ x) ! 0 = MUSHeader ! 0" "(envelope p @ x) ! 1 = MUSHeader ! 1"
    by (simp_all add: envelope_def MUSHeader_def)
  ultimately show ?thesis
    using ok by (auto simp: nextFrame_def musFrameHeaderLen_def Let_def payload_ok_def)
qed

lemma drain_envelopes:
  "\<forall>p \<in> set ps. payload_ok m p \<Longrightarrow>
   drain m step (concat (map envelope ps)) s = run_frames step (map envelope ps) s"
proof (induction ps arbitrary: s)
  case Nil
  then show ?case by (simp add: drain.simps nextFrame_def musFrameHeaderLen_def)
next
  case (Cons p ps)
  then show ?case
    by (subst drain.simps) (simp add: nextFrame_envelope split: prod.splits)
qed

section \<open>Properties\<close>

lemma nextFrame_nil: "nextFrame [] m = FrameMore"
  by (simp add: nextFrame_def musFrameHeaderLen_def)

lemma nextFrame_more_length:
  assumes "nextFrame r m = FrameMore" and "0 < m"
  shows "int (length r) < max 6 m"
proof (cases "length r < 6")
  case False
  with assms obtain w where "int (6 + unat w) \<le> m" "length r < 6 + unat (w :: 32 word)"
    by (auto simp: nextFrame_def musFrameHeaderLen_def Let_def not_less split: if_splits option.splits)
  then show ?thesis by linarith
qed simp

lemma nextFrame_ok_length: "nextFrame buf m = FrameOk f r \<Longrightarrow> 0 < m \<Longrightarrow> int (length f) \<le> m"
  by (auto simp: nextFrame_def musFrameHeaderLen_def Let_def split: if_splits option.splits)

lemma drain_cong_max:
  "0 < m \<Longrightarrow> (\<And>f s. int (length f) \<le> m \<Longrightarrow> step f s = step' f s) \<Longrightarrow> drain m step acc s = drain m step' acc s"
proof (induction m step acc s rule: drain.induct)
  case (1 m step acc s)
  then show ?case
    using nextFrame_ok_length [of acc m]
    by (simp add: drain.simps [of m step acc s] drain.simps [of m step' acc s]
        split: frame_result.splits prod.splits)
qed

text \<open>C2.  What a connection does depends only on the bytes that arrive, not on how the reads cut
  them: the read loop over any sequence of chunks gives the state, the leftover bytes and the drop
  decision of one pass over the concatenated stream.\<close>

theorem read_loop_chunking:
  "read_loop m step [] chunks s = drain m step (concat chunks) s"
  using read_loop_drain [OF nextFrame_nil] by simp

text \<open>C3.  A stream of encoded messages, cut into reads anywhere, reaches the handler as exactly
  those messages in order, and leaves nothing over.\<close>

theorem read_loop_delivers_messages:
  assumes "\<forall>p \<in> set ps. payload_ok m p" and "concat chunks = concat (map envelope ps)"
  shows "read_loop m step [] chunks s = run_frames step (map envelope ps) s"
  using read_loop_drain [OF nextFrame_nil, of m step chunks s] drain_envelopes [OF assms(1)] assms(2)
  by simp

theorem read_loop_delivers_messages_witness:
  "read_loop 100 (\<lambda>f s. (s @ [f], False)) [] [[0x72], [0x00, 0, 0, 0, 1, 9, 0x72], [0, 0, 0, 0, 0]] [] =
     ([[0x72, 0x00, 0, 0, 0, 1, 9], [0x72, 0, 0, 0, 0, 0]], Some [])"
  using read_loop_delivers_messages
    [of "[[9], []]" 100 "[[0x72], [0x00, 0, 0, 0, 1, 9, 0x72], [0, 0, 0, 0, 0]]" "\<lambda>f s. (s @ [f], False)" "[]"]
  by (simp add: payload_ok_def envelope_def MUSHeader_def put_uint32_def)

text \<open>C8.  With a maximum message size \<open>m\<close> set, the bytes a connection buffers between reads stay
  below it (below the six header bytes for a smaller \<open>m\<close>), and no frame above it reaches the
  handler: changing what the handler does on larger frames changes nothing.\<close>

theorem read_loop_bounded:
  assumes "0 < m" and "read_loop m step [] chunks s = (s', Some r)"
  shows "int (length r) < max 6 m \<and>
    read_loop m (\<lambda>f s. if int (length f) \<le> m then step f s else step' f s) [] chunks s = (s', Some r)"
proof -
  let ?step' = "\<lambda>f s. if int (length f) \<le> m then step f s else step' f s"
  from assms(2) have d: "drain m step (concat chunks) s = (s', Some r)"
    using read_loop_drain [OF nextFrame_nil, of m step chunks s] by simp
  then have "int (length r) < max 6 m"
    using nextFrame_more_length [OF drain_rest [OF d] assms(1)] by simp
  moreover have "drain m step (concat chunks) s = drain m ?step' (concat chunks) s"
    using assms(1) by (intro drain_cong_max) auto
  ultimately show ?thesis
    using d read_loop_drain [OF nextFrame_nil, of m ?step' chunks s] by simp
qed

theorem read_loop_bounded_witness:
  "read_loop 8 (\<lambda>f s. if int (length f) \<le> 8 then (Suc s, False) else (0, True)) [] [[0x72, 0]] 0 =
     ((0 :: nat), Some [0x72, 0])"
proof -
  have "read_loop 8 (\<lambda>f s. (Suc s, False)) [] [[0x72, 0]] 0 = (0, Some [0x72, 0])"
    by (simp add: drain.simps nextFrame_def musFrameHeaderLen_def)
  from read_loop_bounded [OF _ this, of "\<lambda>f s. (0, True)"] show ?thesis by simp
qed

end
