(* ===== verification/Session.thy ===== *)
theory Session
  imports Lingo
begin

text \<open>
  The session store of \<open>internal/adapters/outbound/memory_session_store.go\<close>, the in-memory
  \<open>ports.SessionStore\<close>: live connections, the attributes of each client, and rooms indexed both
  ways.  None of its methods returns an error, so an operation is a function from store to store;
  the lock makes each one atomic.  \<open>time.Now()\<close> is the argument \<open>now\<close>.

  The abstract view is three maps: who is connected, what each attribute is, and one membership
  relation between rooms and clients, which both indices represent.  What the other components
  rely on is stated in the locales \<open>room_index\<close> and \<open>attr_store\<close>.
\<close>


section \<open>State\<close>

record connection_info =
  ClientID :: string
  IP :: string
  ConnectedAt :: int
  LastActivityAt :: int

record session_store =
  connections :: "connection_info gomap"
  attributes :: "lvalue gomap gomap"
  rooms :: "string list gomap"
  clientRooms :: "string list gomap"

definition NewMemorySessionStore :: session_store where
  "NewMemorySessionStore = \<lparr>connections = [], attributes = [], rooms = [], clientRooms = []\<rparr>"


section \<open>Operations\<close>

subsection \<open>Connections\<close>

definition RegisterConnection :: "string \<Rightarrow> string \<Rightarrow> int \<Rightarrow> session_store \<Rightarrow> session_store" where
  "RegisterConnection clientID ip now m =
     m\<lparr>connections := AList.update clientID
        \<lparr>ClientID = clientID, IP = ip, ConnectedAt = now, LastActivityAt = now\<rparr> (connections m)\<rparr>"

text \<open>Remove a client from one room; an empty room is deleted.\<close>

definition drop_member :: "string \<Rightarrow> string \<Rightarrow> string list gomap \<Rightarrow> string list gomap" where
  "drop_member clientID room rms =
     (case map_of rms room of
        None \<Rightarrow> rms
      | Some members \<Rightarrow>
          (let members' = removeAll clientID members
           in if members' = [] then AList.delete room rms else AList.update room members' rms))"

definition LeaveAllRooms :: "string \<Rightarrow> session_store \<Rightarrow> session_store" where
  "LeaveAllRooms clientID m =
     (case map_of (clientRooms m) clientID of
        None \<Rightarrow> m
      | Some rs \<Rightarrow> m\<lparr>rooms := fold (drop_member clientID) rs (rooms m),
                     clientRooms := AList.delete clientID (clientRooms m)\<rparr>)"

definition UnregisterConnection :: "string \<Rightarrow> session_store \<Rightarrow> session_store" where
  "UnregisterConnection clientID m =
     (let m1 = m\<lparr>connections := AList.delete clientID (connections m),
                 attributes := AList.delete clientID (attributes m)\<rparr>
      in case map_of (clientRooms m1) clientID of
           None \<Rightarrow> m1
         | Some rs \<Rightarrow> m1\<lparr>rooms := fold (drop_member clientID) rs (rooms m1),
                         clientRooms := AList.delete clientID (clientRooms m1)\<rparr>)"

definition GetConnection :: "session_store \<Rightarrow> string \<Rightarrow> connection_info option" where
  "GetConnection m clientID = map_of (connections m) clientID"

definition GetAllConnections :: "session_store \<Rightarrow> connection_info list" where
  "GetAllConnections m = map snd (connections m)"

definition UpdateLastActivity :: "string \<Rightarrow> int \<Rightarrow> session_store \<Rightarrow> session_store" where
  "UpdateLastActivity clientID now m =
     (case map_of (connections m) clientID of
        None \<Rightarrow> m
      | Some conn \<Rightarrow> m\<lparr>connections := AList.update clientID (conn\<lparr>LastActivityAt := now\<rparr>) (connections m)\<rparr>)"

definition IsConnected :: "session_store \<Rightarrow> string \<Rightarrow> bool" where
  "IsConnected m clientID = (map_of (connections m) clientID \<noteq> None)"


subsection \<open>Attributes\<close>

definition SetUserAttribute :: "string \<Rightarrow> string \<Rightarrow> lvalue \<Rightarrow> session_store \<Rightarrow> session_store" where
  "SetUserAttribute clientID attrName value m =
     (let attrs = (case map_of (attributes m) clientID of None \<Rightarrow> [] | Some a \<Rightarrow> a)
      in m\<lparr>attributes := AList.update clientID (AList.update attrName value attrs) (attributes m)\<rparr>)"

definition GetUserAttribute :: "session_store \<Rightarrow> string \<Rightarrow> string \<Rightarrow> lvalue" where
  "GetUserAttribute m clientID attrName =
     (case map_of (attributes m) clientID of
        None \<Rightarrow> LVoid
      | Some attrs \<Rightarrow> (case map_of attrs attrName of None \<Rightarrow> LVoid | Some v \<Rightarrow> v))"

definition GetUserAttributeNames :: "session_store \<Rightarrow> string \<Rightarrow> string list" where
  "GetUserAttributeNames m clientID =
     (case map_of (attributes m) clientID of None \<Rightarrow> [] | Some attrs \<Rightarrow> map fst attrs)"

definition DeleteUserAttribute :: "string \<Rightarrow> string \<Rightarrow> session_store \<Rightarrow> session_store" where
  "DeleteUserAttribute clientID attrName m =
     (case map_of (attributes m) clientID of
        None \<Rightarrow> m
      | Some attrs \<Rightarrow>
          m\<lparr>attributes := AList.update clientID (AList.delete attrName attrs) (attributes m)\<rparr>)"


subsection \<open>Rooms\<close>

text \<open>\<open>m[k][x] = struct{}{}\<close>, creating the inner set when it is missing.\<close>

definition set_add :: "string \<Rightarrow> string \<Rightarrow> string list gomap \<Rightarrow> string list gomap" where
  "set_add k x mp =
     AList.update k (List.insert x (case map_of mp k of None \<Rightarrow> [] | Some xs \<Rightarrow> xs)) mp"

definition JoinRoom :: "string \<Rightarrow> string \<Rightarrow> session_store \<Rightarrow> session_store" where
  "JoinRoom roomName clientID m =
     m\<lparr>rooms := set_add roomName clientID (rooms m),
       clientRooms := set_add clientID roomName (clientRooms m)\<rparr>"

definition LeaveRoom :: "string \<Rightarrow> string \<Rightarrow> session_store \<Rightarrow> session_store" where
  "LeaveRoom roomName clientID m =
     m\<lparr>rooms := drop_member clientID roomName (rooms m),
       clientRooms :=
         (case map_of (clientRooms m) clientID of
            None \<Rightarrow> clientRooms m
          | Some rs \<Rightarrow> AList.update clientID (removeAll roomName rs) (clientRooms m))\<rparr>"

definition GetRoomMembers :: "session_store \<Rightarrow> string \<Rightarrow> string list" where
  "GetRoomMembers m roomName = (case map_of (rooms m) roomName of None \<Rightarrow> [] | Some members \<Rightarrow> members)"

definition GetClientRooms :: "session_store \<Rightarrow> string \<Rightarrow> string list" where
  "GetClientRooms m clientID = (case map_of (clientRooms m) clientID of None \<Rightarrow> [] | Some rs \<Rightarrow> rs)"


section \<open>Invariant\<close>

text \<open>Maps have distinct keys, sets distinct elements; no room is empty; the two indices agree; and
  a connection is stored under its own id.\<close>

definition index_lookup :: "string list gomap \<Rightarrow> string \<Rightarrow> string list" where
  "index_lookup mp k = (case map_of mp k of None \<Rightarrow> [] | Some xs \<Rightarrow> xs)"

definition index_ok :: "string list gomap \<Rightarrow> bool" where
  "index_ok mp \<longleftrightarrow> gomap_ok mp \<and> (\<forall>k. distinct (index_lookup mp k))"

definition session_ok :: "session_store \<Rightarrow> bool" where
  "session_ok m \<longleftrightarrow>
     gomap_ok (connections m) \<and> gomap_ok (attributes m) \<and>
     (\<forall>c attrs. map_of (attributes m) c = Some attrs \<longrightarrow> gomap_ok attrs) \<and>
     index_ok (rooms m) \<and> index_ok (clientRooms m) \<and>
     (\<forall>r members. map_of (rooms m) r = Some members \<longrightarrow> members \<noteq> []) \<and>
     (\<forall>r c. c \<in> set (index_lookup (rooms m) r) \<longleftrightarrow> r \<in> set (index_lookup (clientRooms m) c)) \<and>
     (\<forall>c conn. map_of (connections m) c = Some conn \<longrightarrow> ClientID conn = c)"

section \<open>The set indices\<close>

lemma index_lookup_set_add [gomap_simps]:
  "index_lookup (set_add k x mp) k' =
     (if k' = k then List.insert x (index_lookup mp k) else index_lookup mp k')"
  by (simp add: index_lookup_def set_add_def gomap_simps)

lemma index_lookup_delete [gomap_simps]:
  "index_lookup (AList.delete k mp) k' = (if k' = k then [] else index_lookup mp k')"
  by (simp add: index_lookup_def gomap_simps)

lemma index_lookup_update [gomap_simps]:
  "index_lookup (AList.update k xs mp) k' = (if k' = k then xs else index_lookup mp k')"
  by (simp add: index_lookup_def gomap_simps)

lemma index_lookup_drop_member [gomap_simps]:
  "index_lookup (drop_member c r mp) r' =
     (if r' = r then removeAll c (index_lookup mp r) else index_lookup mp r')"
  by (simp add: index_lookup_def drop_member_def gomap_simps Let_def split: option.splits)

lemma index_lookup_fold_drop_member [gomap_simps]:
  "index_lookup (fold (drop_member c) rs mp) r =
     (if r \<in> set rs then removeAll c (index_lookup mp r) else index_lookup mp r)"
  by (induction rs arbitrary: mp) (auto simp: gomap_simps)

lemma index_ok_set_add [intro]: "index_ok mp \<Longrightarrow> index_ok (set_add k x mp)"
  unfolding index_ok_def index_lookup_set_add by (simp add: set_add_def)

lemma index_ok_drop_member [intro]: "index_ok mp \<Longrightarrow> index_ok (drop_member c r mp)"
  unfolding index_ok_def index_lookup_drop_member
  by (simp add: drop_member_def distinct_removeAll Let_def split: option.splits)

lemma index_ok_fold_drop_member [intro]: "index_ok mp \<Longrightarrow> index_ok (fold (drop_member c) rs mp)"
  by (induction rs arbitrary: mp) auto

lemma index_ok_delete [intro]: "index_ok mp \<Longrightarrow> index_ok (AList.delete k mp)"
  unfolding index_ok_def index_lookup_delete by simp

lemma index_ok_update [intro]: "index_ok mp \<Longrightarrow> distinct xs \<Longrightarrow> index_ok (AList.update k xs mp)"
  unfolding index_ok_def index_lookup_update by simp

definition no_empty :: "string list gomap \<Rightarrow> bool" where
  "no_empty mp \<longleftrightarrow> (\<forall>r members. map_of mp r = Some members \<longrightarrow> members \<noteq> [])"

lemma no_empty_set_add [intro]: "no_empty mp \<Longrightarrow> no_empty (set_add k x mp)"
  by (auto simp: no_empty_def set_add_def gomap_simps List.insert_def split: option.splits)

lemma no_empty_drop_member [intro]: "no_empty mp \<Longrightarrow> no_empty (drop_member c r mp)"
  by (auto simp: no_empty_def drop_member_def gomap_simps Let_def split: option.splits if_splits)

lemma no_empty_fold_drop_member [intro]: "no_empty mp \<Longrightarrow> no_empty (fold (drop_member c) rs mp)"
  by (induction rs arbitrary: mp) auto


section \<open>Every operation keeps the invariant\<close>

text \<open>The parts of the invariant, so that each operation only has to treat the fields it writes.\<close>

definition conns_ok :: "connection_info gomap \<Rightarrow> bool" where
  "conns_ok cs \<longleftrightarrow> gomap_ok cs \<and> (\<forall>c conn. map_of cs c = Some conn \<longrightarrow> ClientID conn = c)"

definition attrs_ok :: "lvalue gomap gomap \<Rightarrow> bool" where
  "attrs_ok as \<longleftrightarrow> gomap_ok as \<and> (\<forall>c attrs. map_of as c = Some attrs \<longrightarrow> gomap_ok attrs)"

definition rooms_ok :: "string list gomap \<Rightarrow> string list gomap \<Rightarrow> bool" where
  "rooms_ok rms crs \<longleftrightarrow> index_ok rms \<and> index_ok crs \<and> no_empty rms \<and>
     (\<forall>r c. c \<in> set (index_lookup rms r) \<longleftrightarrow> r \<in> set (index_lookup crs c))"

lemma session_ok_iff:
  "session_ok m \<longleftrightarrow> conns_ok (connections m) \<and> attrs_ok (attributes m) \<and> rooms_ok (rooms m) (clientRooms m)"
  by (auto simp: session_ok_def conns_ok_def attrs_ok_def rooms_ok_def no_empty_def)

lemma conns_ok_update [intro]: "conns_ok cs \<Longrightarrow> ClientID conn = c \<Longrightarrow> conns_ok (AList.update c conn cs)"
  by (auto simp: conns_ok_def gomap_simps)

lemma conns_ok_delete [intro]: "conns_ok cs \<Longrightarrow> conns_ok (AList.delete c cs)"
  by (auto simp: conns_ok_def gomap_simps)

lemma attrs_ok_update [intro]: "attrs_ok as \<Longrightarrow> gomap_ok attrs \<Longrightarrow> attrs_ok (AList.update c attrs as)"
  by (auto simp: attrs_ok_def gomap_simps)

lemma attrs_ok_delete [intro]: "attrs_ok as \<Longrightarrow> attrs_ok (AList.delete c as)"
  by (auto simp: attrs_ok_def gomap_simps)

lemma conns_okD: "conns_ok cs \<Longrightarrow> map_of cs c = Some conn \<Longrightarrow> ClientID conn = c"
  by (simp add: conns_ok_def)

lemma attrs_okD: "attrs_ok as \<Longrightarrow> map_of as c = Some attrs \<Longrightarrow> gomap_ok attrs"
  by (auto simp: attrs_ok_def)

lemma index_lookup_Some: "map_of mp k = Some xs \<Longrightarrow> index_lookup mp k = xs"
  by (simp add: index_lookup_def)

lemma index_lookup_None: "map_of mp k = None \<Longrightarrow> index_lookup mp k = []"
  by (simp add: index_lookup_def)

lemma rooms_ok_join: "rooms_ok rms crs \<Longrightarrow> rooms_ok (set_add r c rms) (set_add c r crs)"
  by (auto simp: rooms_ok_def gomap_simps)

lemma rooms_ok_leave_all:
  "rooms_ok rms crs \<Longrightarrow> map_of crs c = Some rs \<Longrightarrow>
   rooms_ok (fold (drop_member c) rs rms) (AList.delete c crs)"
  by (auto simp: rooms_ok_def gomap_simps dest: index_lookup_Some)

lemma rooms_ok_leave:
  assumes "rooms_ok rms crs" and "map_of crs c = Some rs"
  shows "rooms_ok (drop_member c r rms) (AList.update c (removeAll r rs) crs)"
proof -
  from assms have "distinct rs"
    using index_lookup_Some by (fastforce simp: rooms_ok_def index_ok_def)
  with assms show ?thesis
    by (auto simp: rooms_ok_def gomap_simps distinct_removeAll dest: index_lookup_Some)
qed

lemma rooms_ok_leave_None:
  "rooms_ok rms crs \<Longrightarrow> map_of crs c = None \<Longrightarrow> rooms_ok (drop_member c r rms) crs"
  by (auto simp: rooms_ok_def gomap_simps dest: index_lookup_None)

lemma session_ok_New [simp]: "session_ok NewMemorySessionStore"
  by (simp add: NewMemorySessionStore_def session_ok_def index_ok_def index_lookup_def)

lemma session_ok_Register [simp]: "session_ok m \<Longrightarrow> session_ok (RegisterConnection c ip now m)"
  by (auto simp: session_ok_iff RegisterConnection_def)

lemma session_ok_UpdateLastActivity [simp]: "session_ok m \<Longrightarrow> session_ok (UpdateLastActivity c now m)"
  by (auto simp: session_ok_iff UpdateLastActivity_def conns_okD split: option.splits)

lemma session_ok_SetUserAttribute [simp]: "session_ok m \<Longrightarrow> session_ok (SetUserAttribute c a v m)"
  by (auto simp: session_ok_iff SetUserAttribute_def Let_def dest: attrs_okD split: option.splits)

lemma session_ok_DeleteUserAttribute [simp]: "session_ok m \<Longrightarrow> session_ok (DeleteUserAttribute c a m)"
  by (auto simp: session_ok_iff DeleteUserAttribute_def dest: attrs_okD split: option.splits)

lemma session_ok_JoinRoom [simp]: "session_ok m \<Longrightarrow> session_ok (JoinRoom r c m)"
  by (simp add: session_ok_iff JoinRoom_def rooms_ok_join)

lemma session_ok_LeaveRoom [simp]: "session_ok m \<Longrightarrow> session_ok (LeaveRoom r c m)"
  by (auto simp: session_ok_iff LeaveRoom_def rooms_ok_leave rooms_ok_leave_None split: option.splits)

lemma session_ok_LeaveAllRooms [simp]: "session_ok m \<Longrightarrow> session_ok (LeaveAllRooms c m)"
  by (auto simp: session_ok_iff LeaveAllRooms_def rooms_ok_leave_all split: option.splits)

lemma session_ok_Unregister [simp]: "session_ok m \<Longrightarrow> session_ok (UnregisterConnection c m)"
  by (auto simp: session_ok_iff UnregisterConnection_def Let_def rooms_ok_leave_all split: option.splits)


section \<open>The interfaces\<close>

text \<open>What a client of the store relies on for rooms: one membership relation, seen from the room
  and from the client, and what each operation does to it.\<close>

locale room_index =
  fixes inv :: "'s \<Rightarrow> bool"
    and join :: "string \<Rightarrow> string \<Rightarrow> 's \<Rightarrow> 's"
    and leave :: "string \<Rightarrow> string \<Rightarrow> 's \<Rightarrow> 's"
    and leave_all :: "string \<Rightarrow> 's \<Rightarrow> 's"
    and members :: "'s \<Rightarrow> string \<Rightarrow> string list"
    and rooms_of :: "'s \<Rightarrow> string \<Rightarrow> string list"
  assumes symmetric: "inv s \<Longrightarrow> c \<in> set (members s r) \<longleftrightarrow> r \<in> set (rooms_of s c)"
    and inv_join: "inv s \<Longrightarrow> inv (join r c s)"
    and inv_leave: "inv s \<Longrightarrow> inv (leave r c s)"
    and inv_leave_all: "inv s \<Longrightarrow> inv (leave_all c s)"
    and members_join: "inv s \<Longrightarrow>
      set (members (join r c s) r') = (if r' = r then insert c (set (members s r)) else set (members s r'))"
    and members_leave: "inv s \<Longrightarrow>
      set (members (leave r c s) r') = (if r' = r then set (members s r) - {c} else set (members s r'))"
    and members_leave_all: "inv s \<Longrightarrow> set (members (leave_all c s) r) = set (members s r) - {c}"
begin

lemma rooms_of_join: "inv s \<Longrightarrow>
  set (rooms_of (join r c s) c') = (if c' = c then insert r (set (rooms_of s c)) else set (rooms_of s c'))"
  by (rule set_eqI) (simp add: symmetric [symmetric] inv_join members_join)

lemma rooms_of_leave: "inv s \<Longrightarrow>
  set (rooms_of (leave r c s) c') = (if c' = c then set (rooms_of s c) - {r} else set (rooms_of s c'))"
  by (rule set_eqI) (simp add: symmetric [symmetric] inv_leave members_leave)

lemma rooms_of_leave_all: "inv s \<Longrightarrow>
  set (rooms_of (leave_all c s) c') = (if c' = c then {} else set (rooms_of s c'))"
  by (rule set_eqI) (simp add: symmetric [symmetric] inv_leave_all members_leave_all)

text \<open>Leaving a list of rooms one after the other.\<close>

lemma inv_fold_leave: "inv s \<Longrightarrow> inv (fold (\<lambda>r. leave r c) rs s)"
  by (induction rs arbitrary: s) (simp_all add: inv_leave)

lemma members_fold_leave: "inv s \<Longrightarrow>
  set (members (fold (\<lambda>r. leave r c) rs s) r) =
    (if r \<in> set rs then set (members s r) - {c} else set (members s r))"
  by (induction rs arbitrary: s) (auto simp: inv_leave members_leave)

end

text \<open>What a client relies on for attributes; a missing attribute reads as \<open>LVoid\<close>.\<close>

locale attr_store =
  fixes set_attr :: "string \<Rightarrow> string \<Rightarrow> lvalue \<Rightarrow> 's \<Rightarrow> 's"
    and del_attr :: "string \<Rightarrow> string \<Rightarrow> 's \<Rightarrow> 's"
    and clear_attrs :: "string \<Rightarrow> 's \<Rightarrow> 's"
    and get_attr :: "'s \<Rightarrow> string \<Rightarrow> string \<Rightarrow> lvalue"
  assumes get_set: "get_attr (set_attr c a v s) c' a' = (if c' = c \<and> a' = a then v else get_attr s c' a')"
    and get_del: "get_attr (del_attr c a s) c' a' = (if c' = c \<and> a' = a then LVoid else get_attr s c' a')"
    and get_clear: "get_attr (clear_attrs c s) c' a' = (if c' = c then LVoid else get_attr s c' a')"
begin

lemma clear_then_set:
  "get_attr (set_attr c a v (clear_attrs d s)) c' a' =
     (if c' = c \<and> a' = a then v else if c' = d then LVoid else get_attr s c' a')"
  by (simp add: get_set get_clear)

end

lemma GetRoomMembers_index: "GetRoomMembers m r = index_lookup (rooms m) r"
  by (simp add: GetRoomMembers_def index_lookup_def)

lemma GetClientRooms_index: "GetClientRooms m c = index_lookup (clientRooms m) c"
  by (simp add: GetClientRooms_def index_lookup_def)

lemma rooms_LeaveAllRooms:
  assumes "session_ok m"
  shows "set (index_lookup (rooms (LeaveAllRooms c m)) r) = set (index_lookup (rooms m) r) - {c}"
proof (cases "map_of (clientRooms m) c")
  case None
  then have "c \<notin> set (index_lookup (rooms m) r)"
    using assms by (auto simp: session_ok_def index_lookup_None)
  with None show ?thesis by (simp add: LeaveAllRooms_def)
next
  case (Some rs)
  then have "c \<in> set (index_lookup (rooms m) r) \<longleftrightarrow> r \<in> set rs"
    using assms by (auto simp: session_ok_def index_lookup_Some)
  with Some show ?thesis by (simp add: LeaveAllRooms_def gomap_simps)
qed

interpretation ss: room_index session_ok JoinRoom LeaveRoom LeaveAllRooms GetRoomMembers GetClientRooms
proof
  fix m :: session_store and c r r' :: string
  assume m: "session_ok m"
  show "c \<in> set (GetRoomMembers m r) \<longleftrightarrow> r \<in> set (GetClientRooms m c)"
    using m by (simp add: session_ok_def GetRoomMembers_index GetClientRooms_index)
  show "set (GetRoomMembers (JoinRoom r c m) r') =
      (if r' = r then insert c (set (GetRoomMembers m r)) else set (GetRoomMembers m r'))"
    by (simp add: GetRoomMembers_index JoinRoom_def gomap_simps)
  show "set (GetRoomMembers (LeaveRoom r c m) r') =
      (if r' = r then set (GetRoomMembers m r) - {c} else set (GetRoomMembers m r'))"
    by (simp add: GetRoomMembers_index LeaveRoom_def gomap_simps)
  show "set (GetRoomMembers (LeaveAllRooms c m) r) = set (GetRoomMembers m r) - {c}"
    using rooms_LeaveAllRooms [OF m] by (simp add: GetRoomMembers_index)
qed simp_all

lemma GetUserAttribute_Unregister:
  "GetUserAttribute (UnregisterConnection c m) c' a = (if c' = c then LVoid else GetUserAttribute m c' a)"
  by (simp add: GetUserAttribute_def UnregisterConnection_def Let_def gomap_simps split: option.splits)

interpretation sa: attr_store SetUserAttribute DeleteUserAttribute UnregisterConnection GetUserAttribute
proof
  fix c c' a a' :: string and v :: lvalue and m :: session_store
  show "GetUserAttribute (SetUserAttribute c a v m) c' a' =
      (if c' = c \<and> a' = a then v else GetUserAttribute m c' a')"
    by (auto simp: GetUserAttribute_def SetUserAttribute_def Let_def gomap_simps split: option.splits)
  show "GetUserAttribute (DeleteUserAttribute c a m) c' a' =
      (if c' = c \<and> a' = a then LVoid else GetUserAttribute m c' a')"
    by (auto simp: GetUserAttribute_def DeleteUserAttribute_def gomap_simps split: option.splits)
qed (rule GetUserAttribute_Unregister)


section \<open>Refinement of the abstract session\<close>

record abs_session =
  a_conn :: "string \<Rightarrow> connection_info option"
  a_attr :: "string \<Rightarrow> string \<Rightarrow> lvalue option"
  a_member :: "(string \<times> string) set"

definition session_abs :: "session_store \<Rightarrow> abs_session" where
  "session_abs m =
     \<lparr>a_conn = GetConnection m,
      a_attr = (\<lambda>c a. Option.bind (map_of (attributes m) c) (\<lambda>attrs. map_of attrs a)),
      a_member = {(r, c). c \<in> set (GetRoomMembers m r)}\<rparr>"

text \<open>The operations that change the store, as data, so that a history is a list.\<close>

datatype session_op =
    Register string string int | Unregister string | Touch string int
  | SetAttr string string lvalue | DelAttr string string
  | Join string string | Leave string string | LeaveAll string

fun session_step :: "session_op \<Rightarrow> session_store \<Rightarrow> session_store" where
  "session_step (Register c ip now) m = RegisterConnection c ip now m"
| "session_step (Unregister c) m = UnregisterConnection c m"
| "session_step (Touch c now) m = UpdateLastActivity c now m"
| "session_step (SetAttr c a v) m = SetUserAttribute c a v m"
| "session_step (DelAttr c a) m = DeleteUserAttribute c a m"
| "session_step (Join r c) m = JoinRoom r c m"
| "session_step (Leave r c) m = LeaveRoom r c m"
| "session_step (LeaveAll c) m = LeaveAllRooms c m"

fun abs_step :: "session_op \<Rightarrow> abs_session \<Rightarrow> abs_session" where
  "abs_step (Register c ip now) a =
     a\<lparr>a_conn := (a_conn a)(c \<mapsto> \<lparr>ClientID = c, IP = ip, ConnectedAt = now, LastActivityAt = now\<rparr>)\<rparr>"
| "abs_step (Unregister c) a =
     a\<lparr>a_conn := (a_conn a)(c := None), a_attr := (a_attr a)(c := (\<lambda>_. None)),
       a_member := a_member a - UNIV \<times> {c}\<rparr>"
| "abs_step (Touch c now) a =
     a\<lparr>a_conn := (a_conn a)(c := map_option (LastActivityAt_update (\<lambda>_. now)) (a_conn a c))\<rparr>"
| "abs_step (SetAttr c n v) a = a\<lparr>a_attr := (a_attr a)(c := (a_attr a c)(n \<mapsto> v))\<rparr>"
| "abs_step (DelAttr c n) a = a\<lparr>a_attr := (a_attr a)(c := (a_attr a c)(n := None))\<rparr>"
| "abs_step (Join r c) a = a\<lparr>a_member := insert (r, c) (a_member a)\<rparr>"
| "abs_step (Leave r c) a = a\<lparr>a_member := a_member a - {(r, c)}\<rparr>"
| "abs_step (LeaveAll c) a = a\<lparr>a_member := a_member a - UNIV \<times> {c}\<rparr>"

lemma session_ok_step [simp]: "session_ok m \<Longrightarrow> session_ok (session_step op m)"
  by (cases op) simp_all

lemma session_ok_steps: "session_ok m \<Longrightarrow> session_ok (fold session_step ops m)"
  by (induction ops arbitrary: m) simp_all

lemma UnregisterConnection_alt:
  "UnregisterConnection c m =
     (LeaveAllRooms c m)\<lparr>connections := AList.delete c (connections m), attributes := AList.delete c (attributes m)\<rparr>"
  by (simp add: UnregisterConnection_def LeaveAllRooms_def Let_def split: option.splits)

lemma LeaveAllRooms_frame [simp]:
  "connections (LeaveAllRooms c m) = connections m" "attributes (LeaveAllRooms c m) = attributes m"
  by (simp_all add: LeaveAllRooms_def split: option.splits)

lemma GetRoomMembers_frame [simp]:
  "GetRoomMembers (m\<lparr>connections := cs\<rparr>) r = GetRoomMembers m r"
  "GetRoomMembers (m\<lparr>attributes := as\<rparr>) r = GetRoomMembers m r"
  by (simp_all add: GetRoomMembers_def)

lemma session_abs_step:
  assumes "session_ok m"
  shows "session_abs (session_step op m) = abs_step op (session_abs m)"
proof (cases op)
  case (Register c ip now)
  then show ?thesis
    by (auto simp: session_abs_def GetConnection_def RegisterConnection_def gomap_simps fun_eq_iff)
next
  case (Unregister c)
  then show ?thesis
    using ss.members_leave_all [OF assms, of c]
    by (auto simp: session_abs_def UnregisterConnection_alt GetConnection_def gomap_simps fun_eq_iff)
next
  case (Touch c now)
  then show ?thesis
    by (auto simp: session_abs_def GetConnection_def UpdateLastActivity_def gomap_simps fun_eq_iff
        split: option.splits)
next
  case (SetAttr c a v)
  then show ?thesis
    by (auto simp: session_abs_def GetConnection_def GetRoomMembers_def SetUserAttribute_def Let_def
        gomap_simps fun_eq_iff split: option.splits)
next
  case (DelAttr c a)
  then show ?thesis
    by (auto simp: session_abs_def GetConnection_def GetRoomMembers_def DeleteUserAttribute_def
        gomap_simps fun_eq_iff split: option.splits)
next
  case (Join r c)
  then show ?thesis
    using ss.members_join [OF assms, of r c]
    by (auto simp: session_abs_def GetConnection_def JoinRoom_def split: if_splits)
next
  case (Leave r c)
  then show ?thesis
    using ss.members_leave [OF assms, of r c]
    by (auto simp: session_abs_def GetConnection_def LeaveRoom_def split: if_splits)
next
  case (LeaveAll c)
  then show ?thesis
    using ss.members_leave_all [OF assms, of c]
    by (auto simp: session_abs_def GetConnection_def)
qed

lemma session_abs_steps:
  "session_ok m \<Longrightarrow> session_abs (fold session_step ops m) = fold abs_step ops (session_abs m)"
  by (induction ops arbitrary: m) (simp_all add: session_abs_step)


section \<open>Properties\<close>

text \<open>Whatever the history of the store: both room indices describe the same membership, a room
  without members does not exist, sets and maps have no duplicate entries, and every connection is
  stored under its own id.\<close>

theorem session_history_ok: "session_ok (fold session_step ops NewMemorySessionStore)"
  by (simp add: session_ok_steps)

text \<open>C15.  Whatever the history, the store implements the abstract session of three maps: connections,
  attributes and one membership relation.\<close>

theorem session_history_refines:
  "session_abs (fold session_step ops NewMemorySessionStore) =
     fold abs_step ops \<lparr>a_conn = (\<lambda>_. None), a_attr = (\<lambda>_ _. None), a_member = {}\<rparr>"
proof -
  have "session_abs NewMemorySessionStore = \<lparr>a_conn = (\<lambda>_. None), a_attr = (\<lambda>_ _. None), a_member = {}\<rparr>"
    by (simp add: session_abs_def NewMemorySessionStore_def GetConnection_def GetRoomMembers_def fun_eq_iff)
  then show ?thesis by (simp add: session_abs_steps)
qed

end
