(* ===== verification/ConnPool.thy ===== *)
theory ConnPool
  imports Prelude
begin

text \<open>
  The connection pool of \<open>internal/adapters/inbound/conn_pool.go\<close> and the part of Go's \<open>net.Conn\<close>
  it uses.  A connection is a number, its identity as a map key.  The network records what was
  written to which connection, which connections the server closed, and which fail on write
  because the peer is gone.  \<open>writeMu\<close> is the list of connections that have a write lock: the lock
  of a connection without one is a nil pointer, and locking it panics.
\<close>


section \<open>Connections\<close>

type_synonym conn = nat

record network =
  sent :: "(conn \<times> bytes) list"
  closed :: "conn list"
  failing :: "conn list"

definition conn_Write :: "conn \<Rightarrow> bytes \<Rightarrow> network \<Rightarrow> unit go \<times> network" where
  "conn_Write c data n =
     (if c \<in> set (closed n) \<or> c \<in> set (failing n) then (Err ErrOther, n)
      else (Ok (), n\<lparr>sent := sent n @ [(c, data)]\<rparr>))"

definition conn_Close :: "conn \<Rightarrow> network \<Rightarrow> unit go \<times> network" where
  "conn_Close c n =
     (if c \<in> set (closed n) then (Err ErrOther, n) else (Ok (), n\<lparr>closed := c # closed n\<rparr>))"


section \<open>The pool\<close>

record conn_pool =
  clients :: "conn gomap"
  connToID :: "(conn \<times> string) list"
  writeMu :: "conn list"

definition NewConnPool :: conn_pool where
  "NewConnPool = \<lparr>clients = [], connToID = [], writeMu = []\<rparr>"

definition Register :: "conn \<Rightarrow> string \<Rightarrow> conn_pool \<Rightarrow> conn_pool" where
  "Register c clientID p =
     p\<lparr>clients := AList.update clientID c (clients p),
       connToID := AList.update c clientID (connToID p),
       writeMu := List.insert c (writeMu p)\<rparr>"

text \<open>Reading a missing key of \<open>connToID\<close> gives the empty string.\<close>

definition CurrentID :: "conn_pool \<Rightarrow> conn \<Rightarrow> string" where
  "CurrentID p c = (case map_of (connToID p) c of None \<Rightarrow> [] | Some i \<Rightarrow> i)"

definition Unregister :: "conn \<Rightarrow> conn_pool \<Rightarrow> string \<times> conn_pool" where
  "Unregister c p =
     (let clientID = CurrentID p c
      in (clientID,
          p\<lparr>connToID := AList.delete c (connToID p),
            clients := AList.delete clientID (clients p),
            writeMu := removeAll c (writeMu p)\<rparr>))"

definition WriteToClient :: "string \<Rightarrow> bytes \<Rightarrow> conn_pool \<Rightarrow> network \<Rightarrow> unit go \<times> network" where
  "WriteToClient clientID data p n =
     (case map_of (clients p) clientID of
        None \<Rightarrow> (Err ErrOther, n)
      | Some c \<Rightarrow> if c \<in> set (writeMu p) then conn_Write c data n else (Panic, n))"

definition RemapClientID :: "string \<Rightarrow> string \<Rightarrow> conn_pool \<Rightarrow> bool \<times> conn_pool" where
  "RemapClientID oldID newID p =
     (case map_of (clients p) oldID of
        None \<Rightarrow> (False, p)
      | Some c \<Rightarrow>
          if (case map_of (clients p) newID of None \<Rightarrow> False | Some existing \<Rightarrow> existing \<noteq> c)
          then (False, p)
          else (True,
                p\<lparr>clients := AList.update newID c (AList.delete oldID (clients p)),
                  connToID := AList.update c newID (connToID p)\<rparr>))"

definition DisconnectClient :: "string \<Rightarrow> conn_pool \<Rightarrow> network \<Rightarrow> unit go \<times> network" where
  "DisconnectClient clientID p n =
     (case map_of (clients p) clientID of
        None \<Rightarrow> (Err ErrOther, n)
      | Some c \<Rightarrow> conn_Close c n)"

definition CloseAll :: "conn_pool \<Rightarrow> network \<Rightarrow> network" where
  "CloseAll p n = fold (\<lambda>c n. snd (conn_Close c n)) (map fst (connToID p)) n"


section \<open>Invariant\<close>

text \<open>The two maps are inverse to each other and every connection has a write lock.\<close>

definition pool_ok :: "conn_pool \<Rightarrow> bool" where
  "pool_ok p \<longleftrightarrow>
     gomap_ok (clients p) \<and> distinct (map fst (connToID p)) \<and>
     (\<forall>i c. map_of (clients p) i = Some c \<longleftrightarrow> map_of (connToID p) c = Some i) \<and>
     set (writeMu p) = dom (map_of (connToID p))"

lemma pool_ok_inverse: "pool_ok p \<Longrightarrow> map_of (clients p) i = Some c \<longleftrightarrow> map_of (connToID p) c = Some i"
  by (simp add: pool_ok_def)

lemma pool_ok_inj: "pool_ok p \<Longrightarrow> map_of (connToID p) c = Some i \<Longrightarrow> map_of (connToID p) d = Some i \<Longrightarrow> d = c"
  by (metis option.inject pool_ok_inverse)

lemma pool_ok_writeMu: "pool_ok p \<Longrightarrow> map_of (clients p) i = Some c \<Longrightarrow> c \<in> set (writeMu p)"
  by (auto simp: pool_ok_def)

lemma pool_ok_New [simp]: "pool_ok NewConnPool"
  by (simp add: NewConnPool_def pool_ok_def)

lemma map_of_conn_update [gomap_simps]: "map_of (AList.update c i (m :: (conn \<times> 'v) list)) x = (if x = c then Some i else map_of m x)"
  by (simp add: update_conv)

lemma map_of_conn_delete [gomap_simps]: "map_of (AList.delete c (m :: (conn \<times> 'v) list)) x = (if x = c then None else map_of m x)"
  by (simp add: delete_conv)

lemma dom_conn_maps [gomap_simps]:
  "dom (map_of (AList.update c i (m :: (conn \<times> 'v) list))) = insert c (dom (map_of m))"
  "dom (map_of (AList.delete c (m :: (conn \<times> 'v) list))) = dom (map_of m) - {c}"
  by (auto simp: gomap_simps split: if_splits)

lemma pool_okI:
  assumes "gomap_ok (clients p)" and "distinct (map fst (connToID p))"
    and "\<And>i c. map_of (clients p) i = Some c \<longleftrightarrow> map_of (connToID p) c = Some i"
    and "set (writeMu p) = dom (map_of (connToID p))"
  shows "pool_ok p"
  using assms by (simp add: pool_ok_def)

lemma pool_ok_parts:
  assumes "pool_ok p"
  shows "gomap_ok (clients p)" and "distinct (map fst (connToID p))"
    and "set (writeMu p) = dom (map_of (connToID p))"
  using assms by (simp_all add: pool_ok_def)

lemma pool_ok_Register:
  assumes "pool_ok p" and "map_of (clients p) i = None" and "map_of (connToID p) c = None"
  shows "pool_ok (Register c i p)"
proof -
  have "map_of (connToID p) x \<noteq> Some i" for x
    using assms by (metis option.distinct(1) pool_ok_inverse)
  moreover have "map_of (clients p) y \<noteq> Some c" for y
    using assms by (metis option.distinct(1) pool_ok_inverse)
  ultimately show ?thesis
    using assms by (auto simp: pool_ok_def Register_def gomap_simps distinct_update dom_def)
qed

lemma pool_ok_Unregister:
  assumes "pool_ok p" and "map_of (connToID p) c = Some i"
  shows "pool_ok (snd (Unregister c p))"
proof -
  have inv: "map_of (clients p) j = Some d \<longleftrightarrow> map_of (connToID p) d = Some j" for j d
    using assms(1) by (rule pool_ok_inverse)
  have key: "(if j = i then None else map_of (clients p) j) = Some d \<longleftrightarrow>
      (if d = c then None else map_of (connToID p) d) = Some j" for j d
    by (cases "j = i"; cases "d = c") (auto simp: inv assms(2) dest: pool_ok_inj [OF assms])
  show ?thesis
  proof (rule pool_okI)
    fix j d
    show "map_of (clients (snd (Unregister c p))) j = Some d \<longleftrightarrow>
        map_of (connToID (snd (Unregister c p))) d = Some j"
      using key [of j d] by (simp add: Unregister_def CurrentID_def Let_def gomap_simps assms(2))
  qed (simp_all add: Unregister_def Let_def gomap_simps distinct_delete pool_ok_parts [OF assms(1)])
qed

lemma pool_ok_Remap:
  assumes "pool_ok p"
  shows "pool_ok (snd (RemapClientID old new p))"
proof (cases "fst (RemapClientID old new p)")
  case False
  then show ?thesis using assms by (simp add: RemapClientID_def split: option.splits if_splits)
next
  case True
  have inv: "map_of (clients p) j = Some d \<longleftrightarrow> map_of (connToID p) d = Some j" for j d
    using assms(1) by (rule pool_ok_inverse)
  from True obtain c where c: "map_of (clients p) old = Some c"
    and new: "\<forall>d. map_of (clients p) new = Some d \<longrightarrow> d = c"
    and r: "snd (RemapClientID old new p) =
      p\<lparr>clients := AList.update new c (AList.delete old (clients p)),
        connToID := AList.update c new (connToID p)\<rparr>"
    by (auto simp: RemapClientID_def split: option.splits if_splits)
  have old: "map_of (connToID p) c = Some old" using inv c by simp
  have key: "(if i = new then Some c else if i = old then None else map_of (clients p) i) = Some d \<longleftrightarrow>
      (if d = c then Some new else map_of (connToID p) d) = Some i" for i d
    by (cases "i = new"; cases "i = old"; cases "d = c")
      (use new in \<open>auto simp: inv old dest: pool_ok_inj [OF assms old]\<close>)
  show ?thesis
    unfolding r
  proof (rule pool_okI)
    fix i d
    let ?p = "p\<lparr>clients := AList.update new c (AList.delete old (clients p)),
        connToID := AList.update c new (connToID p)\<rparr>"
    show "map_of (clients ?p) i = Some d \<longleftrightarrow> map_of (connToID ?p) d = Some i"
      using key [of i d] by (auto simp: gomap_simps split: if_splits)
  qed (use old in \<open>auto simp: gomap_simps distinct_update distinct_delete pool_ok_parts [OF assms]\<close>)
qed

text \<open>The histories the server makes: a connection registers once, under an id nobody holds.\<close>

inductive pool_reach :: "conn_pool \<Rightarrow> bool" where
  start: "pool_reach NewConnPool"
| register: "pool_reach p \<Longrightarrow> map_of (clients p) i = None \<Longrightarrow> map_of (connToID p) c = None \<Longrightarrow>
    pool_reach (Register c i p)"
| unregister: "pool_reach p \<Longrightarrow> map_of (connToID p) c = Some i \<Longrightarrow> pool_reach (snd (Unregister c p))"
| remap: "pool_reach p \<Longrightarrow> pool_reach (snd (RemapClientID old new p))"

lemma pool_reach_ok: "pool_reach p \<Longrightarrow> pool_ok p"
  by (induction rule: pool_reach.induct)
    (auto intro: pool_ok_Register pool_ok_Unregister pool_ok_Remap)


section \<open>Properties\<close>



text \<open>\<open>RemapClientID\<close> never takes an id from another connection: it refuses, changing nothing,
  when the old id is unknown or the new one belongs to a different connection; otherwise the
  connection of the old id is found under the new one and no other id is affected.\<close>

theorem RemapClientID_no_takeover:
  assumes "pool_ok p"
  shows "case RemapClientID old new p of
      (False, p') \<Rightarrow> p' = p \<and> (map_of (clients p) old = None \<or>
         (\<exists>c d. map_of (clients p) old = Some c \<and> map_of (clients p) new = Some d \<and> c \<noteq> d))
    | (True, p') \<Rightarrow> pool_ok p' \<and> (\<exists>c. map_of (clients p) old = Some c \<and> map_of (clients p') new = Some c \<and>
         CurrentID p' c = new) \<and> (old \<noteq> new \<longrightarrow> map_of (clients p') old = None) \<and>
         (\<forall>i. i \<noteq> old \<longrightarrow> i \<noteq> new \<longrightarrow> map_of (clients p') i = map_of (clients p) i)"
  using pool_ok_Remap [OF assms, of old new]
  by (auto simp: RemapClientID_def CurrentID_def gomap_simps split: option.splits if_splits)

theorem RemapClientID_no_takeover_witness:
  "fst (RemapClientID ''10.0.0.2:6000'' ''alice''
     (Register 8 ''10.0.0.2:6000'' (Register 7 ''alice'' NewConnPool))) = False"
proof -
  let ?p = "Register 8 ''10.0.0.2:6000'' (Register 7 ''alice'' NewConnPool)"
  have "pool_ok ?p"
    by (intro pool_ok_Register) (simp_all add: NewConnPool_def pool_ok_def Register_def)
  from RemapClientID_no_takeover [OF this, of "''10.0.0.2:6000''" "''alice''"] show ?thesis
    by (simp add: RemapClientID_def Register_def NewConnPool_def)
qed

text \<open>Registration has no such guard.  When a connection registers under an id that another one
  holds, which happens when a user logged on with a name that is the address of a later client, the
  first connection is cut off from its id: the id leads to the newcomer, and after the newcomer
  leaves, to nobody, while the first connection still counts as that id.\<close>

theorem Register_clobbers_taken_id:
  assumes "pool_ok p" and "map_of (clients p) i = Some c" and "d \<noteq> c" and "map_of (connToID p) d = None"
  shows "map_of (clients (Register d i p)) i = Some d \<and>
    map_of (clients (snd (Unregister d (Register d i p)))) i = None \<and>
    CurrentID (snd (Unregister d (Register d i p))) c = i"
  using assms
  by (auto simp: Register_def Unregister_def CurrentID_def Let_def gomap_simps pool_ok_inverse)

theorem Register_clobbers_taken_id_witness:
  "map_of (clients (snd (Unregister 9 (Register 9 ''10.0.0.3:7000''
      (Register 7 ''10.0.0.3:7000'' NewConnPool))))) ''10.0.0.3:7000'' = None"
proof -
  let ?p = "Register 7 ''10.0.0.3:7000'' NewConnPool"
  have "pool_ok ?p" "map_of (clients ?p) ''10.0.0.3:7000'' = Some 7" "map_of (connToID ?p) 9 = None"
    by (simp_all add: NewConnPool_def pool_ok_def Register_def)
  from Register_clobbers_taken_id [OF this(1,2) _ this(3)] show ?thesis by simp
qed

end
