(* ===== verification/Logon.thy ===== *)
theory Logon
  imports Session ConnPool
begin

text \<open>
  The domain services \<open>internal/domain/services/authorizer.go\<close> and \<open>logon_service.go\<close>: command
  permissions from the user level stamped into the session, and the logon use case in its four
  modes.  The database, \<open>bcrypt\<close> and the token store are parameters (fields of \<open>logon_service\<close>):
  a lookup returns \<^const>\<open>Inl\<close> for an error.  The state is a record that later theories extend.
\<close>


section \<open>Authorizer\<close>

definition defaultAdminLevel :: int where
  "defaultAdminLevel = 80"

definition UserLevelAttribute :: string where
  "UserLevelAttribute = ''#userLevel''"

text \<open>\<open>int(val.ToInteger())\<close>: the stored \<open>int32\<close>, widened.\<close>

definition UserLevel :: "session_store \<Rightarrow> string \<Rightarrow> int" where
  "UserLevel m userID = sint (ToInteger (GetUserAttribute m userID UserLevelAttribute))"

definition CanRun :: "int gomap \<Rightarrow> session_store \<Rightarrow> string \<Rightarrow> string \<Rightarrow> bool" where
  "CanRun commandLevels m senderID command =
     (case map_of commandLevels command of
        None \<Rightarrow> False
      | Some requiredLevel \<Rightarrow> UserLevel m senderID \<ge> requiredLevel)"

definition AdminLevel :: "int gomap \<Rightarrow> int" where
  "AdminLevel commandLevels =
     (case map_of commandLevels ''DBAdmin.createUser'' of Some lvl \<Rightarrow> lvl | None \<Rightarrow> defaultAdminLevel)"

definition OwnerOrAdmin :: "int gomap \<Rightarrow> session_store \<Rightarrow> string \<Rightarrow> string \<Rightarrow> bool" where
  "OwnerOrAdmin commandLevels m senderID targetUserID \<longleftrightarrow>
     targetUserID = senderID \<or> UserLevel m senderID \<ge> AdminLevel commandLevels"


section \<open>Logon requests and results\<close>

datatype logon_code = LogonOK | LogonBadCredentialsFormat | LogonInvalidUser | LogonInvalidPassword
  | LogonRefused | LogonInternalError

record logon_credentials =
  cr_MovieID :: string
  cr_UserID :: string
  cr_Password :: string

text \<open>\<open>ParseErr\<close> only reaches the log and is left out.\<close>

record logon_request =
  ConnectionID :: string
  rq_SenderID :: string
  Credentials :: "logon_credentials option"

record logon_result =
  Code :: logon_code
  rs_UserID :: string
  rs_UserLevel :: int
  rs_MovieID :: string

record user =
  user_ID :: int
  PasswordHash :: string
  user_Level :: int

record ban =
  ban_ID :: int
  Reason :: string

record token_payload =
  CharacterName :: string
  tk_UserLevel :: int
  AccountID :: int

text \<open>The collaborators and the policy: \<open>validate\<close> is the token store's \<open>Validate\<close>, \<^const>\<open>None\<close> when
  there is no store; \<open>has_writer\<close> is \<open>connWriter != nil\<close>.\<close>

record 'tk logon_service =
  db_GetUser :: "string \<Rightarrow> error + user"
  db_GetActiveBan :: "int \<Rightarrow> error + ban option"
  bcrypt_matches :: "string \<Rightarrow> string \<Rightarrow> bool"
  validate :: "(string \<Rightarrow> 'tk \<Rightarrow> (error + token_payload) \<times> 'tk) option"
  has_writer :: bool
  mode :: string
  defaultLevel :: int

record 'tk logon_state =
  sessions :: session_store
  pool :: conn_pool
  tokens :: 'tk


section \<open>The logon use case\<close>

definition validateCredentials :: "'tk logon_service \<Rightarrow> user \<Rightarrow> string \<Rightarrow> logon_code" where
  "validateCredentials s u password =
     (if \<not> bcrypt_matches s (PasswordHash u) password then LogonInvalidPassword
      else case db_GetActiveBan s (user_ID u) of
        Inr (Some b) \<Rightarrow> LogonRefused
      | _ \<Rightarrow> LogonOK)"

definition failed :: "logon_code \<Rightarrow> string \<Rightarrow> logon_result" where
  "failed code userID = \<lparr>Code = code, rs_UserID = userID, rs_UserLevel = 0, rs_MovieID = []\<rparr>"

text \<open>Re-registration under the user id: the IP of the first registration is kept.\<close>

definition client_ip :: "session_store \<Rightarrow> string \<Rightarrow> string" where
  "client_ip m connectionID =
     (case GetConnection m connectionID of
        Some existing \<Rightarrow> if IP existing \<noteq> [] then IP existing else connectionID
      | None \<Rightarrow> connectionID)"

definition establishSession :: "'tk logon_service \<Rightarrow> int \<Rightarrow> string \<Rightarrow> string \<Rightarrow> string \<Rightarrow> int \<Rightarrow>
    ('tk, 'z) logon_state_scheme \<Rightarrow> logon_result \<times> ('tk, 'z) logon_state_scheme" where
  "establishSession s now connectionID userID movieID userLevel st =
     (if userID \<noteq> connectionID \<and> GetConnection (sessions st) userID \<noteq> None
      then (failed LogonRefused userID, st)
      else
        let (ok, p) = (if has_writer s then RemapClientID connectionID userID (pool st) else (True, pool st))
        in if \<not> ok then (failed LogonRefused userID, st)
           else
             let ip = client_ip (sessions st) connectionID;
                 m1 = UnregisterConnection connectionID (sessions st);
                 m2 = RegisterConnection userID ip now m1;
                 m3 = SetUserAttribute userID UserLevelAttribute (LInteger (word_of_int userLevel)) m2
             in (\<lparr>Code = LogonOK, rs_UserID = userID, rs_UserLevel = userLevel, rs_MovieID = movieID\<rparr>,
                 st\<lparr>sessions := m3, pool := p\<rparr>))"

text \<open>The switch over the mode: the user id and level to establish, or the refusal; and the token
  store, from which \<open>Validate\<close> removes the token.\<close>

definition authenticate :: "'tk logon_service \<Rightarrow> string \<Rightarrow> string \<Rightarrow> 'tk \<Rightarrow>
    (logon_result + string \<times> int) \<times> 'tk" where
  "authenticate s userID password tk =
     (if mode s = ''none'' then (Inr (userID, defaultLevel s), tk)
      else if mode s = ''token'' then
        (case validate s of
           None \<Rightarrow> (Inl (failed LogonInternalError userID), tk)
         | Some v \<Rightarrow>
             (case v password tk of
                (Inl _, tk') \<Rightarrow> (Inl (failed LogonInvalidPassword userID), tk')
              | (Inr payload, tk') \<Rightarrow> (Inr (CharacterName payload, tk_UserLevel payload), tk')))
      else if mode s = ''strict'' then
        (case db_GetUser s userID of
           Inl _ \<Rightarrow> (Inl (failed LogonInvalidUser userID), tk)
         | Inr u \<Rightarrow>
             (let code = validateCredentials s u password
              in if code \<noteq> LogonOK then (Inl (failed code userID), tk)
                 else (Inr (userID, user_Level u), tk)))
      else
        (case db_GetUser s userID of
           Inl e \<Rightarrow>
             if e = ErrUserNotFound then (Inr (userID, defaultLevel s), tk)
             else (Inl (failed LogonInternalError userID), tk)
         | Inr u \<Rightarrow>
             (let code = validateCredentials s u password
              in if code \<noteq> LogonOK then (Inl (failed code userID), tk)
                 else (Inr (userID, user_Level u), tk))))"

definition Logon :: "'tk logon_service \<Rightarrow> int \<Rightarrow> logon_request \<Rightarrow>
    ('tk, 'z) logon_state_scheme \<Rightarrow> logon_result \<times> ('tk, 'z) logon_state_scheme" where
  "Logon s now req st =
     (case Credentials req of
        None \<Rightarrow>
          if mode s = ''strict'' \<or> mode s = ''token''
          then (failed LogonBadCredentialsFormat (rq_SenderID req), st)
          else
            (case authenticate s (rq_SenderID req) [] (tokens st) of
               (Inl r, tk) \<Rightarrow> (r, st\<lparr>tokens := tk\<rparr>)
             | (Inr (userID, level), tk) \<Rightarrow>
                 establishSession s now (ConnectionID req) userID [] level (st\<lparr>tokens := tk\<rparr>))
      | Some cr \<Rightarrow>
          (case authenticate s (cr_UserID cr) (cr_Password cr) (tokens st) of
             (Inl r, tk) \<Rightarrow> (r, st\<lparr>tokens := tk\<rparr>)
           | (Inr (userID, level), tk) \<Rightarrow>
               establishSession s now (ConnectionID req) userID (cr_MovieID cr) level (st\<lparr>tokens := tk\<rparr>)))"

section \<open>What a logon does\<close>

text \<open>The identity a request claims: the credentials, or the wire sender when there are none.\<close>

definition claimed_user :: "logon_request \<Rightarrow> string" where
  "claimed_user req = (case Credentials req of None \<Rightarrow> rq_SenderID req | Some cr \<Rightarrow> cr_UserID cr)"

definition claimed_password :: "logon_request \<Rightarrow> string" where
  "claimed_password req = (case Credentials req of None \<Rightarrow> [] | Some cr \<Rightarrow> cr_Password cr)"

definition claimed_movie :: "logon_request \<Rightarrow> string" where
  "claimed_movie req = (case Credentials req of None \<Rightarrow> [] | Some cr \<Rightarrow> cr_MovieID cr)"

lemmas claimed_defs = claimed_user_def claimed_password_def claimed_movie_def

lemma failed_simps [simp]:
  "Code (failed c u) = c" "rs_UserID (failed c u) = u"
  by (simp_all add: failed_def)

lemma authenticate_refused: "authenticate s u pw tk = (Inl r, tk') \<Longrightarrow> Code r \<noteq> LogonOK"
  by (auto simp: authenticate_def Let_def split: if_splits option.splits sum.splits prod.splits)

lemma Logon_unfold:
  "Logon s now req st =
     (if Credentials req = None \<and> (mode s = ''strict'' \<or> mode s = ''token'')
      then (failed LogonBadCredentialsFormat (rq_SenderID req), st)
      else
        (case authenticate s (claimed_user req) (claimed_password req) (tokens st) of
           (Inl r, tk) \<Rightarrow> (r, st\<lparr>tokens := tk\<rparr>)
         | (Inr (userID, level), tk) \<Rightarrow>
             establishSession s now (ConnectionID req) userID (claimed_movie req) level (st\<lparr>tokens := tk\<rparr>)))"
  by (cases "Credentials req")
    (simp_all add: Logon_def claimed_defs cong: prod.case_cong sum.case_cong)

lemma establishSession_refused:
  "establishSession s now c u mv l st = (r, st') \<Longrightarrow> Code r \<noteq> LogonOK \<Longrightarrow> st' = st \<and> r = failed LogonRefused u"
  by (auto simp: establishSession_def Let_def split: if_splits prod.splits)

text \<open>The session after a successful logon, and the pool.\<close>

definition logged_on :: "int \<Rightarrow> string \<Rightarrow> string \<Rightarrow> int \<Rightarrow> session_store \<Rightarrow> session_store" where
  "logged_on now connectionID userID level m =
     SetUserAttribute userID UserLevelAttribute (LInteger (word_of_int level))
       (RegisterConnection userID (client_ip m connectionID) now (UnregisterConnection connectionID m))"

lemma establishSession_OK:
  assumes "establishSession s now c u mv l st = (r, st')" and "Code r = LogonOK"
  shows "r = \<lparr>Code = LogonOK, rs_UserID = u, rs_UserLevel = l, rs_MovieID = mv\<rparr>"
    and "u = c \<or> GetConnection (sessions st) u = None"
    and "sessions st' = logged_on now c u l (sessions st)"
    and "has_writer s \<Longrightarrow> RemapClientID c u (pool st) = (True, pool st')"
    and "\<not> has_writer s \<Longrightarrow> pool st' = pool st"
  using assms by (auto simp: establishSession_def Let_def logged_on_def split: if_splits prod.splits)

lemma Logon_OK_cases:
  assumes "Logon s now req st = (r, st')" and "Code r = LogonOK"
  obtains u l tk where
    "authenticate s (claimed_user req) (claimed_password req) (tokens st) = (Inr (u, l), tk)"
    "establishSession s now (ConnectionID req) u (claimed_movie req) l (st\<lparr>tokens := tk\<rparr>) = (r, st')"
    "Credentials req = None \<Longrightarrow> mode s \<noteq> ''strict'' \<and> mode s \<noteq> ''token''"
  using assms
  by (auto simp: Logon_unfold split: if_splits prod.splits sum.splits dest: authenticate_refused)

lemma RemapClientID_True:
  assumes "RemapClientID old new p = (True, p')"
  shows "\<exists>c. map_of (clients p) old = Some c \<and> map_of (clients p') new = Some c"
    and "x \<noteq> new \<Longrightarrow> x \<noteq> old \<Longrightarrow> map_of (clients p') x = map_of (clients p) x"
  using assms by (auto simp: RemapClientID_def gomap_simps split: option.splits if_splits)

lemma GetConnection_simps [simp]:
  "GetConnection (SetUserAttribute c a v m) u = GetConnection m u"
  "GetConnection (RegisterConnection c ip now m) u =
     (if u = c then Some \<lparr>ClientID = c, IP = ip, ConnectedAt = now, LastActivityAt = now\<rparr> else GetConnection m u)"
  "GetConnection (UnregisterConnection c m) u = (if u = c then None else GetConnection m u)"
  by (auto simp: GetConnection_def SetUserAttribute_def RegisterConnection_def UnregisterConnection_alt
      Let_def gomap_simps)

lemma GetUserAttribute_Register [simp]:
  "GetUserAttribute (RegisterConnection c ip now m) u a = GetUserAttribute m u a"
  by (simp add: GetUserAttribute_def RegisterConnection_def)

lemma GetRoomMembers_simps [simp]:
  "GetRoomMembers (SetUserAttribute c a v m) r = GetRoomMembers m r"
  "GetRoomMembers (RegisterConnection c ip now m) r = GetRoomMembers m r"
  "GetRoomMembers (UnregisterConnection c m) r = GetRoomMembers (LeaveAllRooms c m) r"
  by (simp_all add: SetUserAttribute_def RegisterConnection_def UnregisterConnection_alt Let_def GetRoomMembers_def)

lemma logged_on_attribute:
  "GetUserAttribute (logged_on now c u l m) x a =
     (if x = u \<and> a = UserLevelAttribute then LInteger (word_of_int l)
      else if x = c then LVoid else GetUserAttribute m x a)"
  by (simp add: logged_on_def sa.get_set sa.get_clear)

lemma logged_on_connection:
  "GetConnection (logged_on now c u l m) x =
     (if x = u then Some \<lparr>ClientID = u, IP = client_ip m c, ConnectedAt = now, LastActivityAt = now\<rparr>
      else if x = c then None else GetConnection m x)"
  by (simp add: logged_on_def)

lemma logged_on_UserLevel:
  "UserLevel (logged_on now c u l m) x =
     (if x = u then sint (word_of_int l :: 32 word) else if x = c then 0 else UserLevel m x)"
  by (simp add: UserLevel_def logged_on_attribute)

lemma logged_on_members:
  "session_ok m \<Longrightarrow> set (GetRoomMembers (logged_on now c u l m) r) = set (GetRoomMembers m r) - {c}"
  by (simp add: logged_on_def ss.members_leave_all)

lemma session_ok_logged_on: "session_ok m \<Longrightarrow> session_ok (logged_on now c u l m)"
  by (simp add: logged_on_def)


section \<open>Properties\<close>

text \<open>C19.  A logon that is not accepted leaves the sessions and the pool as they were; only the token
  store may have changed, since a token is consumed when it is read.\<close>

theorem Logon_failure_changes_nothing:
  assumes "Logon s now req st = (r, st')" and "Code r \<noteq> LogonOK"
  shows "st' = st\<lparr>tokens := tokens st'\<rparr>"
  using assms establishSession_refused
  by (fastforce simp: Logon_unfold split: if_splits prod.splits sum.splits)

text \<open>C17.  An accepted logon registers the user with the address of the connection and the level as an
  \<open>int32\<close>, moves the connection to the user id, and touches nobody else: the user had no live session,
  the transient id is gone, and every other client keeps its connection, attributes, level, id and rooms.\<close>

theorem Logon_success_establishes:
  assumes "session_ok (sessions st)" and "Logon s now req st = (r, st')" and "Code r = LogonOK"
  shows "session_ok (sessions st') \<and>
    (\<exists>info. GetConnection (sessions st') (rs_UserID r) = Some info \<and>
        IP info = client_ip (sessions st) (ConnectionID req)) \<and>
    UserLevel (sessions st') (rs_UserID r) = sint (word_of_int (rs_UserLevel r) :: 32 word) \<and>
    (rs_UserID r \<noteq> ConnectionID req \<longrightarrow> GetConnection (sessions st) (rs_UserID r) = None \<and>
        GetConnection (sessions st') (ConnectionID req) = None) \<and>
    (has_writer s \<longrightarrow> (\<exists>c. map_of (clients (pool st)) (ConnectionID req) = Some c \<and>
        map_of (clients (pool st')) (rs_UserID r) = Some c)) \<and>
    (\<forall>u. u \<noteq> rs_UserID r \<longrightarrow> u \<noteq> ConnectionID req \<longrightarrow>
        GetConnection (sessions st') u = GetConnection (sessions st) u \<and>
        (\<forall>a. GetUserAttribute (sessions st') u a = GetUserAttribute (sessions st) u a) \<and>
        map_of (clients (pool st')) u = map_of (clients (pool st)) u \<and>
        (\<forall>room. u \<in> set (GetRoomMembers (sessions st') room) \<longleftrightarrow> u \<in> set (GetRoomMembers (sessions st) room)))"
proof -
  obtain u l tk where
    "establishSession s now (ConnectionID req) u (claimed_movie req) l (st\<lparr>tokens := tk\<rparr>) = (r, st')"
    by (rule Logon_OK_cases [OF assms(2,3)])
  note est = establishSession_OK [OF this assms(3)]
  have r: "rs_UserID r = u" "rs_UserLevel r = l" and m: "sessions st' = logged_on now (ConnectionID req) u l (sessions st)"
    using est(1,3) by simp_all
  have p: "has_writer s \<Longrightarrow> \<exists>c. map_of (clients (pool st)) (ConnectionID req) = Some c \<and>
      map_of (clients (pool st')) u = Some c"
    using RemapClientID_True [OF est(4)] by simp
  have q: "map_of (clients (pool st')) x = map_of (clients (pool st)) x"
    if "x \<noteq> u" "x \<noteq> ConnectionID req" for x
    using that RemapClientID_True(2) [OF est(4)] est(5) by (cases "has_writer s") simp_all
  show ?thesis
    unfolding r m using est(2) p q assms(1)
    by (auto simp: session_ok_logged_on logged_on_connection logged_on_UserLevel logged_on_attribute
        logged_on_members)
qed


text \<open>After an accepted logon the user may run exactly the commands whose configured level the
  stamped level reaches, nothing that is not configured; and no other client gains or loses a command.\<close>

theorem CanRun_after_Logon:
  assumes "Logon s now req st = (r, st')" and "Code r = LogonOK"
  shows "(CanRun levels (sessions st') (rs_UserID r) command \<longleftrightarrow>
      (\<exists>q. map_of levels command = Some q \<and> q \<le> sint (word_of_int (rs_UserLevel r) :: 32 word))) \<and>
    (\<forall>u. u \<noteq> rs_UserID r \<longrightarrow> u \<noteq> ConnectionID req \<longrightarrow>
      CanRun levels (sessions st') u command = CanRun levels (sessions st) u command)"
proof -
  obtain u l tk where
    "establishSession s now (ConnectionID req) u (claimed_movie req) l (st\<lparr>tokens := tk\<rparr>) = (r, st')"
    by (rule Logon_OK_cases [OF assms])
  note est = establishSession_OK [OF this assms(2)]
  have "rs_UserID r = u" "rs_UserLevel r = l" "sessions st' = logged_on now (ConnectionID req) u l (sessions st)"
    using est(1,3) by simp_all
  then show ?thesis
    by (auto simp: CanRun_def logged_on_UserLevel split: option.splits)
qed

section \<open>An example\<close>

text \<open>A strict server with the account alice, and one connection that has not logged on.\<close>

definition example_service :: "unit logon_service" where
  "example_service =
     \<lparr>db_GetUser = (\<lambda>u. if u = ''alice'' then Inr \<lparr>user_ID = 1, PasswordHash = ''hash'', user_Level = 40\<rparr>
                         else Inl ErrUserNotFound),
      db_GetActiveBan = (\<lambda>_. Inl ErrBanNotFound),
      bcrypt_matches = (\<lambda>h p. h = ''hash'' \<and> p = ''secret''),
      validate = None, has_writer = True, mode = ''strict'', defaultLevel = 20\<rparr>"

definition example_state :: "unit logon_state" where
  "example_state =
     \<lparr>sessions = RegisterConnection ''10.0.0.1:5000'' ''10.0.0.1:5000'' 1 NewMemorySessionStore,
      pool = Register 7 ''10.0.0.1:5000'' NewConnPool, tokens = ()\<rparr>"

definition example_request :: "string \<Rightarrow> logon_request" where
  "example_request pw =
     \<lparr>ConnectionID = ''10.0.0.1:5000'', rq_SenderID = '''',
      Credentials = Some \<lparr>cr_MovieID = ''farm'', cr_UserID = ''alice'', cr_Password = pw\<rparr>\<rparr>"

lemmas example_defs = example_service_def example_state_def example_request_def NewConnPool_def
  NewMemorySessionStore_def

lemma example_accepted:
  "Code (fst (Logon example_service 2 (example_request ''secret'') example_state)) = LogonOK"
  by (simp add: Logon_unfold claimed_defs authenticate_def validateCredentials_def establishSession_def
      example_defs Register_def RegisterConnection_def GetConnection_def RemapClientID_def Let_def)

lemma example_rejected:
  "Code (fst (Logon example_service 2 (example_request ''guess'') example_state)) = LogonInvalidPassword"
  by (simp add: Logon_unfold claimed_defs authenticate_def validateCredentials_def example_defs)

lemma example_result:
  "rs_UserID (fst (Logon example_service 2 (example_request ''secret'') example_state)) = ''alice''"
  "rs_UserLevel (fst (Logon example_service 2 (example_request ''secret'') example_state)) = 40"
  by (simp_all add: Logon_unfold claimed_defs authenticate_def validateCredentials_def establishSession_def
      example_defs Register_def RegisterConnection_def GetConnection_def RemapClientID_def Let_def)

theorem Logon_failure_changes_nothing_witness:
  "snd (Logon example_service 2 (example_request ''guess'') example_state) = example_state"
  using Logon_failure_changes_nothing
    [of example_service 2 "example_request ''guess''" example_state
      "fst (Logon example_service 2 (example_request ''guess'') example_state)"
      "snd (Logon example_service 2 (example_request ''guess'') example_state)"]
  by (simp add: example_rejected)

theorem Logon_success_establishes_witness:
  "UserLevel (sessions (snd (Logon example_service 2 (example_request ''secret'') example_state))) ''alice'' = 40 \<and>
   GetConnection (sessions (snd (Logon example_service 2 (example_request ''secret'') example_state)))
     ''10.0.0.1:5000'' = None"
proof -
  have "session_ok (sessions example_state)"
    by (simp add: example_state_def)
  from Logon_success_establishes [OF this prod.collapse [symmetric] example_accepted] show ?thesis
    by (simp add: example_result) (simp add: example_request_def)
qed


theorem CanRun_after_Logon_witness:
  "CanRun [(''DBPlayer.getAttribute'', 20)]
     (sessions (snd (Logon example_service 2 (example_request ''secret'') example_state))) ''alice''
     ''DBPlayer.getAttribute'' \<and>
   \<not> CanRun [(''DBPlayer.getAttribute'', 20)]
     (sessions (snd (Logon example_service 2 (example_request ''secret'') example_state))) ''alice'' ''DBAdmin.ban''"
  using CanRun_after_Logon [OF prod.collapse [symmetric] example_accepted, of "[(''DBPlayer.getAttribute'', 20)]"]
  by (simp add: example_result)

end
