(* ===== verification/Movie.thy ===== *)
theory Movie
  imports Smus Logon
begin

text \<open>
  Movies, groups and message delivery, from \<open>internal/adapters/inbound/mus\<close>: \<open>movie.go\<close>, \<open>group.go\<close>,
  \<open>response.go\<close> and \<open>sender.go\<close>.  Membership lives in the rooms of the session store: the room
  \<open>movie:M\<close> for a movie and the room \<open>M:G\<close> for a group of it.  The state extends the one of the logon
  service by the movies and the network.  The session store returns no errors, so the branches that
  pass one on are not reachable and are left out.
\<close>


section \<open>Groups and movies\<close>

record group =
  g_Name :: string
  g_movieID :: string
  persistent :: bool
  g_attributes :: "lvalue gomap"

definition NewGroup :: "string \<Rightarrow> string \<Rightarrow> bool \<Rightarrow> group" where
  "NewGroup name movieID pers = \<lparr>g_Name = name, g_movieID = movieID, persistent = pers, g_attributes = []\<rparr>"

definition GetAttribute :: "group \<Rightarrow> string \<Rightarrow> lvalue" where
  "GetAttribute g name = (case map_of (g_attributes g) name of Some v \<Rightarrow> v | None \<Rightarrow> LVoid)"

definition SetAttribute :: "string \<Rightarrow> lvalue \<Rightarrow> group \<Rightarrow> group" where
  "SetAttribute name value g = g\<lparr>g_attributes := AList.update name value (g_attributes g)\<rparr>"

definition DeleteAttribute :: "string \<Rightarrow> group \<Rightarrow> group" where
  "DeleteAttribute name g = g\<lparr>g_attributes := AList.delete name (g_attributes g)\<rparr>"

definition GetAttributeNames :: "group \<Rightarrow> string list" where
  "GetAttributeNames g = map fst (g_attributes g)"

record movie =
  m_Name :: string
  groups :: "group gomap"

definition newMovie :: "string \<Rightarrow> movie" where
  "newMovie name = \<lparr>m_Name = name, groups = []\<rparr>"

definition AddGroup :: "string \<Rightarrow> group \<Rightarrow> movie \<Rightarrow> movie" where
  "AddGroup name g m = m\<lparr>groups := AList.update name g (groups m)\<rparr>"

definition RemoveGroup :: "string \<Rightarrow> movie \<Rightarrow> movie" where
  "RemoveGroup name m = m\<lparr>groups := AList.delete name (groups m)\<rparr>"

definition GetGroup :: "movie \<Rightarrow> string \<Rightarrow> group option" where
  "GetGroup m name = map_of (groups m) name"

definition GetGroupNames :: "movie \<Rightarrow> string list" where
  "GetGroupNames m = map fst (groups m)"

definition GetGroupCount :: "movie \<Rightarrow> nat" where
  "GetGroupCount m = length (groups m)"

definition movieRoomName :: "string \<Rightarrow> string" where
  "movieRoomName movieID = ''movie:'' @ movieID"

definition groupRoomName :: "string \<Rightarrow> string \<Rightarrow> string" where
  "groupRoomName movieID groupName = movieID @ '':'' @ groupName"

record 'tk mus_state = "'tk logon_state" +
  movies :: "movie gomap"
  net :: network

definition AllUsers :: string where
  "AllUsers = ''@AllUsers''"


subsection \<open>The movie manager\<close>

definition GetMovie :: "('tk, 'z) mus_state_scheme \<Rightarrow> string \<Rightarrow> movie option" where
  "GetMovie st movieID = map_of (movies st) movieID"

definition JoinMovie :: "string \<Rightarrow> string \<Rightarrow> ('tk, 'z) mus_state_scheme \<Rightarrow> ('tk, 'z) mus_state_scheme" where
  "JoinMovie movieID userID st =
     (let mv = (case map_of (movies st) movieID of Some m \<Rightarrow> m | None \<Rightarrow> newMovie movieID);
          s1 = JoinRoom (movieRoomName movieID) userID (sessions st);
          mv' = (case GetGroup mv AllUsers of
                   None \<Rightarrow> AddGroup AllUsers (NewGroup AllUsers movieID True) mv
                 | Some _ \<Rightarrow> mv);
          s2 = JoinRoom (groupRoomName movieID AllUsers) userID s1
      in st\<lparr>movies := AList.update movieID mv' (movies st), sessions := s2\<rparr>)"

definition LeaveMovie :: "string \<Rightarrow> string \<Rightarrow> ('tk, 'z) mus_state_scheme \<Rightarrow>
    unit go \<times> ('tk, 'z) mus_state_scheme" where
  "LeaveMovie movieID userID st =
     (case map_of (movies st) movieID of
        None \<Rightarrow> (Err ErrOther, st)
      | Some mv \<Rightarrow>
          (let s1 = fold (\<lambda>room. LeaveRoom room userID)
                      (map (groupRoomName movieID) (GetGroupNames mv)) (sessions st);
               s2 = DeleteUserAttribute userID ''#movieID'' s1;
               s3 = LeaveRoom (movieRoomName movieID) userID s2;
               members = GetRoomMembers s3 (movieRoomName movieID);
               ms = (if members = [] then AList.delete movieID (movies st) else movies st)
           in (Ok (), st\<lparr>sessions := s3, movies := ms\<rparr>)))"

definition GetMovies :: "('tk, 'z) mus_state_scheme \<Rightarrow> string list" where
  "GetMovies st = map fst (movies st)"

definition GetMovieUserCount :: "('tk, 'z) mus_state_scheme \<Rightarrow> string \<Rightarrow> nat" where
  "GetMovieUserCount st movieID = length (GetRoomMembers (sessions st) (movieRoomName movieID))"


subsection \<open>The group manager\<close>

definition JoinGroup :: "string \<Rightarrow> string \<Rightarrow> string \<Rightarrow> ('tk, 'z) mus_state_scheme \<Rightarrow>
    unit go \<times> ('tk, 'z) mus_state_scheme" where
  "JoinGroup movieID groupName userID st =
     (if userID \<notin> set (GetRoomMembers (sessions st) (movieRoomName movieID)) then (Err ErrOther, st)
      else (Ok (), st\<lparr>sessions := JoinRoom (groupRoomName movieID groupName) userID (sessions st)\<rparr>))"

definition LeaveGroup :: "string \<Rightarrow> string \<Rightarrow> string \<Rightarrow> ('tk, 'z) mus_state_scheme \<Rightarrow>
    ('tk, 'z) mus_state_scheme" where
  "LeaveGroup movieID groupName userID st =
     st\<lparr>sessions := LeaveRoom (groupRoomName movieID groupName) userID (sessions st)\<rparr>"

definition GetGroupMembers :: "('tk, 'z) mus_state_scheme \<Rightarrow> string \<Rightarrow> string \<Rightarrow> string list" where
  "GetGroupMembers st movieID groupName = GetRoomMembers (sessions st) (groupRoomName movieID groupName)"

definition GetGroupMemberCount :: "('tk, 'z) mus_state_scheme \<Rightarrow> string \<Rightarrow> string \<Rightarrow> nat" where
  "GetGroupMemberCount st movieID groupName = length (GetGroupMembers st movieID groupName)"

definition LeaveAllGroups :: "string \<Rightarrow> string \<Rightarrow> ('tk, 'z) mus_state_scheme \<Rightarrow> ('tk, 'z) mus_state_scheme" where
  "LeaveAllGroups movieID userID st =
     st\<lparr>sessions := fold (\<lambda>room. LeaveRoom room userID)
          (filter (prefix (movieID @ '':'')) (GetClientRooms (sessions st) userID)) (sessions st)\<rparr>"


section \<open>Responses and delivery\<close>

text \<open>The configuration of the sender, with the cipher's \<open>Encrypt\<close> and the clock in Unix seconds.\<close>

record send_env =
  env_now :: int
  env_encrypt :: "(bytes \<Rightarrow> bytes) option"
  allEncrypted :: bool
  defaultMovieID :: string

definition mk_string :: "string \<Rightarrow> header_string" where
  "mk_string s = \<lparr>Length = length s, Value = s\<rparr>"

definition NewResponse :: "int \<Rightarrow> string \<Rightarrow> string \<Rightarrow> string list \<Rightarrow> 32 word \<Rightarrow> lvalue option \<Rightarrow> mus_message" where
  "NewResponse now subject senderID recipients errCode content =
     \<lparr>ContentSize = 0, ErrCode = errCode, TimeStamp = word_of_int now,
      Subject = mk_string subject, SenderID = mk_string senderID,
      RecptID = \<lparr>Count = length recipients, Strings = map mk_string recipients\<rparr>,
      RawContents = [], DecryptedContents = [], MsgContent = content\<rparr>"

definition seal :: "('e) send_env_scheme \<Rightarrow> bytes \<Rightarrow> bytes" where
  "seal env bs = (case env_encrypt env of Some e \<Rightarrow> if allEncrypted env then e bs else bs | None \<Rightarrow> bs)"

text \<open>The delivery loop: an error is logged and the loop goes on; a panic ends it.\<close>

fun deliver :: "string list \<Rightarrow> bytes \<Rightarrow> conn_pool \<Rightarrow> network \<Rightarrow> unit go \<times> network" where
  "deliver [] bs p n = (Ok (), n)"
| "deliver (memberID # ms) bs p n =
     (case WriteToClient memberID bs p n of
        (Panic, n') \<Rightarrow> (Panic, n')
      | (_, n') \<Rightarrow> deliver ms bs p n')"

text \<open>The movie of the sender: the first room with the movie prefix.\<close>

definition sender_movie :: "string list \<Rightarrow> string" where
  "sender_movie rms =
     (case find (prefix ''movie:'') rms of None \<Rightarrow> [] | Some room \<Rightarrow> trim_prefix ''movie:'' room)"

definition deliverToGroup :: "'e send_env_scheme \<Rightarrow> string \<Rightarrow> string \<Rightarrow> string \<Rightarrow> string \<Rightarrow> lvalue option \<Rightarrow>
    ('tk, 'z) mus_state_scheme \<Rightarrow> unit go \<times> ('tk, 'z) mus_state_scheme" where
  "deliverToGroup env wireFrom routingSender groupRef subject content st =
     (let found = sender_movie (GetClientRooms (sessions st) routingSender);
          movieID = (if found = [] then defaultMovieID env else found)
      in if movieID = [] then (Err ErrOther, st)
         else
           (let members = GetRoomMembers (sessions st) (groupRoomName movieID groupRef);
                msg = NewResponse (env_now env) subject wireFrom [groupRef] ErrNoError content
            in case message_bytes msg of
                 None \<Rightarrow> (Panic, st)
               | Some bs \<Rightarrow>
                   (let (r, n) = deliver members (seal env bs) (pool st) (net st)
                    in (r, st\<lparr>net := n\<rparr>))))"

definition SendMessageFrom :: "'e send_env_scheme \<Rightarrow> string \<Rightarrow> string \<Rightarrow> string \<Rightarrow> string \<Rightarrow> lvalue option \<Rightarrow>
    ('tk, 'z) mus_state_scheme \<Rightarrow> unit go \<times> ('tk, 'z) mus_state_scheme" where
  "SendMessageFrom env wireFrom routingSender recipientID subject content st =
     (if prefix ''@'' recipientID then deliverToGroup env wireFrom routingSender recipientID subject content st
      else
        (let msg = NewResponse (env_now env) subject wireFrom [recipientID] ErrNoError content
         in case message_bytes msg of
              None \<Rightarrow> (Panic, st)
            | Some bs \<Rightarrow>
                (let (r, n) = WriteToClient recipientID (seal env bs) (pool st) (net st)
                 in (r, st\<lparr>net := n\<rparr>))))"

definition SendMessage :: "'e send_env_scheme \<Rightarrow> string \<Rightarrow> string \<Rightarrow> string \<Rightarrow> lvalue option \<Rightarrow>
    ('tk, 'z) mus_state_scheme \<Rightarrow> unit go \<times> ('tk, 'z) mus_state_scheme" where
  "SendMessage env senderID recipientID subject content st =
     SendMessageFrom env senderID senderID recipientID subject content st"

section \<open>Room names\<close>

text \<open>A movie id without a colon.\<close>

definition clean :: "string \<Rightarrow> bool" where
  "clean m \<longleftrightarrow> CHR '':'' \<notin> set m"

lemma clean_append_colon: "clean a \<Longrightarrow> clean b \<Longrightarrow> a @ '':'' @ x = b @ '':'' @ y \<longleftrightarrow> a = b \<and> x = y"
proof (induction a arbitrary: b)
  case Nil
  then show ?case by (cases b) (auto simp: clean_def)
next
  case (Cons c a)
  then show ?case by (cases b) (auto simp: clean_def)
qed

lemma groupRoomName_eq: "clean m \<Longrightarrow> clean m' \<Longrightarrow> groupRoomName m g = groupRoomName m' g' \<longleftrightarrow> m = m' \<and> g = g'"
  unfolding groupRoomName_def by (rule clean_append_colon)

lemma groupRoomName_eq_movieRoomName:
  "clean m \<Longrightarrow> groupRoomName m g = movieRoomName x \<longleftrightarrow> m = ''movie'' \<and> g = x"
  using clean_append_colon [of m "''movie''" g x] by (simp add: groupRoomName_def movieRoomName_def clean_def)

lemma movieRoomName_eq [simp]: "movieRoomName x = movieRoomName y \<longleftrightarrow> x = y"
  by (simp add: movieRoomName_def)


section \<open>Joining and leaving\<close>

lemma sessions_JoinMovie:
  "sessions (JoinMovie m u st) = JoinRoom (groupRoomName m AllUsers) u (JoinRoom (movieRoomName m) u (sessions st))"
  by (simp add: JoinMovie_def Let_def)

lemma members_JoinMovie:
  "session_ok (sessions st) \<Longrightarrow>
   set (GetRoomMembers (sessions (JoinMovie m u st)) r) =
     (if r = movieRoomName m \<or> r = groupRoomName m AllUsers then insert u (set (GetRoomMembers (sessions st) r))
      else set (GetRoomMembers (sessions st) r))"
  by (auto simp: sessions_JoinMovie ss.members_join)

lemma GetRoomMembers_New [simp]: "GetRoomMembers NewMemorySessionStore r = []"
  by (simp add: NewMemorySessionStore_def GetRoomMembers_def)

lemma GetMovie_JoinMovie:
  "GetMovie (JoinMovie m u st) m' =
     (if m' = m then Some (let mv = (case GetMovie st m of Some x \<Rightarrow> x | None \<Rightarrow> newMovie m)
        in case GetGroup mv AllUsers of None \<Rightarrow> AddGroup AllUsers (NewGroup AllUsers m True) mv | Some _ \<Rightarrow> mv)
      else GetMovie st m')"
  by (simp add: GetMovie_def JoinMovie_def Let_def gomap_simps)

lemma GetRoomMembers_DeleteUserAttribute [simp]:
  "GetRoomMembers (DeleteUserAttribute c a m) r = GetRoomMembers m r"
  by (simp add: DeleteUserAttribute_def GetRoomMembers_def split: option.splits)

lemma LeaveMovie_members:
  assumes "session_ok (sessions st)" and "GetMovie st m = Some mv"
  shows "set (GetRoomMembers (sessions (snd (LeaveMovie m u st))) r) =
    set (GetRoomMembers (sessions st) r) -
      (if r = movieRoomName m \<or> (\<exists>g \<in> set (GetGroupNames mv). r = groupRoomName m g) then {u} else {})"
proof -
  let ?s1 = "fold (\<lambda>room. LeaveRoom room u) (map (groupRoomName m) (GetGroupNames mv)) (sessions st)"
  let ?s2 = "DeleteUserAttribute u ''#movieID'' ?s1"
  have "session_ok ?s2"
    by (simp add: ss.inv_fold_leave assms(1))
  then show ?thesis
    using assms(2)
    by (auto simp: LeaveMovie_def GetMovie_def Let_def ss.members_leave ss.members_fold_leave [OF assms(1)])
qed

lemma session_ok_LeaveMovie:
  "session_ok (sessions st) \<Longrightarrow> session_ok (sessions (snd (LeaveMovie m u st)))"
  by (simp add: LeaveMovie_def Let_def ss.inv_fold_leave split: option.splits)


section \<open>Delivery\<close>

text \<open>The connections of the members that can be written to, in the order of the members.\<close>

definition live_conns :: "conn_pool \<Rightarrow> network \<Rightarrow> string list \<Rightarrow> conn list" where
  "live_conns p n ms =
     List.map_filter (\<lambda>m. case map_of (clients p) m of
        Some c \<Rightarrow> if c \<in> set (closed n) \<or> c \<in> set (failing n) then None else Some c
      | None \<Rightarrow> None) ms"

lemma WriteToClient_cases:
  assumes "pool_ok p"
  shows "WriteToClient i bs p n =
    (case map_of (clients p) i of
       None \<Rightarrow> (Err ErrOther, n)
     | Some c \<Rightarrow> if c \<in> set (closed n) \<or> c \<in> set (failing n) then (Err ErrOther, n)
                 else (Ok (), n\<lparr>sent := sent n @ [(c, bs)]\<rparr>))"
  using pool_ok_writeMu [OF assms] by (auto simp: WriteToClient_def conn_Write_def split: option.splits)

lemma live_conns_frame: "live_conns p (n\<lparr>sent := xs\<rparr>) ms = live_conns p n ms"
  by (simp add: live_conns_def cong: option.case_cong)

lemma live_conns_Cons:
  "live_conns p n (m # ms) =
     (case map_of (clients p) m of
        Some c \<Rightarrow> if c \<in> set (closed n) \<or> c \<in> set (failing n) then live_conns p n ms else c # live_conns p n ms
      | None \<Rightarrow> live_conns p n ms)"
  by (simp add: live_conns_def List.map_filter_simps split: option.splits)

lemma live_conns_Nil [simp]: "live_conns p n [] = []"
  by (simp add: live_conns_def List.map_filter_simps)

lemma deliver_live:
  "pool_ok p \<Longrightarrow> deliver ms bs p n = (Ok (), n\<lparr>sent := sent n @ map (\<lambda>c. (c, bs)) (live_conns p n ms)\<rparr>)"
  by (induction ms arbitrary: n)
    (simp_all add: WriteToClient_cases live_conns_Cons live_conns_frame split: option.splits)

lemma set_live_conns:
  "set (live_conns p n ms) =
     {c. (\<exists>m \<in> set ms. map_of (clients p) m = Some c) \<and> c \<notin> set (closed n) \<and> c \<notin> set (failing n)}"
  by (induction ms) (auto simp: live_conns_Cons split: option.splits)

lemma distinct_live_conns: "pool_ok p \<Longrightarrow> distinct ms \<Longrightarrow> distinct (live_conns p n ms)"
proof (induction ms)
  case (Cons m ms)
  have "c \<notin> set (live_conns p n ms)" if "map_of (clients p) m = Some c" for c
    using that Cons.prems by (auto simp: set_live_conns pool_ok_inverse)
  with Cons show ?case by (simp add: live_conns_Cons split: option.splits)
qed simp

lemma distinct_GetRoomMembers: "session_ok m \<Longrightarrow> distinct (GetRoomMembers m r)"
  by (simp add: GetRoomMembers_index session_ok_def index_ok_def)


section \<open>What the receiver reads\<close>

lemma string_ok_mk [simp]: "string_ok (mk_string s) \<longleftrightarrow> length s < 2 ^ 32"
  by (simp add: string_ok_def mk_string_def)

lemma canon_mk [simp]: "canon (mk_string s) = mk_string s"
  by (simp add: canon_def mk_string_def)

lemma parse_NewResponse:
  assumes "message_bytes (NewResponse now subject sender recipients err (Some v)) = Some bs"
    and "wire_ok v" and "length bs < 2 ^ 31"
    and "length subject < 2 ^ 32" and "length sender < 2 ^ 32" and "length recipients < 2 ^ 32"
    and "\<forall>x \<in> set recipients. length x < 2 ^ 32"
  shows "\<exists>msg. ParseMUSMessage bs = Ok msg \<and> Value (Subject msg) = subject \<and> Value (SenderID msg) = sender \<and>
    map Value (Strings (RecptID msg)) = recipients \<and> ErrCode msg = err \<and> MsgContent msg = Some (decoded v)"
proof -
  let ?m = "NewResponse now subject sender recipients err (Some v)"
  have ok: "head_ok ?m"
    using assms(4-7) by (simp add: head_ok_def NewResponse_def list_ok_def)
  from assms(1) obtain c where c: "GetBytes v = Some c" and b: "bs = envelope (message_head ?m @ c)"
    by (auto simp: message_bytes_def content_bytes_def NewResponse_def bind_eq_Some_conv)
  have "FromRawBytes (opened None ?m c) 0 = Some (decoded v)" "c \<noteq> []"
    using FromRawBytes_GetBytes [OF assms(2) c] by (simp_all add: opened_def)
  from parse_with_content [OF ok _ this(2,1)] assms(3) b show ?thesis
    by (simp add: ParseMUSMessage_def parsed_head_def NewResponse_def canon_list_def mk_string_def
        canon_def comp_def)
qed


section \<open>Properties\<close>

text \<open>For movie ids without a colon, and other than the word movie, the rooms of all movies and of
  all their groups have different names, so membership in one never means membership in another.\<close>

theorem room_names_distinct:
  assumes "clean m" and "clean m'" and "m \<noteq> ''movie''"
  shows "(groupRoomName m g = groupRoomName m' g' \<longleftrightarrow> m = m' \<and> g = g') \<and>
    groupRoomName m g \<noteq> movieRoomName x \<and> (movieRoomName x = movieRoomName y \<longleftrightarrow> x = y)"
  using assms by (simp add: groupRoomName_eq groupRoomName_eq_movieRoomName)

theorem room_names_distinct_witness:
  "groupRoomName ''farm'' ''@AllUsers'' \<noteq> groupRoomName ''town'' ''@AllUsers'' \<and>
   groupRoomName ''farm'' ''town'' \<noteq> movieRoomName ''town''"
  using room_names_distinct [of "''farm''" "''town''" "''@AllUsers''" "''@AllUsers''" "''town''"]
    room_names_distinct [of "''farm''" "''town''" "''town''" "''town''" "''town''"]
  by (simp add: clean_def)

text \<open>The word movie is a movie id the server accepts, and it breaks the check of \<open>JoinGroup\<close> that a
  user is in the movie of the group: a user in the movie called movie who joins the group X of it is
  thereby in the room of the movie X, and may join its groups without having entered it.\<close>

theorem movie_named_movie_bypass:
  assumes "session_ok (sessions st)" and "u \<in> set (GetRoomMembers (sessions st) (movieRoomName ''movie''))"
  shows "fst (JoinGroup x g u (snd (JoinGroup ''movie'' x u st))) = Ok ()"
  using assms
  by (simp add: JoinGroup_def ss.members_join groupRoomName_def movieRoomName_def)

theorem movie_named_movie_bypass_witness:
  "fst (JoinGroup ''vip'' ''@chat'' ''eve'' (snd (JoinGroup ''movie'' ''vip'' ''eve''
     (JoinMovie ''movie'' ''eve''
       \<lparr>sessions = NewMemorySessionStore, pool = NewConnPool, tokens = (), movies = [],
        net = \<lparr>sent = [], closed = [], failing = []\<rparr>\<rparr>)))) = Ok ()"
proof -
  let ?st = "\<lparr>sessions = NewMemorySessionStore, pool = NewConnPool, tokens = (), movies = [],
        net = \<lparr>sent = [], closed = [], failing = []\<rparr>\<rparr> :: unit mus_state"
  have "session_ok (sessions (JoinMovie ''movie'' ''eve'' ?st))"
    by (simp add: sessions_JoinMovie)
  moreover have "''eve'' \<in> set (GetRoomMembers (sessions (JoinMovie ''movie'' ''eve'' ?st)) (movieRoomName ''movie''))"
    by (simp add: members_JoinMovie)
  ultimately show ?thesis by (rule movie_named_movie_bypass)
qed

text \<open>Leaving a movie removes the user from the movie's room and from the room of each of its groups
  and changes no other membership; the movie is destroyed exactly when nobody is left in it.\<close>

theorem LeaveMovie_effect:
  assumes "session_ok (sessions st)" and "GetMovie st m = Some mv"
  shows "case LeaveMovie m u st of (res, st') \<Rightarrow>
    res = Ok () \<and> session_ok (sessions st') \<and>
    (\<forall>r. set (GetRoomMembers (sessions st') r) = set (GetRoomMembers (sessions st) r) -
       (if r = movieRoomName m \<or> (\<exists>g \<in> set (GetGroupNames mv). r = groupRoomName m g) then {u} else {})) \<and>
    (GetMovie st' m = None \<longleftrightarrow> set (GetRoomMembers (sessions st) (movieRoomName m)) \<subseteq> {u}) \<and>
    (\<forall>x. x \<noteq> m \<longrightarrow> GetMovie st' x = GetMovie st x)"
proof -
  let ?st' = "snd (LeaveMovie m u st)"
  note mem = LeaveMovie_members [OF assms, of u]
  have "fst (LeaveMovie m u st) = Ok ()" "x \<noteq> m \<Longrightarrow> GetMovie ?st' x = GetMovie st x" for x
    using assms(2) by (auto simp: LeaveMovie_def GetMovie_def Let_def gomap_simps)
  moreover have "GetMovie ?st' m = None \<longleftrightarrow> GetRoomMembers (sessions ?st') (movieRoomName m) = []"
    using assms(2) by (auto simp: LeaveMovie_def GetMovie_def Let_def gomap_simps)
  moreover have "GetRoomMembers (sessions ?st') (movieRoomName m) = [] \<longleftrightarrow>
      set (GetRoomMembers (sessions st) (movieRoomName m)) \<subseteq> {u}"
    using mem [of "movieRoomName m"] by (auto simp flip: set_empty)
  ultimately show ?thesis
    using mem session_ok_LeaveMovie [OF assms(1), of m u] by (simp add: split_beta)
qed

theorem LeaveMovie_effect_witness:
  "GetMovie (snd (LeaveMovie ''farm'' ''ann'' (JoinMovie ''farm'' ''ann''
       \<lparr>sessions = NewMemorySessionStore, pool = NewConnPool, tokens = (), movies = [],
        net = \<lparr>sent = [], closed = [], failing = []\<rparr>\<rparr>))) ''farm'' = None"
proof -
  let ?st = "JoinMovie ''farm'' ''ann'' \<lparr>sessions = NewMemorySessionStore, pool = NewConnPool, tokens = (), movies = [],
        net = \<lparr>sent = [], closed = [], failing = []\<rparr>\<rparr> :: unit mus_state"
  have "session_ok (sessions ?st)"
    by (simp add: sessions_JoinMovie)
  moreover obtain mv where "GetMovie ?st ''farm'' = Some mv"
    by (simp add: GetMovie_JoinMovie)
  moreover have "set (GetRoomMembers (sessions ?st) (movieRoomName ''farm'')) \<subseteq> {''ann''}"
    by (simp add: members_JoinMovie)
  ultimately show ?thesis
    using LeaveMovie_effect [of ?st "''farm''" mv "''ann''"] by (simp add: split_beta)
qed

text \<open>C20.  A group message goes, once each and in one encoding, to exactly the connections of the group's
  members that can be written to: a member without a connection, or whose connection fails, does not
  stop the others, and nothing else in the state changes.\<close>

theorem group_message_delivery:
  assumes "session_ok (sessions st)" and "pool_ok (pool st)" and "prefix ''@'' ref"
    and "sender_movie (GetClientRooms (sessions st) sender) = m" and "m \<noteq> []"
    and "message_bytes (NewResponse (env_now env) subject sender [ref] ErrNoError content) = Some bs"
  shows "\<exists>cs. SendMessage env sender ref subject content st =
      (Ok (), st\<lparr>net := (net st)\<lparr>sent := sent (net st) @ map (\<lambda>c. (c, seal env bs)) cs\<rparr>\<rparr>) \<and>
    distinct cs \<and>
    set cs = {c. (\<exists>u \<in> set (GetGroupMembers st m ref). map_of (clients (pool st)) u = Some c) \<and>
                 c \<notin> set (closed (net st)) \<and> c \<notin> set (failing (net st))}"
proof (intro exI conjI)
  let ?cs = "live_conns (pool st) (net st) (GetGroupMembers st m ref)"
  show "SendMessage env sender ref subject content st =
      (Ok (), st\<lparr>net := (net st)\<lparr>sent := sent (net st) @ map (\<lambda>c. (c, seal env bs)) ?cs\<rparr>\<rparr>)"
    using assms
    by (simp add: SendMessage_def SendMessageFrom_def deliverToGroup_def GetGroupMembers_def deliver_live Let_def)
  show "distinct ?cs"
    using assms(1,2) by (simp add: distinct_live_conns GetGroupMembers_def distinct_GetRoomMembers)
qed (simp add: set_live_conns)

definition example_room :: "unit mus_state" where
  "example_room =
     JoinMovie ''farm'' ''bob'' (JoinMovie ''farm'' ''ann''
       \<lparr>sessions = NewMemorySessionStore, pool = Register 2 ''bob'' (Register 1 ''ann'' NewConnPool),
        tokens = (), movies = [], net = \<lparr>sent = [], closed = [], failing = []\<rparr>\<rparr>)"

definition example_env :: send_env where
  "example_env = \<lparr>env_now = 0, env_encrypt = None, allEncrypted = False, defaultMovieID = []\<rparr>"

lemma JoinMovie_frame [simp]:
  "pool (JoinMovie m u st) = pool st" "net (JoinMovie m u st) = net st" "tokens (JoinMovie m u st) = tokens st"
  by (simp_all add: JoinMovie_def Let_def)

lemma example_room_ok:
  "session_ok (sessions example_room)" "pool_ok (pool example_room)"
  "pool example_room = Register 2 ''bob'' (Register 1 ''ann'' NewConnPool)"
  "net example_room = \<lparr>sent = [], closed = [], failing = []\<rparr>"
  "set (GetGroupMembers example_room ''farm'' ''@AllUsers'') = {''ann'', ''bob''}"
proof -
  show "pool_ok (pool example_room)"
    unfolding example_room_def
    by (simp, intro pool_ok_Register pool_ok_New) (simp_all add: NewConnPool_def Register_def)
qed (simp_all add: example_room_def sessions_JoinMovie GetGroupMembers_def AllUsers_def ss.members_join
    groupRoomName_def movieRoomName_def insert_commute)

lemma example_room_sender: "sender_movie (GetClientRooms (sessions example_room) ''ann'') = ''farm''"
  by (simp add: example_room_def sessions_JoinMovie JoinRoom_def set_add_def NewMemorySessionStore_def
      GetClientRooms_def sender_movie_def movieRoomName_def groupRoomName_def AllUsers_def
      List.insert_def trim_prefix_def)

theorem group_message_delivery_witness:
  "\<exists>cs. distinct cs \<and> set cs = {1, 2} \<and>
    map fst (sent (net (snd (SendMessage example_env ''ann'' ''@AllUsers'' ''hi'' None example_room)))) = cs"
proof -
  obtain bs where "message_bytes (NewResponse (env_now example_env) ''hi'' ''ann'' [''@AllUsers''] ErrNoError None) = Some bs"
    by (simp add: message_bytes_def content_bytes_def NewResponse_def)
  from group_message_delivery [OF example_room_ok(1,2) _ example_room_sender _ this]
  obtain cs where sent: "SendMessage example_env ''ann'' ''@AllUsers'' ''hi'' None example_room =
      (Ok (), example_room\<lparr>net := (net example_room)\<lparr>sent := sent (net example_room) @
        map (\<lambda>c. (c, seal example_env bs)) cs\<rparr>\<rparr>)"
    and "distinct cs" and set: "set cs = {c. (\<exists>u \<in> set (GetGroupMembers example_room ''farm'' ''@AllUsers'').
        map_of (clients (pool example_room)) u = Some c) \<and>
        c \<notin> set (closed (net example_room)) \<and> c \<notin> set (failing (net example_room))}"
    by auto
  have "map_of (clients (pool example_room)) ''ann'' = Some 1" "map_of (clients (pool example_room)) ''bob'' = Some 2"
    by (simp_all add: example_room_ok(3) Register_def NewConnPool_def)
  then have "set cs = {1, 2}"
    unfolding set example_room_ok(4,5) by auto
  moreover have "map fst (sent (net (snd (SendMessage example_env ''ann'' ''@AllUsers'' ''hi'' None example_room)))) = cs"
    unfolding sent by (simp add: example_room_ok(4) comp_def)
  ultimately show ?thesis using \<open>distinct cs\<close> by blast
qed

end
