(* ===== verification/Timers.thy ===== *)
theory Timers
  imports Prelude
begin

text \<open>
  The kill timers of \<open>internal/adapters/inbound/timer_manager.go\<close>, with the part of Go's \<open>time\<close> package
  they use.  \<open>time.AfterFunc\<close> arms a timer; when it expires, its function starts in a goroutine of its
  own, so between the expiry and the first lock the function takes, other calls may run: an expired
  timer is first \<open>started\<close> and runs in a later step.  \<open>Stop\<close> disarms a timer that has not expired and
  does nothing to one that has.
\<close>


section \<open>State\<close>

datatype timer_action = Shutdown | KillUser string

text \<open>A timer has a number, its delay in nanoseconds and what it runs.\<close>

record timers =
  serverTimer :: "nat option"
  userTimers :: "nat gomap"
  armed :: "(nat \<times> int \<times> timer_action) list"
  started :: "(nat \<times> timer_action) list"
  next_timer :: nat

definition NewTimerManager :: timers where
  "NewTimerManager = \<lparr>serverTimer = None, userTimers = [], armed = [], started = [], next_timer = 0\<rparr>"

text \<open>\<open>time.Duration(minutes)*time.Minute\<close>, an \<open>int64\<close> multiplication.\<close>

definition minutes_duration :: "int \<Rightarrow> int" where
  "minutes_duration minutes = sint (word_of_int (minutes * 60000000000) :: 64 word)"

definition timer_Stop :: "nat \<Rightarrow> timers \<Rightarrow> timers" where
  "timer_Stop i t = t\<lparr>armed := filter (\<lambda>x. fst x \<noteq> i) (armed t)\<rparr>"

definition AfterFunc :: "int \<Rightarrow> timer_action \<Rightarrow> timers \<Rightarrow> nat \<times> timers" where
  "AfterFunc d act t =
     (next_timer t, t\<lparr>armed := armed t @ [(next_timer t, d, act)], next_timer := Suc (next_timer t)\<rparr>)"


section \<open>Operations\<close>

definition SetServerKillTimer :: "int \<Rightarrow> timers \<Rightarrow> timers" where
  "SetServerKillTimer minutes t =
     (let t1 = (case serverTimer t of Some i \<Rightarrow> timer_Stop i t | None \<Rightarrow> t);
          (i, t2) = AfterFunc (minutes_duration minutes) Shutdown t1
      in t2\<lparr>serverTimer := Some i\<rparr>)"

definition CancelServerKillTimer :: "timers \<Rightarrow> timers" where
  "CancelServerKillTimer t =
     (case serverTimer t of None \<Rightarrow> t | Some i \<Rightarrow> (timer_Stop i t)\<lparr>serverTimer := None\<rparr>)"

definition SetUserKillTimer :: "string \<Rightarrow> int \<Rightarrow> timers \<Rightarrow> timers" where
  "SetUserKillTimer clientID minutes t =
     (let t1 = (case map_of (userTimers t) clientID of Some i \<Rightarrow> timer_Stop i t | None \<Rightarrow> t);
          (i, t2) = AfterFunc (minutes_duration minutes) (KillUser clientID) t1
      in t2\<lparr>userTimers := AList.update clientID i (userTimers t2)\<rparr>)"

definition CancelUserKillTimer :: "string \<Rightarrow> timers \<Rightarrow> timers" where
  "CancelUserKillTimer clientID t =
     (case map_of (userTimers t) clientID of
        None \<Rightarrow> t
      | Some i \<Rightarrow> (timer_Stop i t)\<lparr>userTimers := AList.delete clientID (userTimers t)\<rparr>)"

definition StopTimers :: "timers \<Rightarrow> timers" where
  "StopTimers t =
     (let t1 = CancelServerKillTimer t
      in fold (\<lambda>(clientID, i) t. (timer_Stop i t)\<lparr>userTimers := AList.delete clientID (userTimers t)\<rparr>)
           (userTimers t1) t1)"

text \<open>A timer expires, and later its function runs; of the function of a user timer this is the part
  that concerns the manager: the entry of the client is deleted, whichever timer it names by then.\<close>

definition expire :: "nat \<Rightarrow> timers \<Rightarrow> timers" where
  "expire i t =
     t\<lparr>armed := filter (\<lambda>x. fst x \<noteq> i) (armed t),
       started := started t @ map (\<lambda>x. (fst x, snd (snd x))) (filter (\<lambda>x. fst x = i) (armed t))\<rparr>"

definition run_started :: "nat \<Rightarrow> timer_action \<Rightarrow> timers \<Rightarrow> timers" where
  "run_started i act t =
     (let t1 = t\<lparr>started := removeAll (i, act) (started t)\<rparr>
      in case act of Shutdown \<Rightarrow> t1 | KillUser clientID \<Rightarrow> t1\<lparr>userTimers := AList.delete clientID (userTimers t1)\<rparr>)"


section \<open>Invariant\<close>

text \<open>Every armed user timer is the one its client's entry names, every armed shutdown is the server's
  timer, and numbers are fresh.\<close>

definition timers_ok :: "timers \<Rightarrow> bool" where
  "timers_ok t \<longleftrightarrow>
     gomap_ok (userTimers t) \<and> distinct (map fst (armed t)) \<and>
     (\<forall>i d c. (i, d, KillUser c) \<in> set (armed t) \<longrightarrow> map_of (userTimers t) c = Some i) \<and>
     (\<forall>i d. (i, d, Shutdown) \<in> set (armed t) \<longrightarrow> serverTimer t = Some i) \<and>
     (\<forall>x \<in> set (armed t). fst x < next_timer t) \<and>
     (\<forall>i. serverTimer t = Some i \<longrightarrow> i < next_timer t) \<and>
     (\<forall>c i. map_of (userTimers t) c = Some i \<longrightarrow> i < next_timer t)"

lemma timers_ok_New [simp]: "timers_ok NewTimerManager"
  by (simp add: timers_ok_def NewTimerManager_def)

lemma timers_ok_entry: "timers_ok t \<Longrightarrow> (i, d, KillUser c) \<in> set (armed t) \<Longrightarrow> map_of (userTimers t) c = Some i"
  unfolding timers_ok_def by blast

lemma timers_ok_unique:
  "timers_ok t \<Longrightarrow> (i, d, KillUser c) \<in> set (armed t) \<Longrightarrow> (j, e, KillUser c) \<in> set (armed t) \<Longrightarrow> j = i"
  by (metis option.inject timers_ok_entry)

text \<open>Histories in which the function of an expired timer runs before the next operation.\<close>

definition fire :: "nat \<Rightarrow> timer_action \<Rightarrow> timers \<Rightarrow> timers" where
  "fire i act t = run_started i act (expire i t)"

inductive serial :: "timers \<Rightarrow> bool" where
  start: "serial NewTimerManager"
| set_server: "serial t \<Longrightarrow> serial (SetServerKillTimer m t)"
| cancel_server: "serial t \<Longrightarrow> serial (CancelServerKillTimer t)"
| set_user: "serial t \<Longrightarrow> serial (SetUserKillTimer c m t)"
| cancel_user: "serial t \<Longrightarrow> serial (CancelUserKillTimer c t)"
| fire: "serial t \<Longrightarrow> (i, d, act) \<in> set (armed t) \<Longrightarrow> serial (fire i act t)"

lemma timers_ok_Stop:
  "timers_ok t \<Longrightarrow> timers_ok (timer_Stop i t)"
  by (auto simp: timers_ok_def timer_Stop_def distinct_map_filter)

lemma timers_ok_set_server: "timers_ok t \<Longrightarrow> timers_ok (SetServerKillTimer m t)"
  by (auto simp: timers_ok_def SetServerKillTimer_def AfterFunc_def timer_Stop_def distinct_map_filter less_SucI
      split: option.splits)

lemma timers_ok_cancel_server: "timers_ok t \<Longrightarrow> timers_ok (CancelServerKillTimer t)"
  by (auto simp: timers_ok_def CancelServerKillTimer_def timer_Stop_def distinct_map_filter split: option.splits)

lemma timers_ok_set_user: "timers_ok t \<Longrightarrow> timers_ok (SetUserKillTimer c m t)"
  by (auto simp: timers_ok_def SetUserKillTimer_def AfterFunc_def timer_Stop_def distinct_map_filter less_SucI
      gomap_simps split: option.splits)

lemma timers_ok_cancel_user: "timers_ok t \<Longrightarrow> timers_ok (CancelUserKillTimer c t)"
  by (auto simp: timers_ok_def CancelUserKillTimer_def timer_Stop_def distinct_map_filter gomap_simps
      split: option.splits)

lemma timers_ok_fire:
  assumes "timers_ok t" and "(i, d, act) \<in> set (armed t)"
  shows "timers_ok (fire i act t)"
proof (cases act)
  case Shutdown
  with assms show ?thesis
    by (auto simp: timers_ok_def fire_def expire_def run_started_def Let_def distinct_map_filter)
next
  case (KillUser c)
  then have "j = i" if "(j, e, KillUser c) \<in> set (armed t)" for j e
    using assms that timers_ok_unique by blast
  with assms(1) KillUser show ?thesis
    unfolding timers_ok_def fire_def expire_def run_started_def Let_def
    by (auto simp: distinct_map_filter gomap_simps)
qed

lemma serial_timers_ok: "serial t \<Longrightarrow> timers_ok t"
  by (induction rule: serial.induct)
    (simp_all add: timers_ok_set_server timers_ok_cancel_server timers_ok_set_user timers_ok_cancel_user timers_ok_fire)


section \<open>Properties\<close>



text \<open>Without that order the bookkeeping fails.  A timer expires; before its function runs, the timer
  is set again; the old function then deletes the entry of the new timer.  The new timer stays armed and
  a cancel no longer finds it.\<close>

theorem kill_timer_race:
  "(1, minutes_duration m', KillUser c) \<in> set (armed (CancelUserKillTimer c
     (run_started 0 (KillUser c) (SetUserKillTimer c m' (expire 0 (SetUserKillTimer c m NewTimerManager))))))"
  by (simp add: NewTimerManager_def SetUserKillTimer_def AfterFunc_def expire_def run_started_def
      CancelUserKillTimer_def timer_Stop_def)

text \<open>The delay is right for every number of minutes up to 153722867; the next one, which a client
  may send in an \<open>int32\<close>, overflows to a negative delay, and the timer expires at once.\<close>

theorem minutes_duration_bounds:
  "(0 < m \<and> m \<le> 153722867 \<longrightarrow> minutes_duration m = m * 60000000000) \<and> minutes_duration 153722868 < 0"
proof -
  have "minutes_duration m = m * 60000000000" if "0 < m" "m \<le> 153722867"
    unfolding minutes_duration_def using that
    by (subst signed_of_int) (simp add: signed_take_bit_int_eq_self_iff)
  moreover have "minutes_duration 153722868 < 0"
    by (simp add: minutes_duration_def)
  ultimately show ?thesis by simp
qed

theorem minutes_duration_bounds_witness:
  "minutes_duration 30 = 1800000000000"
  using minutes_duration_bounds [of 30] by simp

end
