(* ===== verification/SystemService.thy ===== *)
theory SystemService
  imports Movie Timers
begin

text \<open>
  The system commands of \<open>internal/adapters/inbound/mus/system_service*.go\<close>: logon, server, movie,
  group, user and database commands, and the table that dispatches on the subject.

  The database (\<open>ports.DBAdapter\<close>), \<open>bcrypt\<close>, the token store and the email sender are parameters in
  the environment; the database has a state of its own type.  A handler takes the sender, the message
  and the state and returns the response, or \<^const>\<open>Panic\<close>, with the state it leaves behind: what was
  done before a panic stays done.  No handler returns a Go error.
\<close>


section \<open>Environment and state\<close>

record 'd db_adapter =
  CreateApplication :: "string \<Rightarrow> 'd \<Rightarrow> error option \<times> 'd"
  DeleteApplication :: "string \<Rightarrow> 'd \<Rightarrow> error option \<times> 'd"
  SetApplicationAttribute :: "string \<Rightarrow> string \<Rightarrow> lvalue \<Rightarrow> 'd \<Rightarrow> error option \<times> 'd"
  GetApplicationAttribute :: "string \<Rightarrow> string \<Rightarrow> 'd \<Rightarrow> error + lvalue"
  GetApplicationAttributeNames :: "string \<Rightarrow> 'd \<Rightarrow> error + string list"
  DeleteApplicationAttribute :: "string \<Rightarrow> string \<Rightarrow> 'd \<Rightarrow> error option \<times> 'd"
  SetPlayerAttribute :: "string \<Rightarrow> string \<Rightarrow> string \<Rightarrow> lvalue \<Rightarrow> 'd \<Rightarrow> error option \<times> 'd"
  GetPlayerAttribute :: "string \<Rightarrow> string \<Rightarrow> string \<Rightarrow> 'd \<Rightarrow> error + lvalue"
  GetPlayerAttributeNames :: "string \<Rightarrow> string \<Rightarrow> 'd \<Rightarrow> error + string list"
  DeletePlayerAttribute :: "string \<Rightarrow> string \<Rightarrow> string \<Rightarrow> 'd \<Rightarrow> error option \<times> 'd"
  CreateUser :: "string \<Rightarrow> string \<Rightarrow> int \<Rightarrow> 'd \<Rightarrow> error option \<times> 'd"
  GetUser :: "string \<Rightarrow> 'd \<Rightarrow> error + user"
  DeleteUser :: "string \<Rightarrow> 'd \<Rightarrow> error option \<times> 'd"
  CreateBan :: "int option \<Rightarrow> string option \<Rightarrow> string \<Rightarrow> int option \<Rightarrow> 'd \<Rightarrow> error option \<times> 'd"
  GetActiveBanByUserID :: "int \<Rightarrow> 'd \<Rightarrow> error + ban option"
  RevokeBan :: "int \<Rightarrow> 'd \<Rightarrow> error option \<times> 'd"

record email_message =
  From :: string
  To :: string
  em_Subject :: string
  SMTPHost :: string
  Body :: string

text \<open>\<open>None\<close> for the token store or the email sender is a nil interface; \<open>hasTimers\<close> and \<open>hasWriter\<close>
  say that the timer manager and the connection writer are not nil.\<close>

record ('tk, 'd) sys_env = send_env +
  commandLevels :: "int gomap"
  dba :: "'d db_adapter"
  bcrypt_hash :: "string \<Rightarrow> error + string"
  bcrypt_check :: "string \<Rightarrow> string \<Rightarrow> bool"
  tokenValidate :: "(string \<Rightarrow> 'tk \<Rightarrow> (error + token_payload) \<times> 'tk) option"
  sendMail :: "(email_message \<Rightarrow> error option) option"
  hasTimers :: bool
  hasWriter :: bool
  authMode :: string
  logonLevel :: int

record ('tk, 'd) sys_state = "'tk mus_state" +
  db :: 'd
  kill_timers :: timers
  mails :: "email_message list"

type_synonym ('tk, 'd) reply = "mus_message go \<times> ('tk, 'd) sys_state"

definition respond :: "('tk, 'd) sys_env \<Rightarrow> string \<Rightarrow> mus_message \<Rightarrow> 32 word \<Rightarrow> lvalue \<Rightarrow>
    ('tk, 'd) sys_state \<Rightarrow> ('tk, 'd) reply" where
  "respond env senderID msg code content st =
     (Ok (NewResponse (env_now env) (Value (Subject msg)) ''System'' [senderID] code (Some content)), st)"

abbreviation refuse :: "('tk, 'd) sys_env \<Rightarrow> string \<Rightarrow> mus_message \<Rightarrow> 32 word \<Rightarrow>
    ('tk, 'd) sys_state \<Rightarrow> ('tk, 'd) reply" where
  "refuse env senderID msg code st \<equiv> respond env senderID msg code LVoid st"

text \<open>The recurring steps of the handlers, each with its error response.\<close>

definition with_arg :: "('tk, 'd) sys_env \<Rightarrow> string \<Rightarrow> mus_message \<Rightarrow> ('tk, 'd) sys_state \<Rightarrow>
    (string \<Rightarrow> ('tk, 'd) reply) \<Rightarrow> ('tk, 'd) reply" where
  "with_arg env senderID msg st k =
     (case extract_string_arg (MsgContent msg) of
        Panic \<Rightarrow> (Panic, st)
      | Err _ \<Rightarrow> refuse env senderID msg ErrInvalidMessageFormat st
      | Ok x \<Rightarrow> k x)"

definition with_plist :: "('tk, 'd) sys_env \<Rightarrow> string \<Rightarrow> mus_message \<Rightarrow> ('tk, 'd) sys_state \<Rightarrow>
    (lvalue list \<Rightarrow> lvalue list \<Rightarrow> ('tk, 'd) reply) \<Rightarrow> ('tk, 'd) reply" where
  "with_plist env senderID msg st k =
     (case MsgContent msg of
        Some (LPropList ps vs) \<Rightarrow> k ps vs
      | _ \<Rightarrow> refuse env senderID msg ErrInvalidMessageFormat st)"

definition with_element :: "('tk, 'd) sys_env \<Rightarrow> string \<Rightarrow> mus_message \<Rightarrow> ('tk, 'd) sys_state \<Rightarrow>
    lvalue list \<Rightarrow> lvalue list \<Rightarrow> string \<Rightarrow> (lvalue \<Rightarrow> ('tk, 'd) reply) \<Rightarrow> ('tk, 'd) reply" where
  "with_element env senderID msg st ps vs name k =
     (case GetElement ps vs name of
        Panic \<Rightarrow> (Panic, st)
      | Err _ \<Rightarrow> refuse env senderID msg ErrInvalidMessageFormat st
      | Ok v \<Rightarrow> k v)"

definition with_string :: "lvalue \<Rightarrow> 's \<Rightarrow> (string \<Rightarrow> 'a go \<times> 's) \<Rightarrow> 'a go \<times> 's" where
  "with_string v st k = (case StringValue v of None \<Rightarrow> (Panic, st) | Some x \<Rightarrow> k x)"

definition getUserMovieID :: "session_store \<Rightarrow> string \<Rightarrow> string option" where
  "getUserMovieID m userID =
     (case GetUserAttribute m userID ''#movieID'' of
        LString s \<Rightarrow> if s \<noteq> [] then Some s else None
      | _ \<Rightarrow> None)"

definition with_movieID :: "('tk, 'd) sys_env \<Rightarrow> string \<Rightarrow> mus_message \<Rightarrow> ('tk, 'd) sys_state \<Rightarrow>
    (string \<Rightarrow> ('tk, 'd) reply) \<Rightarrow> ('tk, 'd) reply" where
  "with_movieID env senderID msg st k =
     (case getUserMovieID (sessions st) senderID of
        None \<Rightarrow> refuse env senderID msg ErrServerInternalError st
      | Some movieID \<Rightarrow> k movieID)"

definition with_movie :: "('tk, 'd) sys_env \<Rightarrow> string \<Rightarrow> mus_message \<Rightarrow> ('tk, 'd) sys_state \<Rightarrow>
    (string \<Rightarrow> movie \<Rightarrow> ('tk, 'd) reply) \<Rightarrow> ('tk, 'd) reply" where
  "with_movie env senderID msg st k =
     with_movieID env senderID msg st (\<lambda>movieID.
       case GetMovie st movieID of
         None \<Rightarrow> refuse env senderID msg ErrServerInternalError st
       | Some mv \<Rightarrow> k movieID mv)"

definition with_group :: "('tk, 'd) sys_env \<Rightarrow> string \<Rightarrow> mus_message \<Rightarrow> ('tk, 'd) sys_state \<Rightarrow> string \<Rightarrow>
    (string \<Rightarrow> movie \<Rightarrow> group \<Rightarrow> ('tk, 'd) reply) \<Rightarrow> ('tk, 'd) reply" where
  "with_group env senderID msg st groupName k =
     with_movie env senderID msg st (\<lambda>movieID mv.
       case GetGroup mv groupName of
         None \<Rightarrow> refuse env senderID msg ErrServerInternalError st
       | Some g \<Rightarrow> k movieID mv g)"

definition string_list :: "string list \<Rightarrow> lvalue" where
  "string_list xs = LList (map LString xs)"


section \<open>Server and movie commands\<close>

definition ServerVersion :: string where
  "ServerVersion = ''MUSGoS/0.1.0''"

definition handleServerGetVersion :: "('tk, 'd) sys_env \<Rightarrow> string \<Rightarrow> mus_message \<Rightarrow> ('tk, 'd) sys_state \<Rightarrow> ('tk, 'd) reply" where
  "handleServerGetVersion env senderID msg st = respond env senderID msg ErrNoError (LString ServerVersion) st"

definition handleServerGetTime :: "('tk, 'd) sys_env \<Rightarrow> string \<Rightarrow> mus_message \<Rightarrow> ('tk, 'd) sys_state \<Rightarrow> ('tk, 'd) reply" where
  "handleServerGetTime env senderID msg st =
     respond env senderID msg ErrNoError (LInteger (word_of_int (env_now env))) st"

definition handleServerGetUserCount :: "('tk, 'd) sys_env \<Rightarrow> string \<Rightarrow> mus_message \<Rightarrow> ('tk, 'd) sys_state \<Rightarrow> ('tk, 'd) reply" where
  "handleServerGetUserCount env senderID msg st =
     respond env senderID msg ErrNoError (LInteger (word_of_nat (length (GetAllConnections (sessions st))))) st"

definition handleServerGetMovieCount :: "('tk, 'd) sys_env \<Rightarrow> string \<Rightarrow> mus_message \<Rightarrow> ('tk, 'd) sys_state \<Rightarrow> ('tk, 'd) reply" where
  "handleServerGetMovieCount env senderID msg st =
     respond env senderID msg ErrNoError (LInteger (word_of_nat (length (GetMovies st)))) st"

definition handleServerGetMovies :: "('tk, 'd) sys_env \<Rightarrow> string \<Rightarrow> mus_message \<Rightarrow> ('tk, 'd) sys_state \<Rightarrow> ('tk, 'd) reply" where
  "handleServerGetMovies env senderID msg st = respond env senderID msg ErrNoError (string_list (GetMovies st)) st"

definition handleMovieGetUserCount :: "('tk, 'd) sys_env \<Rightarrow> string \<Rightarrow> mus_message \<Rightarrow> ('tk, 'd) sys_state \<Rightarrow> ('tk, 'd) reply" where
  "handleMovieGetUserCount env senderID msg st =
     with_movieID env senderID msg st (\<lambda>movieID.
       respond env senderID msg ErrNoError (LInteger (word_of_nat (GetMovieUserCount st movieID))) st)"

definition handleMovieGetGroups :: "('tk, 'd) sys_env \<Rightarrow> string \<Rightarrow> mus_message \<Rightarrow> ('tk, 'd) sys_state \<Rightarrow> ('tk, 'd) reply" where
  "handleMovieGetGroups env senderID msg st =
     with_movie env senderID msg st (\<lambda>movieID mv.
       respond env senderID msg ErrNoError (string_list (GetGroupNames mv)) st)"

definition handleMovieGetGroupCount :: "('tk, 'd) sys_env \<Rightarrow> string \<Rightarrow> mus_message \<Rightarrow> ('tk, 'd) sys_state \<Rightarrow> ('tk, 'd) reply" where
  "handleMovieGetGroupCount env senderID msg st =
     with_movie env senderID msg st (\<lambda>movieID mv.
       respond env senderID msg ErrNoError (LInteger (word_of_nat (GetGroupCount mv))) st)"

text \<open>\<open>if v, err := plist.GetElement(name); err == nil { field = StringValue(v) }\<close>: a missing element
  leaves the field empty; the outer option is a panic.\<close>

definition optional_string :: "lvalue list \<Rightarrow> lvalue list \<Rightarrow> string \<Rightarrow> string option" where
  "optional_string ps vs name =
     (case GetElement ps vs name of Panic \<Rightarrow> None | Err _ \<Rightarrow> Some [] | Ok v \<Rightarrow> StringValue v)"

definition email_of :: "lvalue list \<Rightarrow> lvalue list \<Rightarrow> email_message option" where
  "email_of ps vs = do {
     sender \<leftarrow> optional_string ps vs ''sender'';
     recipient \<leftarrow> optional_string ps vs ''recipient'';
     subject \<leftarrow> optional_string ps vs ''subject'';
     host \<leftarrow> optional_string ps vs ''SMTPhost'';
     body \<leftarrow> optional_string ps vs ''data'';
     Some \<lparr>From = sender, To = recipient, em_Subject = subject, SMTPHost = host, Body = body\<rparr>
   }"

definition handleServerSendEmail :: "('tk, 'd) sys_env \<Rightarrow> string \<Rightarrow> mus_message \<Rightarrow> ('tk, 'd) sys_state \<Rightarrow> ('tk, 'd) reply" where
  "handleServerSendEmail env senderID msg st =
     (if \<not> CanRun (commandLevels env) (sessions st) senderID (Value (Subject msg))
      then refuse env senderID msg ErrInvalidServerCommand st
      else case sendMail env of
        None \<Rightarrow> refuse env senderID msg ErrServerInternalError st
      | Some send \<Rightarrow>
          with_plist env senderID msg st (\<lambda>ps vs.
            case email_of ps vs of
              None \<Rightarrow> (Panic, st)
            | Some m \<Rightarrow>
                if To m = [] \<or> SMTPHost m = [] then refuse env senderID msg ErrInvalidMessageFormat st
                else case send m of
                  Some _ \<Rightarrow> refuse env senderID msg ErrServerInternalError (st\<lparr>mails := mails st @ [m]\<rparr>)
                | None \<Rightarrow> refuse env senderID msg ErrNoError (st\<lparr>mails := mails st @ [m]\<rparr>)))"

text \<open>\<open>msg.MsgContent.ToInteger()\<close> panics on nil content.\<close>

definition handleServerSetKillTimer :: "('tk, 'd) sys_env \<Rightarrow> string \<Rightarrow> mus_message \<Rightarrow> ('tk, 'd) sys_state \<Rightarrow> ('tk, 'd) reply" where
  "handleServerSetKillTimer env senderID msg st =
     (if \<not> CanRun (commandLevels env) (sessions st) senderID (Value (Subject msg))
      then refuse env senderID msg ErrInvalidServerCommand st
      else if \<not> hasTimers env then refuse env senderID msg ErrServerInternalError st
      else case MsgContent msg of
        None \<Rightarrow> (Panic, st)
      | Some v \<Rightarrow>
          (let minutes = sint (ToInteger v)
           in if minutes \<le> 0 then refuse env senderID msg ErrInvalidMessageFormat st
              else refuse env senderID msg ErrNoError
                     (st\<lparr>kill_timers := SetServerKillTimer minutes (kill_timers st)\<rparr>)))"

definition handleServerCancelKillTimer :: "('tk, 'd) sys_env \<Rightarrow> string \<Rightarrow> mus_message \<Rightarrow> ('tk, 'd) sys_state \<Rightarrow> ('tk, 'd) reply" where
  "handleServerCancelKillTimer env senderID msg st =
     (if \<not> CanRun (commandLevels env) (sessions st) senderID (Value (Subject msg))
      then refuse env senderID msg ErrInvalidServerCommand st
      else if \<not> hasTimers env then refuse env senderID msg ErrServerInternalError st
      else refuse env senderID msg ErrNoError
             (st\<lparr>kill_timers := CancelServerKillTimer (kill_timers st)\<rparr>))"


section \<open>Group commands\<close>

definition put_group :: "string \<Rightarrow> movie \<Rightarrow> string \<Rightarrow> group \<Rightarrow> ('tk, 'd) sys_state \<Rightarrow> ('tk, 'd) sys_state" where
  "put_group movieID mv groupName g st =
     st\<lparr>movies := AList.update movieID (AddGroup groupName g mv) (movies st)\<rparr>"

definition handleGroupJoin :: "('tk, 'd) sys_env \<Rightarrow> string \<Rightarrow> mus_message \<Rightarrow> ('tk, 'd) sys_state \<Rightarrow> ('tk, 'd) reply" where
  "handleGroupJoin env senderID msg st =
     with_arg env senderID msg st (\<lambda>groupName.
       with_movie env senderID msg st (\<lambda>movieID mv.
         let st1 = (case GetGroup mv groupName of
                      None \<Rightarrow> put_group movieID mv groupName (NewGroup groupName movieID False) st
                    | Some _ \<Rightarrow> st)
         in case JoinGroup movieID groupName senderID st1 of
              (Ok _, st2) \<Rightarrow> refuse env senderID msg ErrNoError st2
            | (_, st2) \<Rightarrow> refuse env senderID msg ErrServerInternalError st2))"

definition handleGroupLeave :: "('tk, 'd) sys_env \<Rightarrow> string \<Rightarrow> mus_message \<Rightarrow> ('tk, 'd) sys_state \<Rightarrow> ('tk, 'd) reply" where
  "handleGroupLeave env senderID msg st =
     with_arg env senderID msg st (\<lambda>groupName.
       with_movieID env senderID msg st (\<lambda>movieID.
         refuse env senderID msg ErrNoError (LeaveGroup movieID groupName senderID st)))"

definition handleGroupGetUsers :: "('tk, 'd) sys_env \<Rightarrow> string \<Rightarrow> mus_message \<Rightarrow> ('tk, 'd) sys_state \<Rightarrow> ('tk, 'd) reply" where
  "handleGroupGetUsers env senderID msg st =
     with_arg env senderID msg st (\<lambda>groupName.
       with_movieID env senderID msg st (\<lambda>movieID.
         respond env senderID msg ErrNoError (string_list (GetGroupMembers st movieID groupName)) st))"

definition handleGroupGetUserCount :: "('tk, 'd) sys_env \<Rightarrow> string \<Rightarrow> mus_message \<Rightarrow> ('tk, 'd) sys_state \<Rightarrow> ('tk, 'd) reply" where
  "handleGroupGetUserCount env senderID msg st =
     with_arg env senderID msg st (\<lambda>groupName.
       with_movieID env senderID msg st (\<lambda>movieID.
         respond env senderID msg ErrNoError
           (LInteger (word_of_nat (GetGroupMemberCount st movieID groupName))) st))"

definition handleGroupSetAttribute :: "('tk, 'd) sys_env \<Rightarrow> string \<Rightarrow> mus_message \<Rightarrow> ('tk, 'd) sys_state \<Rightarrow> ('tk, 'd) reply" where
  "handleGroupSetAttribute env senderID msg st =
     with_plist env senderID msg st (\<lambda>ps vs.
     with_element env senderID msg st ps vs ''group'' (\<lambda>groupVal.
     with_element env senderID msg st ps vs ''attribute'' (\<lambda>attrVal.
     with_element env senderID msg st ps vs ''value'' (\<lambda>valueVal.
     with_string groupVal st (\<lambda>groupName.
     with_string attrVal st (\<lambda>attrName.
     with_group env senderID msg st groupName (\<lambda>movieID mv g.
       refuse env senderID msg ErrNoError
         (put_group movieID mv groupName (SetAttribute attrName valueVal g) st))))))))"

definition handleGroupGetAttribute :: "('tk, 'd) sys_env \<Rightarrow> string \<Rightarrow> mus_message \<Rightarrow> ('tk, 'd) sys_state \<Rightarrow> ('tk, 'd) reply" where
  "handleGroupGetAttribute env senderID msg st =
     with_plist env senderID msg st (\<lambda>ps vs.
     with_element env senderID msg st ps vs ''group'' (\<lambda>groupVal.
     with_element env senderID msg st ps vs ''attribute'' (\<lambda>attrVal.
     with_string groupVal st (\<lambda>groupName.
     with_string attrVal st (\<lambda>attrName.
     with_group env senderID msg st groupName (\<lambda>movieID mv g.
       respond env senderID msg ErrNoError (GetAttribute g attrName) st))))))"

definition handleGroupDeleteAttribute :: "('tk, 'd) sys_env \<Rightarrow> string \<Rightarrow> mus_message \<Rightarrow> ('tk, 'd) sys_state \<Rightarrow> ('tk, 'd) reply" where
  "handleGroupDeleteAttribute env senderID msg st =
     with_plist env senderID msg st (\<lambda>ps vs.
     with_element env senderID msg st ps vs ''group'' (\<lambda>groupVal.
     with_element env senderID msg st ps vs ''attribute'' (\<lambda>attrVal.
     with_string groupVal st (\<lambda>groupName.
     with_string attrVal st (\<lambda>attrName.
     with_group env senderID msg st groupName (\<lambda>movieID mv g.
       refuse env senderID msg ErrNoError
         (put_group movieID mv groupName (DeleteAttribute attrName g) st)))))))"

definition handleGroupGetAttributeNames :: "('tk, 'd) sys_env \<Rightarrow> string \<Rightarrow> mus_message \<Rightarrow> ('tk, 'd) sys_state \<Rightarrow> ('tk, 'd) reply" where
  "handleGroupGetAttributeNames env senderID msg st =
     with_arg env senderID msg st (\<lambda>groupName.
       with_group env senderID msg st groupName (\<lambda>movieID mv g.
         respond env senderID msg ErrNoError (string_list (GetAttributeNames g)) st))"

section \<open>User commands\<close>

definition handleUserGetAddress :: "('tk, 'd) sys_env \<Rightarrow> string \<Rightarrow> mus_message \<Rightarrow> ('tk, 'd) sys_state \<Rightarrow> ('tk, 'd) reply" where
  "handleUserGetAddress env senderID msg st =
     (case GetConnection (sessions st) senderID of
        None \<Rightarrow> refuse env senderID msg ErrServerInternalError st
      | Some c \<Rightarrow> respond env senderID msg ErrNoError (LString (IP c)) st)"

definition user_groups :: "string \<Rightarrow> string list \<Rightarrow> string list" where
  "user_groups movieID rms =
     map (trim_prefix (movieID @ '':''))
       (filter (\<lambda>room. room \<noteq> ''movie:'' @ movieID \<and> prefix (movieID @ '':'') room) rms)"

definition handleUserGetGroups :: "('tk, 'd) sys_env \<Rightarrow> string \<Rightarrow> mus_message \<Rightarrow> ('tk, 'd) sys_state \<Rightarrow> ('tk, 'd) reply" where
  "handleUserGetGroups env senderID msg st =
     with_movieID env senderID msg st (\<lambda>movieID.
       respond env senderID msg ErrNoError
         (string_list (user_groups movieID (GetClientRooms (sessions st) senderID))) st)"

text \<open>Dropping a client: out of all rooms, out of the session store, connection closed.  The result of
  \<open>DisconnectClient\<close> is ignored.\<close>

definition evict :: "bool \<Rightarrow> string \<Rightarrow> ('tk, 'z) mus_state_scheme \<Rightarrow> ('tk, 'z) mus_state_scheme" where
  "evict writer clientID st =
     (let s1 = UnregisterConnection clientID (LeaveAllRooms clientID (sessions st));
          n1 = (if writer then snd (DisconnectClient clientID (pool st) (net st)) else net st)
      in st\<lparr>sessions := s1, net := n1\<rparr>)"

definition handleUserDelete :: "('tk, 'd) sys_env \<Rightarrow> string \<Rightarrow> mus_message \<Rightarrow> ('tk, 'd) sys_state \<Rightarrow> ('tk, 'd) reply" where
  "handleUserDelete env senderID msg st =
     (if \<not> CanRun (commandLevels env) (sessions st) senderID (Value (Subject msg))
      then refuse env senderID msg ErrInvalidServerCommand st
      else with_arg env senderID msg st (\<lambda>targetUserID.
        refuse env senderID msg ErrNoError (evict (hasWriter env) targetUserID st)))"

definition handleUserSetKillTimer :: "('tk, 'd) sys_env \<Rightarrow> string \<Rightarrow> mus_message \<Rightarrow> ('tk, 'd) sys_state \<Rightarrow> ('tk, 'd) reply" where
  "handleUserSetKillTimer env senderID msg st =
     (if \<not> CanRun (commandLevels env) (sessions st) senderID (Value (Subject msg))
      then refuse env senderID msg ErrInvalidServerCommand st
      else if \<not> hasTimers env then refuse env senderID msg ErrServerInternalError st
      else
        with_plist env senderID msg st (\<lambda>ps vs.
        with_element env senderID msg st ps vs ''userID'' (\<lambda>userVal.
        with_string userVal st (\<lambda>targetUserID.
        with_element env senderID msg st ps vs ''minutes'' (\<lambda>minutesVal.
          let minutes = sint (ToInteger minutesVal)
          in if minutes \<le> 0 then refuse env senderID msg ErrInvalidMessageFormat st
             else refuse env senderID msg ErrNoError
                    (st\<lparr>kill_timers := SetUserKillTimer targetUserID minutes (kill_timers st)\<rparr>))))))"

definition handleUserCancelKillTimer :: "('tk, 'd) sys_env \<Rightarrow> string \<Rightarrow> mus_message \<Rightarrow> ('tk, 'd) sys_state \<Rightarrow> ('tk, 'd) reply" where
  "handleUserCancelKillTimer env senderID msg st =
     (if \<not> CanRun (commandLevels env) (sessions st) senderID (Value (Subject msg))
      then refuse env senderID msg ErrInvalidServerCommand st
      else if \<not> hasTimers env then refuse env senderID msg ErrServerInternalError st
      else with_arg env senderID msg st (\<lambda>targetUserID.
        refuse env senderID msg ErrNoError
          (st\<lparr>kill_timers := CancelUserKillTimer targetUserID (kill_timers st)\<rparr>)))"


section \<open>Database commands\<close>

fun dbErrorCode :: "error \<Rightarrow> 32 word" where
  "dbErrorCode ErrCrossUserDenied = ErrInvalidServerCommand"
| "dbErrorCode ErrUserNotFound = ErrDatabaseUserIDNotFound"
| "dbErrorCode ErrBanNotFound = ErrDatabaseDataNotFound"
| "dbErrorCode _ = ErrServerInternalError"

text \<open>The loop over the required fields; a field name is stored with its value.\<close>

fun get_fields :: "string list \<Rightarrow> lvalue list \<Rightarrow> lvalue list \<Rightarrow> lvalue gomap go" where
  "get_fields [] ps vs = Ok []"
| "get_fields (name # names) ps vs =
     go_bind (GetElement ps vs name) (\<lambda>val.
       go_bind (get_fields names ps vs) (\<lambda>fields. Ok ((name, val) # fields)))"

definition command_fields :: "string list \<Rightarrow> lvalue option \<Rightarrow> lvalue gomap go" where
  "command_fields requiredFields content =
     (if requiredFields = [] then Ok []
      else case content of
        Some (LPropList ps vs) \<Rightarrow> get_fields requiredFields ps vs
      | _ \<Rightarrow> Err ErrOther)"

definition handleDBCommand :: "('tk, 'd) sys_env \<Rightarrow> string \<Rightarrow> mus_message \<Rightarrow> string list \<Rightarrow>
    (lvalue gomap \<Rightarrow> ('tk, 'd) sys_state \<Rightarrow> lvalue go \<times> ('tk, 'd) sys_state) \<Rightarrow>
    ('tk, 'd) sys_state \<Rightarrow> ('tk, 'd) reply" where
  "handleDBCommand env senderID msg requiredFields action st =
     (if \<not> CanRun (commandLevels env) (sessions st) senderID (Value (Subject msg))
      then refuse env senderID msg ErrInvalidServerCommand st
      else case command_fields requiredFields (MsgContent msg) of
        Panic \<Rightarrow> (Panic, st)
      | Err _ \<Rightarrow> refuse env senderID msg ErrInvalidMessageFormat st
      | Ok f \<Rightarrow>
          (case action f st of
             (Panic, st') \<Rightarrow> (Panic, st')
           | (Err e, st') \<Rightarrow> refuse env senderID msg (dbErrorCode e) st'
           | (Ok result, st') \<Rightarrow> respond env senderID msg ErrNoError result st'))"

text \<open>\<open>lingo.StringValue(f[name])\<close>, and the shapes in which an action ends.\<close>

definition with_field :: "lvalue gomap \<Rightarrow> string \<Rightarrow> 's \<Rightarrow> (string \<Rightarrow> 'a go \<times> 's) \<Rightarrow> 'a go \<times> 's" where
  "with_field f name st k =
     (case Option.bind (map_of f name) StringValue of None \<Rightarrow> (Panic, st) | Some x \<Rightarrow> k x)"

definition db_value :: "error + lvalue \<Rightarrow> 's \<Rightarrow> lvalue go \<times> 's" where
  "db_value r st = ((case r of Inl e \<Rightarrow> Err e | Inr v \<Rightarrow> Ok v), st)"

definition db_names :: "error + string list \<Rightarrow> 's \<Rightarrow> lvalue go \<times> 's" where
  "db_names r st = ((case r of Inl e \<Rightarrow> Err e | Inr names \<Rightarrow> Ok (string_list names)), st)"

definition db_done :: "error option \<times> 'd \<Rightarrow> ('tk, 'd) sys_state \<Rightarrow> lvalue go \<times> ('tk, 'd) sys_state" where
  "db_done r st = ((case fst r of Some e \<Rightarrow> Err e | None \<Rightarrow> Ok LVoid), st\<lparr>db := snd r\<rparr>)"

subsection \<open>DBPlayer\<close>

definition if_owner :: "('tk, 'd) sys_env \<Rightarrow> string \<Rightarrow> lvalue gomap \<Rightarrow> ('tk, 'd) sys_state \<Rightarrow>
    (string \<Rightarrow> lvalue go \<times> ('tk, 'd) sys_state) \<Rightarrow> lvalue go \<times> ('tk, 'd) sys_state" where
  "if_owner env senderID f st k =
     with_field f ''userID'' st (\<lambda>userID.
       if \<not> OwnerOrAdmin (commandLevels env) (sessions st) senderID userID then (Err ErrCrossUserDenied, st)
       else k userID)"

definition handleDBPlayerGetAttribute :: "('tk, 'd) sys_env \<Rightarrow> string \<Rightarrow> mus_message \<Rightarrow> ('tk, 'd) sys_state \<Rightarrow> ('tk, 'd) reply" where
  "handleDBPlayerGetAttribute env senderID msg =
     handleDBCommand env senderID msg [''application'', ''userID'', ''attribute''] (\<lambda>f st.
       if_owner env senderID f st (\<lambda>userID.
         with_field f ''application'' st (\<lambda>app.
         with_field f ''attribute'' st (\<lambda>attr.
           db_value (GetPlayerAttribute (dba env) app userID attr (db st)) st))))"

definition handleDBPlayerSetAttribute :: "('tk, 'd) sys_env \<Rightarrow> string \<Rightarrow> mus_message \<Rightarrow> ('tk, 'd) sys_state \<Rightarrow> ('tk, 'd) reply" where
  "handleDBPlayerSetAttribute env senderID msg =
     handleDBCommand env senderID msg [''application'', ''userID'', ''attribute'', ''value''] (\<lambda>f st.
       if_owner env senderID f st (\<lambda>userID.
         with_field f ''application'' st (\<lambda>app.
         with_field f ''attribute'' st (\<lambda>attr.
           case map_of f ''value'' of
             None \<Rightarrow> (Panic, st)
           | Some v \<Rightarrow> db_done (SetPlayerAttribute (dba env) app userID attr v (db st)) st))))"

definition handleDBPlayerDeleteAttribute :: "('tk, 'd) sys_env \<Rightarrow> string \<Rightarrow> mus_message \<Rightarrow> ('tk, 'd) sys_state \<Rightarrow> ('tk, 'd) reply" where
  "handleDBPlayerDeleteAttribute env senderID msg =
     handleDBCommand env senderID msg [''application'', ''userID'', ''attribute''] (\<lambda>f st.
       if_owner env senderID f st (\<lambda>userID.
         with_field f ''application'' st (\<lambda>app.
         with_field f ''attribute'' st (\<lambda>attr.
           db_done (DeletePlayerAttribute (dba env) app userID attr (db st)) st))))"

definition handleDBPlayerGetAttributeNames :: "('tk, 'd) sys_env \<Rightarrow> string \<Rightarrow> mus_message \<Rightarrow> ('tk, 'd) sys_state \<Rightarrow> ('tk, 'd) reply" where
  "handleDBPlayerGetAttributeNames env senderID msg =
     handleDBCommand env senderID msg [''application'', ''userID''] (\<lambda>f st.
       if_owner env senderID f st (\<lambda>userID.
         with_field f ''application'' st (\<lambda>app.
           db_names (GetPlayerAttributeNames (dba env) app userID (db st)) st)))"

subsection \<open>DBApplication\<close>

definition handleDBApplicationGetAttribute :: "('tk, 'd) sys_env \<Rightarrow> string \<Rightarrow> mus_message \<Rightarrow> ('tk, 'd) sys_state \<Rightarrow> ('tk, 'd) reply" where
  "handleDBApplicationGetAttribute env senderID msg =
     handleDBCommand env senderID msg [''application'', ''attribute''] (\<lambda>f st.
       with_field f ''application'' st (\<lambda>app.
       with_field f ''attribute'' st (\<lambda>attr.
         db_value (GetApplicationAttribute (dba env) app attr (db st)) st)))"

definition handleDBApplicationSetAttribute :: "('tk, 'd) sys_env \<Rightarrow> string \<Rightarrow> mus_message \<Rightarrow> ('tk, 'd) sys_state \<Rightarrow> ('tk, 'd) reply" where
  "handleDBApplicationSetAttribute env senderID msg =
     handleDBCommand env senderID msg [''application'', ''attribute'', ''value''] (\<lambda>f st.
       with_field f ''application'' st (\<lambda>app.
       with_field f ''attribute'' st (\<lambda>attr.
         case map_of f ''value'' of
           None \<Rightarrow> (Panic, st)
         | Some v \<Rightarrow> db_done (SetApplicationAttribute (dba env) app attr v (db st)) st)))"

definition handleDBApplicationDeleteAttribute :: "('tk, 'd) sys_env \<Rightarrow> string \<Rightarrow> mus_message \<Rightarrow> ('tk, 'd) sys_state \<Rightarrow> ('tk, 'd) reply" where
  "handleDBApplicationDeleteAttribute env senderID msg =
     handleDBCommand env senderID msg [''application'', ''attribute''] (\<lambda>f st.
       with_field f ''application'' st (\<lambda>app.
       with_field f ''attribute'' st (\<lambda>attr.
         db_done (DeleteApplicationAttribute (dba env) app attr (db st)) st)))"

definition handleDBApplicationGetAttributeNames :: "('tk, 'd) sys_env \<Rightarrow> string \<Rightarrow> mus_message \<Rightarrow> ('tk, 'd) sys_state \<Rightarrow> ('tk, 'd) reply" where
  "handleDBApplicationGetAttributeNames env senderID msg =
     handleDBCommand env senderID msg [''application''] (\<lambda>f st.
       with_field f ''application'' st (\<lambda>app.
         db_names (GetApplicationAttributeNames (dba env) app (db st)) st))"

subsection \<open>DBAdmin\<close>

definition handleDBAdminCreateApplication :: "('tk, 'd) sys_env \<Rightarrow> string \<Rightarrow> mus_message \<Rightarrow> ('tk, 'd) sys_state \<Rightarrow> ('tk, 'd) reply" where
  "handleDBAdminCreateApplication env senderID msg =
     handleDBCommand env senderID msg [''application''] (\<lambda>f st.
       with_field f ''application'' st (\<lambda>app. db_done (CreateApplication (dba env) app (db st)) st))"

definition handleDBAdminDeleteApplication :: "('tk, 'd) sys_env \<Rightarrow> string \<Rightarrow> mus_message \<Rightarrow> ('tk, 'd) sys_state \<Rightarrow> ('tk, 'd) reply" where
  "handleDBAdminDeleteApplication env senderID msg =
     handleDBCommand env senderID msg [''application''] (\<lambda>f st.
       with_field f ''application'' st (\<lambda>app. db_done (DeleteApplication (dba env) app (db st)) st))"

definition handleDBAdminCreateUser :: "('tk, 'd) sys_env \<Rightarrow> string \<Rightarrow> mus_message \<Rightarrow> ('tk, 'd) sys_state \<Rightarrow> ('tk, 'd) reply" where
  "handleDBAdminCreateUser env senderID msg =
     handleDBCommand env senderID msg [''userID'', ''password'', ''userLevel''] (\<lambda>f st.
       with_field f ''password'' st (\<lambda>pw.
         case bcrypt_hash env pw of
           Inl e \<Rightarrow> (Err e, st)
         | Inr hash \<Rightarrow>
             with_field f ''userID'' st (\<lambda>userID.
               case map_of f ''userLevel'' of
                 None \<Rightarrow> (Panic, st)
               | Some l \<Rightarrow> db_done (CreateUser (dba env) userID hash (sint (ToInteger l)) (db st)) st)))"

definition handleDBAdminDeleteUser :: "('tk, 'd) sys_env \<Rightarrow> string \<Rightarrow> mus_message \<Rightarrow> ('tk, 'd) sys_state \<Rightarrow> ('tk, 'd) reply" where
  "handleDBAdminDeleteUser env senderID msg =
     handleDBCommand env senderID msg [''userID''] (\<lambda>f st.
       with_field f ''userID'' st (\<lambda>userID. db_done (DeleteUser (dba env) userID (db st)) st))"

definition handleDBAdminGetUserCount :: "('tk, 'd) sys_env \<Rightarrow> string \<Rightarrow> mus_message \<Rightarrow> ('tk, 'd) sys_state \<Rightarrow> ('tk, 'd) reply" where
  "handleDBAdminGetUserCount env senderID msg =
     handleDBCommand env senderID msg [] (\<lambda>f st.
       (Ok (LInteger (word_of_nat (length (GetAllConnections (sessions st))))), st))"

definition handleDBAdminBan :: "('tk, 'd) sys_env \<Rightarrow> string \<Rightarrow> mus_message \<Rightarrow> ('tk, 'd) sys_state \<Rightarrow> ('tk, 'd) reply" where
  "handleDBAdminBan env senderID msg =
     handleDBCommand env senderID msg [''userID'', ''reason''] (\<lambda>f st.
       with_field f ''userID'' st (\<lambda>userID.
         case GetUser (dba env) userID (db st) of
           Inl e \<Rightarrow> (Err e, st)
         | Inr u \<Rightarrow>
             with_field f ''reason'' st (\<lambda>reason.
               db_done (CreateBan (dba env) (Some (user_ID u)) None reason None (db st)) st)))"

text \<open>A nil ban with a nil error is dereferenced.\<close>

definition handleDBAdminRevokeBan :: "('tk, 'd) sys_env \<Rightarrow> string \<Rightarrow> mus_message \<Rightarrow> ('tk, 'd) sys_state \<Rightarrow> ('tk, 'd) reply" where
  "handleDBAdminRevokeBan env senderID msg =
     handleDBCommand env senderID msg [''userID''] (\<lambda>f st.
       with_field f ''userID'' st (\<lambda>userID.
         case GetUser (dba env) userID (db st) of
           Inl e \<Rightarrow> (Err e, st)
         | Inr u \<Rightarrow>
             (case GetActiveBanByUserID (dba env) (user_ID u) (db st) of
                Inl e \<Rightarrow> (Err e, st)
              | Inr None \<Rightarrow> (Panic, st)
              | Inr (Some b) \<Rightarrow> db_done (RevokeBan (dba env) (ban_ID b) (db st)) st)))"


section \<open>Logon\<close>

fun logonErrCode :: "logon_code \<Rightarrow> 32 word" where
  "logonErrCode LogonBadCredentialsFormat = ErrInvalidMessageFormat"
| "logonErrCode LogonInvalidUser = ErrInvalidUserID"
| "logonErrCode LogonInvalidPassword = ErrInvalidPassword"
| "logonErrCode LogonRefused = ErrConnectionRefused"
| "logonErrCode _ = ErrServerInternalError"

definition extractFromList :: "lvalue list \<Rightarrow> logon_credentials go" where
  "extractFromList vs =
     (case vs of
        a # b # c # _ \<Rightarrow>
          nopanic (StringValue a) (\<lambda>movieID.
          nopanic (StringValue b) (\<lambda>userID.
          nopanic (StringValue c) (\<lambda>password.
            Ok \<lparr>cr_MovieID = movieID, cr_UserID = userID, cr_Password = password\<rparr>)))
      | _ \<Rightarrow> Err ErrInvalidCredentials)"

definition extractFromPropList :: "lvalue list \<Rightarrow> lvalue list \<Rightarrow> logon_credentials go" where
  "extractFromPropList ps vs =
     go_bind (GetElement ps vs ''userID'') (\<lambda>userVal.
     go_bind (GetElement ps vs ''password'') (\<lambda>passVal.
     nopanic (StringValue userVal) (\<lambda>userID.
     nopanic (StringValue passVal) (\<lambda>password.
     nopanic (optional_string ps vs ''movieID'') (\<lambda>movieID.
       Ok \<lparr>cr_MovieID = movieID, cr_UserID = userID, cr_Password = password\<rparr>)))))"

definition extractCredentials :: "lvalue option \<Rightarrow> logon_credentials go" where
  "extractCredentials content =
     (case content of
        Some (LList vs) \<Rightarrow> extractFromList vs
      | Some (LPropList ps vs) \<Rightarrow> extractFromPropList ps vs
      | _ \<Rightarrow> Err ErrInvalidCredentials)"

definition logon_of :: "('tk, 'd) sys_env \<Rightarrow> ('tk, 'd) sys_state \<Rightarrow> 'tk logon_service" where
  "logon_of env st =
     \<lparr>db_GetUser = (\<lambda>u. GetUser (dba env) u (db st)),
      db_GetActiveBan = (\<lambda>i. GetActiveBanByUserID (dba env) i (db st)),
      bcrypt_matches = bcrypt_check env, validate = tokenValidate env, has_writer = hasWriter env,
      mode = authMode env, defaultLevel = logonLevel env\<rparr>"

text \<open>What follows the call of the logon service: the error response, or the movie is joined.\<close>

definition finish_logon :: "('tk, 'd) sys_env \<Rightarrow> logon_result \<Rightarrow> ('tk, 'd) sys_state \<Rightarrow> ('tk, 'd) reply" where
  "finish_logon env res st =
     (if Code res \<noteq> LogonOK
      then (Ok (NewResponse (env_now env) ''Logon'' ''System'' [rs_UserID res]
              (logonErrCode (Code res)) (Some LVoid)), st)
      else
        (let st1 = (if rs_MovieID res \<noteq> []
                    then (let j = JoinMovie (rs_MovieID res) (rs_UserID res) st
                          in j\<lparr>sessions := SetUserAttribute (rs_UserID res) ''#movieID''
                                 (LString (rs_MovieID res)) (sessions j)\<rparr>)
                    else st)
         in (Ok (NewResponse (env_now env) ''Logon'' ''System'' [rs_UserID res]
                ErrNoError (Some LVoid)), st1)))"

text \<open>The first statement formats the content for the log, which calls \<open>String\<close> on it: nil content, or
  a nil field inside it, panics there.\<close>

definition handleLogon :: "('tk, 'd) sys_env \<Rightarrow> string \<Rightarrow> mus_message \<Rightarrow> ('tk, 'd) sys_state \<Rightarrow> ('tk, 'd) reply" where
  "handleLogon env connectionID msg st =
     (case Option.bind (MsgContent msg) String of
        None \<Rightarrow> (Panic, st)
      | Some _ \<Rightarrow>
          (case extractCredentials (MsgContent msg) of
             Panic \<Rightarrow> (Panic, st)
           | cred \<Rightarrow>
               (let req = \<lparr>ConnectionID = connectionID, rq_SenderID = Value (SenderID msg),
                           Credentials = (case cred of Ok c \<Rightarrow> Some c | _ \<Rightarrow> None)\<rparr>;
                    (res, st1) = Logon (logon_of env st) (env_now env) req st
                in finish_logon env res st1)))"


section \<open>The command table\<close>

definition handlers :: "('tk, 'd) sys_env \<Rightarrow>
    (string \<times> (string \<Rightarrow> mus_message \<Rightarrow> ('tk, 'd) sys_state \<Rightarrow> ('tk, 'd) reply)) list" where
  "handlers env =
     [(''Logon'', handleLogon env),
      (''system.server.getVersion'', handleServerGetVersion env),
      (''system.server.getTime'', handleServerGetTime env),
      (''system.server.getUserCount'', handleServerGetUserCount env),
      (''system.server.getMovieCount'', handleServerGetMovieCount env),
      (''system.server.getMovies'', handleServerGetMovies env),
      (''system.movie.getUserCount'', handleMovieGetUserCount env),
      (''system.movie.getGroups'', handleMovieGetGroups env),
      (''system.movie.getGroupCount'', handleMovieGetGroupCount env),
      (''system.group.join'', handleGroupJoin env),
      (''JoinGroup'', handleGroupJoin env),
      (''system.group.leave'', handleGroupLeave env),
      (''LeaveGroup'', handleGroupLeave env),
      (''system.group.getUsers'', handleGroupGetUsers env),
      (''system.group.getUserCount'', handleGroupGetUserCount env),
      (''system.group.setAttribute'', handleGroupSetAttribute env),
      (''system.group.getAttribute'', handleGroupGetAttribute env),
      (''system.group.deleteAttribute'', handleGroupDeleteAttribute env),
      (''system.group.getAttributeNames'', handleGroupGetAttributeNames env),
      (''system.user.getAddress'', handleUserGetAddress env),
      (''system.user.getGroups'', handleUserGetGroups env),
      (''system.user.delete'', handleUserDelete env),
      (''DBPlayer.getAttribute'', handleDBPlayerGetAttribute env),
      (''DBPlayer.setAttribute'', handleDBPlayerSetAttribute env),
      (''DBPlayer.deleteAttribute'', handleDBPlayerDeleteAttribute env),
      (''DBPlayer.getAttributeNames'', handleDBPlayerGetAttributeNames env),
      (''DBApplication.getAttribute'', handleDBApplicationGetAttribute env),
      (''DBApplication.setAttribute'', handleDBApplicationSetAttribute env),
      (''DBApplication.deleteAttribute'', handleDBApplicationDeleteAttribute env),
      (''DBApplication.getAttributeNames'', handleDBApplicationGetAttributeNames env),
      (''DBAdmin.createApplication'', handleDBAdminCreateApplication env),
      (''DBAdmin.deleteApplication'', handleDBAdminDeleteApplication env),
      (''DBAdmin.createUser'', handleDBAdminCreateUser env),
      (''DBAdmin.deleteUser'', handleDBAdminDeleteUser env),
      (''DBAdmin.getUserCount'', handleDBAdminGetUserCount env),
      (''DBAdmin.ban'', handleDBAdminBan env),
      (''DBAdmin.revokeBan'', handleDBAdminRevokeBan env),
      (''system.server.sendEmail'', handleServerSendEmail env),
      (''system.server.setKillTimer'', handleServerSetKillTimer env),
      (''system.server.cancelKillTimer'', handleServerCancelKillTimer env),
      (''system.user.setKillTimer'', handleUserSetKillTimer env),
      (''system.user.cancelKillTimer'', handleUserCancelKillTimer env)]"

definition Handle :: "('tk, 'd) sys_env \<Rightarrow> string \<Rightarrow> mus_message \<Rightarrow> ('tk, 'd) sys_state \<Rightarrow> ('tk, 'd) reply" where
  "Handle env senderID msg st =
     (case map_of (handlers env) (Value (Subject msg)) of
        Some h \<Rightarrow> h senderID msg st
      | None \<Rightarrow> refuse env senderID msg ErrInvalidServerCommand st)"

end
