(* ===== verification/SystemProps.thy ===== *)
theory SystemProps
  imports SystemService
begin

text \<open>
  What the system commands do to the state: they keep the invariants of the session store and the pool,
  only Logon changes a user level, and commands above the sender's level do nothing.  The proofs go
  through one rule per recurring step of the handlers, collected in \<open>handler_intros\<close> (a predicate of
  the state left behind) and \<open>no_panic_intros\<close>.
\<close>

named_theorems handler_intros \<open>the state a handler leaves, step by step\<close>
named_theorems no_panic_intros \<open>a handler does not panic, step by step\<close>


section \<open>Rules for the steps\<close>

text \<open>The state after a handler has a property.\<close>

definition leaves :: "('s \<Rightarrow> bool) \<Rightarrow> 'a \<times> 's \<Rightarrow> bool" where
  "leaves P r \<longleftrightarrow> P (snd r)"

lemma leaves_respond [handler_intros]: "P st \<Longrightarrow> leaves P (respond env s m c v st)"
  by (simp add: leaves_def respond_def)

lemma leaves_with_arg [handler_intros]:
  "P st \<Longrightarrow> (\<And>x. leaves P (k x)) \<Longrightarrow> leaves P (with_arg env s m st k)"
  by (simp add: leaves_def with_arg_def respond_def split: go.splits)

lemma leaves_with_plist [handler_intros]:
  "P st \<Longrightarrow> (\<And>ps vs. leaves P (k ps vs)) \<Longrightarrow> leaves P (with_plist env s m st k)"
  by (simp add: leaves_def with_plist_def respond_def split: option.splits lvalue.splits)

lemma leaves_with_element [handler_intros]:
  "P st \<Longrightarrow> (\<And>v. leaves P (k v)) \<Longrightarrow> leaves P (with_element env s m st ps vs name k)"
  by (simp add: leaves_def with_element_def respond_def split: go.splits)

lemma leaves_with_string [handler_intros]: "P st \<Longrightarrow> (\<And>x. leaves P (k x)) \<Longrightarrow> leaves P (with_string v st k)"
  by (simp add: leaves_def with_string_def split: option.splits)

lemma leaves_with_movieID [handler_intros]:
  "P st \<Longrightarrow> (\<And>x. leaves P (k x)) \<Longrightarrow> leaves P (with_movieID env s m st k)"
  by (simp add: leaves_def with_movieID_def respond_def split: option.splits)

lemma leaves_with_movie [handler_intros]:
  "P st \<Longrightarrow> (\<And>x mv. leaves P (k x mv)) \<Longrightarrow> leaves P (with_movie env s m st k)"
  by (simp add: leaves_def with_movie_def with_movieID_def respond_def split: option.splits)

lemma leaves_with_group [handler_intros]:
  "P st \<Longrightarrow> (\<And>x mv g. leaves P (k x mv g)) \<Longrightarrow> leaves P (with_group env s m st name k)"
  by (simp add: leaves_def with_group_def with_movie_def with_movieID_def respond_def split: option.splits)

lemma leaves_with_field [handler_intros]: "P st \<Longrightarrow> (\<And>x. leaves P (k x)) \<Longrightarrow> leaves P (with_field f name st k)"
  by (simp add: leaves_def with_field_def split: option.splits)

lemma leaves_if_owner [handler_intros]: "P st \<Longrightarrow> (\<And>x. leaves P (k x)) \<Longrightarrow> leaves P (if_owner env s f st k)"
  by (simp add: leaves_def if_owner_def with_field_def split: option.splits)

lemma leaves_db_results [handler_intros]:
  "P st \<Longrightarrow> leaves P (db_value r st)" "P st \<Longrightarrow> leaves P (db_names q st)"
  by (simp_all add: leaves_def db_value_def db_names_def)

lemma leaves_handleDBCommand [handler_intros]:
  "P st \<Longrightarrow> (\<And>f. leaves P (action f st)) \<Longrightarrow> leaves P (handleDBCommand env s m req action st)"
  by (auto simp: leaves_def handleDBCommand_def respond_def split: go.splits prod.splits) (metis snd_conv)+

lemma leaves_case_go_pair [handler_intros]:
  "leaves P r \<Longrightarrow> leaves P (case r of (Ok _, st2) \<Rightarrow> respond env s m c v st2 | (_, st2) \<Rightarrow> respond env s m c' v' st2)"
  by (cases r; cases "fst r") (auto simp: leaves_def respond_def)

lemma leaves_Pair [handler_intros]: "P st \<Longrightarrow> leaves P (x, st)"
  by (simp add: leaves_def)

lemma leaves_if [handler_intros]: "leaves P a \<Longrightarrow> leaves P b \<Longrightarrow> leaves P (if c then a else b)"
  by (simp add: leaves_def)

lemma leaves_case_option [handler_intros]:
  "leaves P a \<Longrightarrow> (\<And>x. leaves P (b x)) \<Longrightarrow> leaves P (case x of None \<Rightarrow> a | Some y \<Rightarrow> b y)"
  by (simp add: leaves_def split: option.splits)

lemma leaves_case_sum [handler_intros]:
  "(\<And>x. leaves P (a x)) \<Longrightarrow> (\<And>x. leaves P (b x)) \<Longrightarrow> leaves P (case x of Inl y \<Rightarrow> a y | Inr y \<Rightarrow> b y)"
  by (simp add: leaves_def split: sum.splits)


section \<open>Invariant\<close>

definition sys_ok :: "('tk, 'z) mus_state_scheme \<Rightarrow> bool" where
  "sys_ok st \<longleftrightarrow> session_ok (sessions st) \<and> pool_ok (pool st)"

text \<open>Handlers other than those of Logon and of \<open>system.user.delete\<close> leave the pool and every attribute
  alone; they may move clients between rooms.\<close>

definition quiet :: "('tk, 'z) mus_state_scheme \<Rightarrow> ('tk, 'z) mus_state_scheme \<Rightarrow> bool" where
  "quiet st st' \<longleftrightarrow> (sys_ok st \<longrightarrow> sys_ok st') \<and> pool st' = pool st \<and>
     connections (sessions st') = connections (sessions st) \<and> attributes (sessions st') = attributes (sessions st)"

lemma quiet_refl [handler_intros]: "quiet st st"
  by (simp add: quiet_def)

lemma quiet_put_group [handler_intros]: "quiet st (put_group m mv n g st)"
  by (simp add: quiet_def sys_ok_def put_group_def)

lemma quiet_JoinGroup [handler_intros]: "quiet st st' \<Longrightarrow> leaves (quiet st) (JoinGroup m g u st')"
  by (auto simp: leaves_def quiet_def sys_ok_def JoinGroup_def JoinRoom_def ss.inv_join [unfolded JoinRoom_def])

lemma quiet_LeaveGroup [handler_intros]: "quiet st (LeaveGroup m g u st)"
  by (auto simp: quiet_def sys_ok_def LeaveGroup_def) (simp_all add: LeaveRoom_def)

lemma quiet_db_done [handler_intros]: "leaves (quiet st) (db_done r st)"
  by (simp add: leaves_def quiet_def sys_ok_def db_done_def)

lemma quiet_updates [handler_intros]:
  "quiet st (st\<lparr>kill_timers := t\<rparr>)" "quiet st (st\<lparr>mails := ms\<rparr>)"
  by (simp_all add: quiet_def sys_ok_def)


lemma leaves_Let [handler_intros]: "leaves P (f x) \<Longrightarrow> leaves P (Let x f)"
  by simp

lemma quiet_put_group_if_new [handler_intros]:
  "quiet st (case x of None \<Rightarrow> put_group m mv n g st | Some y \<Rightarrow> st)"
  by (simp add: quiet_put_group quiet_refl split: option.splits)

lemmas query_handler_defs = handleServerGetVersion_def handleServerGetTime_def handleServerGetUserCount_def
  handleServerGetMovieCount_def handleServerGetMovies_def handleMovieGetUserCount_def
  handleMovieGetGroups_def handleMovieGetGroupCount_def handleGroupGetUsers_def
  handleGroupGetUserCount_def handleGroupGetAttribute_def handleGroupGetAttributeNames_def
  handleUserGetAddress_def handleUserGetGroups_def

lemmas update_handler_defs = handleServerSendEmail_def handleServerSetKillTimer_def
  handleServerCancelKillTimer_def handleGroupJoin_def handleGroupLeave_def handleGroupSetAttribute_def
  handleGroupDeleteAttribute_def handleUserSetKillTimer_def handleUserCancelKillTimer_def

lemmas db_handler_defs = handleDBPlayerGetAttribute_def handleDBPlayerSetAttribute_def
  handleDBPlayerDeleteAttribute_def handleDBPlayerGetAttributeNames_def
  handleDBApplicationGetAttribute_def handleDBApplicationSetAttribute_def
  handleDBApplicationDeleteAttribute_def handleDBApplicationGetAttributeNames_def
  handleDBAdminCreateApplication_def handleDBAdminDeleteApplication_def handleDBAdminCreateUser_def
  handleDBAdminDeleteUser_def handleDBAdminGetUserCount_def handleDBAdminBan_def handleDBAdminRevokeBan_def

lemma quiet_queries:
  "leaves (quiet st) (handleServerGetVersion env s m st)"
  "leaves (quiet st) (handleServerGetTime env s m st)"
  "leaves (quiet st) (handleServerGetUserCount env s m st)"
  "leaves (quiet st) (handleServerGetMovieCount env s m st)"
  "leaves (quiet st) (handleServerGetMovies env s m st)"
  "leaves (quiet st) (handleMovieGetUserCount env s m st)"
  "leaves (quiet st) (handleMovieGetGroups env s m st)"
  "leaves (quiet st) (handleMovieGetGroupCount env s m st)"
  "leaves (quiet st) (handleGroupGetUsers env s m st)"
  "leaves (quiet st) (handleGroupGetUserCount env s m st)"
  "leaves (quiet st) (handleGroupGetAttribute env s m st)"
  "leaves (quiet st) (handleGroupGetAttributeNames env s m st)"
  "leaves (quiet st) (handleUserGetAddress env s m st)"
  "leaves (quiet st) (handleUserGetGroups env s m st)"
  unfolding query_handler_defs by (intro handler_intros)+

lemma quiet_updaters:
  "leaves (quiet st) (handleServerSendEmail env s m st)"
  "leaves (quiet st) (handleServerSetKillTimer env s m st)"
  "leaves (quiet st) (handleServerCancelKillTimer env s m st)"
  "leaves (quiet st) (handleGroupJoin env s m st)"
  "leaves (quiet st) (handleGroupLeave env s m st)"
  "leaves (quiet st) (handleGroupSetAttribute env s m st)"
  "leaves (quiet st) (handleGroupDeleteAttribute env s m st)"
  "leaves (quiet st) (handleUserSetKillTimer env s m st)"
  "leaves (quiet st) (handleUserCancelKillTimer env s m st)"
  unfolding update_handler_defs by (intro handler_intros)+

lemma quiet_db:
  "leaves (quiet st) (handleDBPlayerGetAttribute env s m st)"
  "leaves (quiet st) (handleDBPlayerSetAttribute env s m st)"
  "leaves (quiet st) (handleDBPlayerDeleteAttribute env s m st)"
  "leaves (quiet st) (handleDBPlayerGetAttributeNames env s m st)"
  "leaves (quiet st) (handleDBApplicationGetAttribute env s m st)"
  "leaves (quiet st) (handleDBApplicationSetAttribute env s m st)"
  "leaves (quiet st) (handleDBApplicationDeleteAttribute env s m st)"
  "leaves (quiet st) (handleDBApplicationGetAttributeNames env s m st)"
  "leaves (quiet st) (handleDBAdminCreateApplication env s m st)"
  "leaves (quiet st) (handleDBAdminDeleteApplication env s m st)"
  "leaves (quiet st) (handleDBAdminCreateUser env s m st)"
  "leaves (quiet st) (handleDBAdminDeleteUser env s m st)"
  "leaves (quiet st) (handleDBAdminGetUserCount env s m st)"
  "leaves (quiet st) (handleDBAdminBan env s m st)"
  "leaves (quiet st) (handleDBAdminRevokeBan env s m st)"
  unfolding db_handler_defs by (intro handler_intros)+

section \<open>Eviction and logon\<close>

lemma evict_simps [simp]:
  "pool (evict w c st) = pool st" "movies (evict w c st) = movies st" "tokens (evict w c st) = tokens st"
  "sessions (evict w c st) = UnregisterConnection c (LeaveAllRooms c (sessions st))"
  by (simp_all add: evict_def Let_def)

lemma sys_ok_evict: "sys_ok st \<Longrightarrow> sys_ok (evict w c st)"
  by (simp add: sys_ok_def)

lemma UserLevel_evict:
  "UserLevel (UnregisterConnection c (LeaveAllRooms c s)) u = (if u = c then 0 else UserLevel s u)"
  by (simp add: UserLevel_def sa.get_clear) (simp add: GetUserAttribute_def)

lemma sys_ok_establishSession:
  assumes "sys_ok st"
  shows "sys_ok (snd (establishSession s now c u mv l st))"
proof (cases "establishSession s now c u mv l st")
  case (Pair r st')
  show ?thesis
  proof (cases "Code r = LogonOK")
    case True
    then show ?thesis
      using establishSession_OK [OF Pair True] Pair assms pool_ok_Remap [of "pool st" c u]
      by (cases "has_writer s") (auto simp: sys_ok_def session_ok_logged_on)
  next
    case False
    then show ?thesis using establishSession_refused [OF Pair False] Pair assms by simp
  qed
qed

lemma sys_ok_Logon: "sys_ok st \<Longrightarrow> sys_ok (snd (Logon s now req st))"
  using sys_ok_establishSession [where st = "st\<lparr>tokens := tk\<rparr>" for tk]
  by (simp add: Logon_unfold sys_ok_def split: prod.splits sum.splits)

lemma sys_ok_JoinMovie: "sys_ok st \<Longrightarrow> sys_ok (JoinMovie m u st)"
  by (simp add: sys_ok_def JoinMovie_def Let_def)

lemma sys_ok_updates [simp]:
  "sys_ok (st\<lparr>tokens := tk\<rparr>) = sys_ok st" "sys_ok (st\<lparr>net := n\<rparr>) = sys_ok st" "sys_ok (st\<lparr>movies := mv\<rparr>) = sys_ok st"
  by (simp_all add: sys_ok_def)

lemma sys_ok_attribute: "sys_ok st \<Longrightarrow> sys_ok (st\<lparr>sessions := SetUserAttribute c a v (sessions st)\<rparr>)"
  by (simp add: sys_ok_def)

lemma leaves_handleLogon_steps:
  assumes "P st"
    and logon: "\<And>req. ConnectionID req = c \<Longrightarrow> P (snd (Logon (logon_of env st) (env_now env) req st))"
    and movie: "\<And>st1 mv u v. P st1 \<Longrightarrow>
      P ((JoinMovie mv u st1)\<lparr>sessions := SetUserAttribute u ''#movieID'' v (sessions (JoinMovie mv u st1))\<rparr>)"
  shows "leaves P (handleLogon env c m st)"
proof -
  have fin: "leaves P (finish_logon env res st1)" if "P st1" for res st1
    using that movie by (simp add: leaves_def finish_logon_def Let_def)
  have "leaves P (case Logon (logon_of env st) (env_now env) req st of (res, st1) \<Rightarrow> finish_logon env res st1)"
    if "ConnectionID req = c" for req
    using fin logon [OF that] by (simp add: case_prod_unfold)
  then show ?thesis
    using assms(1) by (auto simp: leaves_Pair handleLogon_def split: option.splits go.splits)
qed

lemma leaves_handleLogon:
  assumes "sys_ok st"
  shows "leaves sys_ok (handleLogon env c m st)"
  using assms by (intro leaves_handleLogon_steps sys_ok_Logon sys_ok_attribute sys_ok_JoinMovie)

lemma leaves_handleUserDelete:
  "(\<And>c. P (evict (hasWriter env) c st)) \<Longrightarrow> P st \<Longrightarrow> leaves P (handleUserDelete env s m st)"
  unfolding handleUserDelete_def by (intro handler_intros)

lemma quiet_UserLevel: "quiet st st' \<Longrightarrow> UserLevel (sessions st') u = UserLevel (sessions st) u"
  by (simp add: quiet_def UserLevel_def GetUserAttribute_def)


section \<open>The command table\<close>

lemma handlers_quiet:
  assumes "(subj, h) \<in> set (handlers env)" and "subj \<noteq> ''Logon''" and "subj \<noteq> ''system.user.delete''"
  shows "leaves (quiet st) (h s m st)"
  using assms by (simp add: handlers_def) (elim disjE; simp add: quiet_queries quiet_updaters quiet_db)

lemma handlers_special:
  "map_of (handlers env) ''Logon'' = Some (handleLogon env)"
  "map_of (handlers env) ''system.user.delete'' = Some (handleUserDelete env)"
  by (simp_all add: handlers_def)

lemma leaves_Handle:
  assumes "P st" and "\<And>st'. quiet st st' \<Longrightarrow> P st'" and "\<And>c. P (evict (hasWriter env) c st)"
    and "Value (Subject m) = ''Logon'' \<Longrightarrow> leaves P (handleLogon env s m st)"
  shows "leaves P (Handle env s m st)"
proof (cases "map_of (handlers env) (Value (Subject m))")
  case None
  then show ?thesis using assms(1) by (simp add: Handle_def leaves_respond)
next
  case (Some h)
  consider "Value (Subject m) = ''Logon''" | "Value (Subject m) = ''system.user.delete''"
    | "Value (Subject m) \<noteq> ''Logon''" "Value (Subject m) \<noteq> ''system.user.delete''" by blast
  then have "leaves P (h s m st)"
  proof cases
    case 1
    then show ?thesis using Some assms(4) by (simp add: handlers_special)
  next
    case 2
    then show ?thesis using Some assms(1,3) by (simp add: handlers_special) (metis leaves_handleUserDelete)
  next
    case 3
    then show ?thesis
      using handlers_quiet [OF map_of_SomeD [OF Some] 3] assms(2) by (simp add: leaves_def)
  qed
  then show ?thesis using Some by (simp add: Handle_def)
qed

section \<open>Which commands consult the level table\<close>

text \<open>The subjects whose handler starts with a \<open>CanRun\<close> check.\<close>

definition restricted :: "string list" where
  "restricted =
     [''system.user.delete'', ''DBPlayer.getAttribute'', ''DBPlayer.setAttribute'', ''DBPlayer.deleteAttribute'',
      ''DBPlayer.getAttributeNames'', ''DBApplication.getAttribute'', ''DBApplication.setAttribute'',
      ''DBApplication.deleteAttribute'', ''DBApplication.getAttributeNames'', ''DBAdmin.createApplication'',
      ''DBAdmin.deleteApplication'', ''DBAdmin.createUser'', ''DBAdmin.deleteUser'', ''DBAdmin.getUserCount'',
      ''DBAdmin.ban'', ''DBAdmin.revokeBan'', ''system.server.sendEmail'', ''system.server.setKillTimer'',
      ''system.server.cancelKillTimer'', ''system.user.setKillTimer'', ''system.user.cancelKillTimer'']"

definition refuses :: "('tk, 'd) sys_env \<Rightarrow>
    (string \<Rightarrow> mus_message \<Rightarrow> ('tk, 'd) sys_state \<Rightarrow> ('tk, 'd) reply) \<Rightarrow> bool" where
  "refuses env h \<longleftrightarrow>
     (\<forall>s m st. \<not> CanRun (commandLevels env) (sessions st) s (Value (Subject m)) \<longrightarrow>
        h s m st = refuse env s m ErrInvalidServerCommand st)"

lemma refuses_guarded:
  "refuses env (handleUserDelete env)" "refuses env (handleServerSendEmail env)"
  "refuses env (handleServerSetKillTimer env)" "refuses env (handleServerCancelKillTimer env)"
  "refuses env (handleUserSetKillTimer env)" "refuses env (handleUserCancelKillTimer env)"
  by (simp_all add: refuses_def handleUserDelete_def update_handler_defs)

lemma refuses_db:
  "refuses env (handleDBPlayerGetAttribute env)" "refuses env (handleDBPlayerSetAttribute env)"
  "refuses env (handleDBPlayerDeleteAttribute env)" "refuses env (handleDBPlayerGetAttributeNames env)"
  "refuses env (handleDBApplicationGetAttribute env)" "refuses env (handleDBApplicationSetAttribute env)"
  "refuses env (handleDBApplicationDeleteAttribute env)" "refuses env (handleDBApplicationGetAttributeNames env)"
  "refuses env (handleDBAdminCreateApplication env)" "refuses env (handleDBAdminDeleteApplication env)"
  "refuses env (handleDBAdminCreateUser env)" "refuses env (handleDBAdminDeleteUser env)"
  "refuses env (handleDBAdminGetUserCount env)" "refuses env (handleDBAdminBan env)"
  "refuses env (handleDBAdminRevokeBan env)"
  by (simp_all add: refuses_def db_handler_defs handleDBCommand_def)

lemma handlers_refuse:
  assumes "(subj, h) \<in> set (handlers env)" and "subj \<in> set restricted"
  shows "refuses env h"
  using assms(1) unfolding handlers_def
  apply simp
  apply (elim disjE conjE; (simp add: refuses_guarded refuses_db; fail)?)
  using assms(2) by (simp_all add: restricted_def)

lemma restricted_handled:
  assumes "subj \<in> set restricted"
  shows "map_of (handlers env) subj \<noteq> None"
proof -
  have "set restricted \<subseteq> set (map fst (handlers env))"
    by (simp add: restricted_def handlers_def)
  then show ?thesis using assms by (auto simp: map_of_eq_None_iff)
qed

text \<open>The other handlers never read the table.\<close>

lemma respond_ignores_levels: "respond (env\<lparr>commandLevels := l\<rparr>) = respond env"
  by (intro ext) (simp add: respond_def)

lemma logon_ignores_levels:
  "logon_of (env\<lparr>commandLevels := l\<rparr>) = logon_of env" "env_now (env\<lparr>commandLevels := l\<rparr>) = env_now env"
  by (simp_all add: fun_eq_iff logon_of_def)

lemma steps_ignore_levels:
  "with_arg (env\<lparr>commandLevels := l\<rparr>) = with_arg env"
  "with_plist (env\<lparr>commandLevels := l\<rparr>) = with_plist env"
  "with_element (env\<lparr>commandLevels := l\<rparr>) = with_element env"
  "with_movieID (env\<lparr>commandLevels := l\<rparr>) = with_movieID env"
  unfolding with_arg_def with_plist_def with_element_def with_movieID_def respond_ignores_levels by (rule refl)+

lemma movie_steps_ignore_levels:
  "with_movie (env\<lparr>commandLevels := l\<rparr>) = with_movie env"
  "with_group (env\<lparr>commandLevels := l\<rparr>) = with_group env"
  unfolding with_group_def with_movie_def steps_ignore_levels respond_ignores_levels by (rule refl)+

lemma ignores_levels:
  "handleServerGetVersion (env\<lparr>commandLevels := l\<rparr>) = handleServerGetVersion env"
  "handleServerGetTime (env\<lparr>commandLevels := l\<rparr>) = handleServerGetTime env"
  "handleServerGetUserCount (env\<lparr>commandLevels := l\<rparr>) = handleServerGetUserCount env"
  "handleServerGetMovieCount (env\<lparr>commandLevels := l\<rparr>) = handleServerGetMovieCount env"
  "handleServerGetMovies (env\<lparr>commandLevels := l\<rparr>) = handleServerGetMovies env"
  "handleMovieGetUserCount (env\<lparr>commandLevels := l\<rparr>) = handleMovieGetUserCount env"
  "handleMovieGetGroups (env\<lparr>commandLevels := l\<rparr>) = handleMovieGetGroups env"
  "handleMovieGetGroupCount (env\<lparr>commandLevels := l\<rparr>) = handleMovieGetGroupCount env"
  "handleGroupGetUsers (env\<lparr>commandLevels := l\<rparr>) = handleGroupGetUsers env"
  "handleGroupGetUserCount (env\<lparr>commandLevels := l\<rparr>) = handleGroupGetUserCount env"
  "handleGroupGetAttribute (env\<lparr>commandLevels := l\<rparr>) = handleGroupGetAttribute env"
  "handleGroupGetAttributeNames (env\<lparr>commandLevels := l\<rparr>) = handleGroupGetAttributeNames env"
  "handleUserGetAddress (env\<lparr>commandLevels := l\<rparr>) = handleUserGetAddress env"
  "handleUserGetGroups (env\<lparr>commandLevels := l\<rparr>) = handleUserGetGroups env"
  "handleGroupJoin (env\<lparr>commandLevels := l\<rparr>) = handleGroupJoin env"
  "handleGroupLeave (env\<lparr>commandLevels := l\<rparr>) = handleGroupLeave env"
  "handleGroupSetAttribute (env\<lparr>commandLevels := l\<rparr>) = handleGroupSetAttribute env"
  "handleGroupDeleteAttribute (env\<lparr>commandLevels := l\<rparr>) = handleGroupDeleteAttribute env"
  "handleLogon (env\<lparr>commandLevels := l\<rparr>) = handleLogon env"
  unfolding query_handler_defs update_handler_defs handleLogon_def finish_logon_def logon_ignores_levels steps_ignore_levels
    movie_steps_ignore_levels respond_ignores_levels
  by (rule refl)+

lemma handlers_ignore_levels:
  assumes "subj \<notin> set restricted"
  shows "map_of (handlers (env\<lparr>commandLevels := l\<rparr>)) subj = map_of (handlers env) subj"
  using assms unfolding handlers_def ignores_levels by (simp add: restricted_def)

section \<open>Handlers answer\<close>

text \<open>A handler answers when it does not panic.  Content is sound when every property list in it is
  aligned and no field is nil; the rules carry that down to the elements a handler reads.\<close>

definition answers :: "'a go \<times> 's \<Rightarrow> bool" where
  "answers r \<longleftrightarrow> fst r \<noteq> Panic"

definition sound :: "lvalue \<Rightarrow> bool" where
  "sound v \<longleftrightarrow> aligned v \<and> no_nil v"

definition sound_plist :: "lvalue list \<Rightarrow> lvalue list \<Rightarrow> bool" where
  "sound_plist ps vs \<longleftrightarrow> length ps = length vs \<and> (\<forall>v \<in> set ps. sound v) \<and> (\<forall>v \<in> set vs. sound v)"

definition has_fields :: "string list \<Rightarrow> lvalue gomap \<Rightarrow> bool" where
  "has_fields names f \<longleftrightarrow> (\<forall>name \<in> set names. \<exists>v. map_of f name = Some v \<and> sound v)"

lemma sound_StringValue: "sound v \<Longrightarrow> \<exists>x. StringValue v = Some x"
  using String_defined [of v] by (cases v) (auto simp: sound_def)

lemma find_prop_sound:
  "length ps = length vs \<Longrightarrow> \<forall>v \<in> set ps. sound v \<Longrightarrow> \<forall>v \<in> set vs. sound v \<Longrightarrow>
     find_prop name ps vs \<noteq> Panic \<and> (\<forall>v. find_prop name ps vs = Ok v \<longrightarrow> sound v)"
proof (induction ps vs rule: list_induct2)
  case (Cons p ps v vs)
  have "aligned p" "no_nil p" using Cons.prems(1) by (simp_all add: sound_def)
  then obtain x where x: "String p = Some x" using String_defined [of p] by blast
  have rest: "find_prop name ps vs \<noteq> Panic \<and> (\<forall>w. find_prop name ps vs = Ok w \<longrightarrow> sound w)"
    using Cons.IH Cons.prems by simp
  have "sound v" using Cons.prems(2) by simp
  then show ?case using rest by (simp add: x)
qed simp

lemma GetElement_sound:
  "sound_plist ps vs \<Longrightarrow> GetElement ps vs name \<noteq> Panic"
  "sound_plist ps vs \<Longrightarrow> GetElement ps vs name = Ok v \<Longrightarrow> sound v"
  using find_prop_sound [of ps vs name] by (auto simp: GetElement_def sound_plist_def)

lemma sound_LPropList: "sound (LPropList ps vs) \<Longrightarrow> sound_plist ps vs"
  by (auto simp: sound_def sound_plist_def)

lemma ExtractString_answers: "ExtractString v \<noteq> Panic"
  by (induction v rule: ExtractString.induct) simp_all

lemma answers_respond [no_panic_intros]: "answers (respond env s m c v st)"
  by (simp add: answers_def respond_def)

lemma answers_with_arg [no_panic_intros]: "(\<And>x. answers (k x)) \<Longrightarrow> answers (with_arg env s m st k)"
  using ExtractString_answers
  by (auto simp: answers_def with_arg_def respond_def extract_string_arg_def split: go.splits option.splits)

lemma answers_with_plist [no_panic_intros]:
  "\<forall>v \<in> set_option (MsgContent m). sound v \<Longrightarrow> (\<And>ps vs. sound_plist ps vs \<Longrightarrow> answers (k ps vs)) \<Longrightarrow>
     answers (with_plist env s m st k)"
  by (auto simp: answers_def with_plist_def respond_def dest!: sound_LPropList split: option.splits lvalue.splits)

lemma answers_with_element [no_panic_intros]:
  "sound_plist ps vs \<Longrightarrow> (\<And>v. sound v \<Longrightarrow> answers (k v)) \<Longrightarrow> answers (with_element env s m st ps vs name k)"
  using GetElement_sound [of ps vs name]
  by (auto simp: answers_def with_element_def respond_def split: go.splits)

lemma answers_with_string [no_panic_intros]: "sound v \<Longrightarrow> (\<And>x. answers (k x)) \<Longrightarrow> answers (with_string v st k)"
  using sound_StringValue [of v] by (auto simp: answers_def with_string_def)

lemma answers_with_movieID [no_panic_intros]: "(\<And>x. answers (k x)) \<Longrightarrow> answers (with_movieID env s m st k)"
  by (simp add: answers_def with_movieID_def respond_def split: option.splits)

lemma answers_with_movie [no_panic_intros]: "(\<And>x mv. answers (k x mv)) \<Longrightarrow> answers (with_movie env s m st k)"
  by (simp add: answers_def with_movie_def with_movieID_def respond_def split: option.splits)

lemma answers_with_group [no_panic_intros]:
  "(\<And>x mv g. answers (k x mv g)) \<Longrightarrow> answers (with_group env s m st name k)"
  by (simp add: answers_def with_group_def with_movie_def with_movieID_def respond_def split: option.splits)

lemma answers_with_field [no_panic_intros]:
  "has_fields names f \<Longrightarrow> name \<in> set names \<Longrightarrow> (\<And>x. answers (k x)) \<Longrightarrow> answers (with_field f name st k)"
  using sound_StringValue by (fastforce simp: answers_def with_field_def has_fields_def)

lemma answers_case_field [no_panic_intros]:
  "has_fields names f \<Longrightarrow> name \<in> set names \<Longrightarrow> (\<And>v. answers (k v)) \<Longrightarrow>
     answers (case map_of f name of None \<Rightarrow> p | Some v \<Rightarrow> k v)"
  by (fastforce simp: has_fields_def)

lemma answers_if_owner [no_panic_intros]:
  "has_fields names f \<Longrightarrow> ''userID'' \<in> set names \<Longrightarrow> (\<And>x. answers (k x)) \<Longrightarrow> answers (if_owner env s f st k)"
  unfolding if_owner_def by (rule answers_with_field) (auto simp: answers_def)

lemma answers_db_results [no_panic_intros]:
  "answers (db_value r st)" "answers (db_names q st)" "answers (db_done d st')"
  by (simp_all add: answers_def db_value_def db_names_def db_done_def split: sum.splits option.splits)

lemma get_fields_sound:
  "sound_plist ps vs \<Longrightarrow> get_fields names ps vs \<noteq> Panic \<and>
     (\<forall>f. get_fields names ps vs = Ok f \<longrightarrow> has_fields names f)"
proof (induction names)
  case Nil
  then show ?case by (simp add: has_fields_def)
next
  case (Cons name names)
  then show ?case
    using GetElement_sound [of ps vs name]
    by (cases "GetElement ps vs name"; cases "get_fields names ps vs") (auto simp: has_fields_def)
qed

lemma command_fields_sound:
  assumes "\<forall>v \<in> set_option content. sound v"
  shows "command_fields names content \<noteq> Panic"
    and "command_fields names content = Ok f \<Longrightarrow> has_fields names f"
proof -
  have "command_fields names content \<noteq> Panic \<and> (command_fields names content = Ok f \<longrightarrow> has_fields names f)"
  proof (cases "names = [] \<or> (\<nexists>ps vs. content = Some (LPropList ps vs))")
    case True
    then show ?thesis by (auto simp: command_fields_def has_fields_def split: option.splits lvalue.splits)
  next
    case False
    then obtain ps vs where "names \<noteq> []" "content = Some (LPropList ps vs)" by blast
    then show ?thesis
      using assms get_fields_sound [OF sound_LPropList, of ps vs names] by (simp add: command_fields_def)
  qed
  then show "command_fields names content \<noteq> Panic" "command_fields names content = Ok f \<Longrightarrow> has_fields names f"
    by simp_all
qed

lemma answers_handleDBCommand [no_panic_intros]:
  assumes "\<forall>v \<in> set_option (MsgContent m). sound v" and "\<And>f. has_fields names f \<Longrightarrow> answers (action f st)"
  shows "answers (handleDBCommand env s m names action st)"
  using command_fields_sound [OF assms(1), of names] assms(2)
  by (auto simp: answers_def handleDBCommand_def respond_def split: go.splits prod.splits) (metis fst_conv)

lemma answers_if [no_panic_intros]: "answers a \<Longrightarrow> answers b \<Longrightarrow> answers (if c then a else b)"
  by simp

lemma answers_case_sum [no_panic_intros]:
  "(\<And>x. answers (a x)) \<Longrightarrow> (\<And>x. answers (b x)) \<Longrightarrow> answers (case x of Inl y \<Rightarrow> a y | Inr y \<Rightarrow> b y)"
  by (simp split: sum.splits)

lemma answers_case_go [no_panic_intros]:
  "answers (case r of (Ok _, st2) \<Rightarrow> respond env s m c v st2 | (_, st2) \<Rightarrow> respond env s m c' v' st2)"
  by (cases r; cases "fst r") (auto simp: answers_def respond_def)

lemma answers_Let [no_panic_intros]: "answers (f x) \<Longrightarrow> answers (Let x f)"
  by simp

lemma answers_case_option [no_panic_intros]:
  "answers a \<Longrightarrow> (\<And>x. answers (b x)) \<Longrightarrow> answers (case x of None \<Rightarrow> a | Some y \<Rightarrow> b y)"
  by (simp split: option.splits)

lemma answers_Ok [no_panic_intros]: "answers (Ok x, st)" "answers (Err e, st)"
  by (simp_all add: answers_def)

lemma answers_commands:
  assumes "\<forall>v \<in> set_option (MsgContent m). sound v"
  shows
    "answers (handleServerGetVersion env s m st)"
    "answers (handleServerGetTime env s m st)"
    "answers (handleServerGetUserCount env s m st)"
    "answers (handleServerGetMovieCount env s m st)"
    "answers (handleServerGetMovies env s m st)"
    "answers (handleMovieGetUserCount env s m st)"
    "answers (handleMovieGetGroups env s m st)"
    "answers (handleMovieGetGroupCount env s m st)"
    "answers (handleServerCancelKillTimer env s m st)"
    "answers (handleGroupJoin env s m st)"
    "answers (handleGroupLeave env s m st)"
    "answers (handleGroupGetUsers env s m st)"
    "answers (handleGroupGetUserCount env s m st)"
    "answers (handleGroupSetAttribute env s m st)"
    "answers (handleGroupGetAttribute env s m st)"
    "answers (handleGroupDeleteAttribute env s m st)"
    "answers (handleGroupGetAttributeNames env s m st)"
    "answers (handleUserGetAddress env s m st)"
    "answers (handleUserGetGroups env s m st)"
    "answers (handleUserSetKillTimer env s m st)"
    "answers (handleUserCancelKillTimer env s m st)"
    "answers (handleUserDelete env s m st)"
  using assms unfolding query_handler_defs update_handler_defs handleUserDelete_def
  by - (assumption | intro no_panic_intros)+

lemma answers_db:
  assumes "\<forall>v \<in> set_option (MsgContent m). sound v"
  shows
    "answers (handleDBPlayerGetAttribute env s m st)"
    "answers (handleDBPlayerSetAttribute env s m st)"
    "answers (handleDBPlayerDeleteAttribute env s m st)"
    "answers (handleDBPlayerGetAttributeNames env s m st)"
    "answers (handleDBApplicationGetAttribute env s m st)"
    "answers (handleDBApplicationSetAttribute env s m st)"
    "answers (handleDBApplicationDeleteAttribute env s m st)"
    "answers (handleDBApplicationGetAttributeNames env s m st)"
    "answers (handleDBAdminCreateApplication env s m st)"
    "answers (handleDBAdminDeleteApplication env s m st)"
    "answers (handleDBAdminCreateUser env s m st)"
    "answers (handleDBAdminDeleteUser env s m st)"
    "answers (handleDBAdminGetUserCount env s m st)"
    "answers (handleDBAdminBan env s m st)"
  using assms unfolding db_handler_defs
  by - (assumption | intro no_panic_intros | simp)+

lemma optional_string_sound: "sound_plist ps vs \<Longrightarrow> optional_string ps vs name \<noteq> None"
  using GetElement_sound [of ps vs name] sound_StringValue by (auto simp: optional_string_def split: go.splits)

lemma email_of_sound: "sound_plist ps vs \<Longrightarrow> email_of ps vs \<noteq> None"
  using optional_string_sound [of ps vs] by (simp add: email_of_def bind_eq_None_conv)

lemma answers_case_email [no_panic_intros]:
  "sound_plist ps vs \<Longrightarrow> (\<And>x. answers (k x)) \<Longrightarrow> answers (case email_of ps vs of None \<Rightarrow> p | Some x \<Rightarrow> k x)"
  using email_of_sound [of ps vs] by auto

lemma answers_sendEmail:
  assumes "\<forall>v \<in> set_option (MsgContent m). sound v"
  shows "answers (handleServerSendEmail env s m st)"
  using assms unfolding handleServerSendEmail_def
  by - (assumption | rule answers_case_email | intro no_panic_intros)+

lemma extractFromList_sound: "\<forall>v \<in> set vs. sound v \<Longrightarrow> extractFromList vs \<noteq> Panic"
  using sound_StringValue by (auto simp: extractFromList_def split: list.splits)

lemma extractFromPropList_sound: "sound_plist ps vs \<Longrightarrow> extractFromPropList ps vs \<noteq> Panic"
  using GetElement_sound [of ps vs] optional_string_sound [of ps vs] sound_StringValue
  by (auto simp: extractFromPropList_def)

lemma extractCredentials_sound: "sound v \<Longrightarrow> extractCredentials (Some v) \<noteq> Panic"
  using sound_LPropList extractFromPropList_sound extractFromList_sound
  by (cases v) (auto simp: extractCredentials_def sound_def)

lemma answers_handleLogon:
  assumes "MsgContent m = Some v" and "sound v"
  shows "answers (handleLogon env s m st)"
proof -
  obtain x where x: "String v = Some x" using assms(2) String_defined [of v] by (auto simp: sound_def)
  show ?thesis
  proof (cases "extractCredentials (Some v)")
    case Panic
    then show ?thesis using extractCredentials_sound [OF assms(2)] by simp
  qed (simp_all add: answers_def handleLogon_def finish_logon_def assms(1) x Let_def case_prod_unfold)
qed

definition ban_lookups_ok :: "'d db_adapter \<Rightarrow> bool" where
  "ban_lookups_ok d \<longleftrightarrow> (\<forall>i st. GetActiveBanByUserID d i st \<noteq> Inr None)"

lemma answers_case_ban:
  "ban_lookups_ok (dba env) \<Longrightarrow> (\<And>b. answers (k b)) \<Longrightarrow>
     answers (case GetActiveBanByUserID (dba env) i d of Inl e \<Rightarrow> (Err e, st) | Inr None \<Rightarrow> p | Inr (Some b) \<Rightarrow> k b)"
  by (auto simp: ban_lookups_ok_def answers_def split: sum.splits option.splits)

lemma answers_revokeBan:
  assumes "\<forall>v \<in> set_option (MsgContent m). sound v" and "ban_lookups_ok (dba env)"
  shows "answers (handleDBAdminRevokeBan env s m st)"
  using assms unfolding handleDBAdminRevokeBan_def
  by - (assumption | rule answers_case_ban answers_db_results answers_Ok
    | rule answers_handleDBCommand answers_with_field answers_case_sum | simp)+

lemma answers_serverKillTimer:
  "MsgContent m = Some v \<Longrightarrow> answers (handleServerSetKillTimer env s m st)"
  by (simp add: answers_def handleServerSetKillTimer_def respond_def Let_def)

lemma handlers_answer:
  assumes "(subj, h) \<in> set (handlers env)" and "MsgContent m = Some v" and "sound v" and "ban_lookups_ok (dba env)"
  shows "answers (h s m st)"
proof -
  have c: "\<forall>v \<in> set_option (MsgContent m). sound v" using assms(2,3) by simp
  note all = answers_commands [OF c] answers_db [OF c] answers_sendEmail [OF c] answers_revokeBan [OF c assms(4)]
    answers_serverKillTimer [OF assms(2)] answers_handleLogon [OF assms(2,3)]
  from assms(1) show ?thesis
    by (simp add: handlers_def) (elim disjE; simp add: all)
qed

section \<open>Requests about another user's data\<close>

text \<open>The field \<open>userID\<close> of a database command, and what \<open>get_fields\<close> makes of it.\<close>

definition names_user :: "mus_message \<Rightarrow> string \<Rightarrow> bool" where
  "names_user m u \<longleftrightarrow> (\<exists>ps vs v. MsgContent m = Some (LPropList ps vs) \<and> GetElement ps vs ''userID'' = Ok v \<and>
     StringValue v = Some u)"

lemma get_fields_lookup:
  "get_fields names ps vs = Ok f \<Longrightarrow> name \<in> set names \<Longrightarrow> \<exists>v. map_of f name = Some v \<and> GetElement ps vs name = Ok v"
  by (induction names arbitrary: f) (auto simp: go_bind_eq_Ok_iff)

lemma command_fields_user:
  assumes "command_fields names (MsgContent m) = Ok f" and "''userID'' \<in> set names" and "names_user m u"
  shows "Option.bind (map_of f ''userID'') StringValue = Some u"
proof -
  obtain ps vs v where m: "MsgContent m = Some (LPropList ps vs)"
    and v: "GetElement ps vs ''userID'' = Ok v" "StringValue v = Some u"
    using assms(3) by (auto simp: names_user_def)
  have "get_fields names ps vs = Ok f"
    using assms(1,2) m by (auto simp: command_fields_def split: if_splits)
  from get_fields_lookup [OF this assms(2)] v show ?thesis by auto
qed

definition oblivious :: "(string \<Rightarrow> mus_message \<Rightarrow> ('tk, 'd) sys_state \<Rightarrow> ('tk, 'd) reply) \<Rightarrow>
    string \<Rightarrow> mus_message \<Rightarrow> ('tk, 'd) sys_state \<Rightarrow> bool" where
  "oblivious h s m st \<longleftrightarrow> snd (h s m st) = st \<and> (\<forall>d. fst (h s m (st\<lparr>db := d\<rparr>)) = fst (h s m st))"

lemma oblivious_handleDBCommand:
  assumes "names_user m u" and "\<not> OwnerOrAdmin (commandLevels env) (sessions st) s u" and "''userID'' \<in> set names"
  shows "oblivious (\<lambda>s m. handleDBCommand env s m names (\<lambda>f st. if_owner env s f st (k f st))) s m st"
proof (cases "command_fields names (MsgContent m)")
  case (Ok f)
  then have "Option.bind (map_of f ''userID'') StringValue = Some u"
    using command_fields_user assms(1,3) by blast
  then have "if_owner env s f st' k' = (Err ErrCrossUserDenied, st')"
    if "sessions st' = sessions st" for st' k'
    using assms(2) that by (simp add: if_owner_def with_field_def)
  then show ?thesis
    by (simp add: oblivious_def handleDBCommand_def Ok respond_def)
qed (simp_all add: oblivious_def handleDBCommand_def respond_def)

lemma oblivious_DBPlayer:
  assumes "names_user m u" and "\<not> OwnerOrAdmin (commandLevels env) (sessions st) s u"
  shows "oblivious (handleDBPlayerGetAttribute env) s m st" "oblivious (handleDBPlayerSetAttribute env) s m st"
    "oblivious (handleDBPlayerDeleteAttribute env) s m st" "oblivious (handleDBPlayerGetAttributeNames env) s m st"
  using oblivious_handleDBCommand [OF assms] by (simp_all add: oblivious_def db_handler_defs)

definition player_commands :: "string list" where
  "player_commands = [''DBPlayer.getAttribute'', ''DBPlayer.setAttribute'', ''DBPlayer.deleteAttribute'',
     ''DBPlayer.getAttributeNames'']"

lemma player_handlers:
  "map_of (handlers env) ''DBPlayer.getAttribute'' = Some (handleDBPlayerGetAttribute env)"
  "map_of (handlers env) ''DBPlayer.setAttribute'' = Some (handleDBPlayerSetAttribute env)"
  "map_of (handlers env) ''DBPlayer.deleteAttribute'' = Some (handleDBPlayerDeleteAttribute env)"
  "map_of (handlers env) ''DBPlayer.getAttributeNames'' = Some (handleDBPlayerGetAttributeNames env)"
  by (simp_all add: handlers_def)


section \<open>Properties\<close>

text \<open>C11.  Every system command keeps the session store consistent (room index and its inverse agree, no
  duplicates, no empty rooms) and the connection pool's two maps inverse to each other.\<close>

theorem Handle_keeps_invariant:
  assumes "sys_ok st"
  shows "sys_ok (snd (Handle env senderID msg st))"
proof -
  have "leaves sys_ok (Handle env senderID msg st)"
    using assms leaves_handleLogon sys_ok_evict by (intro leaves_Handle) (auto simp: quiet_def)
  then show ?thesis by (simp add: leaves_def)
qed

text \<open>C12.  Only Logon hands out identity: a command with any other subject leaves the connection pool as it
  was, and after it every user has the level they had before, or none.\<close>

theorem only_Logon_grants:
  assumes "Value (Subject msg) \<noteq> ''Logon''"
  shows "pool (snd (Handle env senderID msg st)) = pool st \<and>
    (\<forall>u. UserLevel (sessions (snd (Handle env senderID msg st))) u \<in> {UserLevel (sessions st) u, 0})"
proof -
  have "leaves (\<lambda>st'. pool st' = pool st \<and> (\<forall>u. UserLevel (sessions st') u \<in> {UserLevel (sessions st) u, 0}))
      (Handle env senderID msg st)"
    using assms by (intro leaves_Handle) (simp_all add: UserLevel_evict quiet_UserLevel, simp add: quiet_def)
  then show ?thesis by (simp add: leaves_def)
qed

text \<open>C13.  A restricted command from a user below its level, or missing from the level table, is answered with
  \<open>ErrInvalidServerCommand\<close> and changes nothing.\<close>

theorem restricted_refused:
  assumes "Value (Subject msg) \<in> set restricted"
    and "\<not> CanRun (commandLevels env) (sessions st) senderID (Value (Subject msg))"
  shows "Handle env senderID msg st = refuse env senderID msg ErrInvalidServerCommand st"
proof -
  obtain h where h: "map_of (handlers env) (Value (Subject msg)) = Some h"
    using restricted_handled [OF assms(1)] by blast
  show ?thesis
    using handlers_refuse [OF map_of_SomeD [OF h] assms(1)] assms(2) by (simp add: Handle_def h refuses_def)
qed

text \<open>The level table has no say in the other commands: whatever levels are configured for the server,
  movie and group commands (or for \<open>system.user.getAddress\<close> and \<open>getGroups\<close>), they are run for everybody.\<close>

theorem unrestricted_ignore_levels:
  assumes "Value (Subject msg) \<notin> set restricted"
  shows "Handle (env\<lparr>commandLevels := levels\<rparr>) senderID msg st = Handle env senderID msg st"
  unfolding Handle_def handlers_ignore_levels [OF assms] respond_ignores_levels by (rule refl)

text \<open>C10.  A player's data is private: a \<open>DBPlayer\<close> command about another user, from a sender below the
  administrator level, changes nothing and its answer does not depend on the database.\<close>

theorem player_data_private:
  assumes "Value (Subject msg) \<in> set player_commands" and "names_user msg u"
    and "u \<noteq> senderID" and "UserLevel (sessions st) senderID < AdminLevel (commandLevels env)"
  shows "snd (Handle env senderID msg st) = st \<and>
    (\<forall>d. fst (Handle env senderID msg (st\<lparr>db := d\<rparr>)) = fst (Handle env senderID msg st))"
proof -
  have "\<not> OwnerOrAdmin (commandLevels env) (sessions st) senderID u"
    using assms(3,4) by (simp add: OwnerOrAdmin_def)
  from oblivious_DBPlayer [OF assms(2) this] assms(1) show ?thesis
    by (auto simp: oblivious_def Handle_def player_commands_def player_handlers)
qed

text \<open>C14.  A command whose content is present, with aligned property lists and no nil fields, is answered: no
  handler panics on it.  The database promises that a ban lookup without an error has found a ban.\<close>

theorem Handle_answers:
  assumes "MsgContent msg = Some v" and "sound v" and "ban_lookups_ok (dba env)"
  shows "fst (Handle env senderID msg st) \<noteq> Panic"
proof (cases "map_of (handlers env) (Value (Subject msg))")
  case None
  then show ?thesis by (simp add: Handle_def respond_def)
next
  case (Some h)
  have "answers (h senderID msg st)" by (rule handlers_answer [OF map_of_SomeD [OF Some] assms])
  then show ?thesis by (simp add: Handle_def Some answers_def)
qed

section \<open>An example\<close>

text \<open>A server with two users in the movie \<open>farm\<close>: ann at level 20 and root at level 80.  The example
  database counts writes.\<close>

definition example_dba :: "nat db_adapter" where
  "example_dba =
     \<lparr>CreateApplication = (\<lambda>_ d. (None, Suc d)), DeleteApplication = (\<lambda>_ d. (None, Suc d)),
      SetApplicationAttribute = (\<lambda>_ _ _ d. (None, Suc d)), GetApplicationAttribute = (\<lambda>_ _ d. Inr (LInteger (word_of_nat d))),
      GetApplicationAttributeNames = (\<lambda>_ d. Inr []), DeleteApplicationAttribute = (\<lambda>_ _ d. (None, Suc d)),
      SetPlayerAttribute = (\<lambda>_ _ _ _ d. (None, Suc d)), GetPlayerAttribute = (\<lambda>_ _ _ d. Inr (LInteger (word_of_nat d))),
      GetPlayerAttributeNames = (\<lambda>_ _ d. Inr []), DeletePlayerAttribute = (\<lambda>_ _ _ d. (None, Suc d)),
      CreateUser = (\<lambda>_ _ _ d. (None, Suc d)), GetUser = (\<lambda>_ _. Inl ErrUserNotFound),
      DeleteUser = (\<lambda>_ d. (None, Suc d)), CreateBan = (\<lambda>_ _ _ _ d. (None, Suc d)),
      GetActiveBanByUserID = (\<lambda>_ _. Inl ErrBanNotFound), RevokeBan = (\<lambda>_ d. (None, Suc d))\<rparr>"

definition example_sys_env :: "(unit, nat) sys_env" where
  "example_sys_env =
     \<lparr>env_now = 0, env_encrypt = None, allEncrypted = False, defaultMovieID = [],
      commandLevels = [(''DBPlayer.getAttribute'', 20), (''DBAdmin.createUser'', 80), (''system.user.delete'', 80),
        (''system.server.getMovies'', 80)],
      dba = example_dba, bcrypt_hash = Inr, bcrypt_check = (=), tokenValidate = None, sendMail = None,
      hasTimers = True, hasWriter = True, authMode = ''open'', logonLevel = 20\<rparr>"

definition example_sys :: "(unit, nat) sys_state" where
  "example_sys =
     \<lparr>sessions = SetUserAttribute ''root'' UserLevelAttribute (LInteger 80)
        (SetUserAttribute ''ann'' UserLevelAttribute (LInteger 20) NewMemorySessionStore),
      pool = Register 2 ''root'' (Register 1 ''ann'' NewConnPool), tokens = (), movies = [],
      net = \<lparr>sent = [], closed = [], failing = []\<rparr>, db = 0, kill_timers = NewTimerManager, mails = []\<rparr>"

definition command :: "string \<Rightarrow> lvalue \<Rightarrow> mus_message" where
  "command subj v = NewResponse 0 subj ''ann'' [''System''] 0 (Some v)"

lemma command_simps [simp]: "Value (Subject (command subj v)) = subj" "MsgContent (command subj v) = Some v"
  by (simp_all add: command_def NewResponse_def mk_string_def)

lemma example_sys_ok: "sys_ok example_sys"
proof -
  have "pool_ok (pool example_sys)"
    unfolding example_sys_def
    by (simp, intro pool_ok_Register pool_ok_New) (simp_all add: NewConnPool_def Register_def)
  then show ?thesis by (simp add: sys_ok_def) (simp add: example_sys_def)
qed

lemma example_levels:
  "UserLevel (sessions example_sys) ''ann'' = 20" "UserLevel (sessions example_sys) ''root'' = 80"
  by (simp_all add: UserLevel_def example_sys_def sa.get_set)

lemma example_bans: "ban_lookups_ok (dba example_sys_env)"
  by (simp add: ban_lookups_ok_def example_sys_env_def example_dba_def)

theorem Handle_keeps_invariant_witness:
  "sys_ok (snd (Handle example_sys_env ''root'' (command ''system.user.delete'' (LString ''ann'')) example_sys)) \<and>
   UserLevel (sessions (snd (Handle example_sys_env ''root'' (command ''system.user.delete'' (LString ''ann'')) example_sys)))
     ''ann'' = 0"
proof (intro conjI Handle_keeps_invariant example_sys_ok)
  show "UserLevel (sessions (snd (Handle example_sys_env ''root''
      (command ''system.user.delete'' (LString ''ann'')) example_sys))) ''ann'' = 0"
    by (simp add: Handle_def handlers_special handleUserDelete_def CanRun_def example_levels with_arg_def
      extract_string_arg_def respond_def UserLevel_evict) (simp add: example_sys_env_def example_levels UserLevel_evict)
qed

theorem only_Logon_grants_witness:
  "UserLevel (sessions (snd (Handle example_sys_env ''ann'' (command ''DBAdmin.createUser'' LVoid) example_sys))) ''ann''
     \<in> {20, 0}"
proof -
  have "Value (Subject (command ''DBAdmin.createUser'' LVoid)) \<noteq> ''Logon''" by simp
  from only_Logon_grants [OF this, of example_sys_env "''ann''" example_sys] show ?thesis
    unfolding example_levels(1) [symmetric] by blast
qed

theorem restricted_refused_witness:
  "Handle example_sys_env ''ann'' (command ''system.user.delete'' (LString ''root'')) example_sys =
     refuse example_sys_env ''ann'' (command ''system.user.delete'' (LString ''root'')) ErrInvalidServerCommand example_sys"
  by (rule restricted_refused) (simp_all add: restricted_def CanRun_def example_sys_env_def example_levels)

theorem unrestricted_ignore_levels_witness:
  "fst (Handle example_sys_env ''guest'' (command ''system.server.getMovies'' LVoid) example_sys) =
     fst (respond example_sys_env ''guest'' (command ''system.server.getMovies'' LVoid) ErrNoError (LList []) example_sys)"
proof -
  have "Handle (example_sys_env\<lparr>commandLevels := []\<rparr>) ''guest'' (command ''system.server.getMovies'' LVoid) example_sys =
      Handle example_sys_env ''guest'' (command ''system.server.getMovies'' LVoid) example_sys"
    by (rule unrestricted_ignore_levels) (simp add: restricted_def)
  then show ?thesis
    by (simp add: Handle_def handlers_def handleServerGetMovies_def respond_def string_list_def GetMovies_def
        example_sys_def)
qed

definition other_data :: mus_message where
  "other_data = command ''DBPlayer.getAttribute''
     (LPropList [LSymbol ''userID'', LSymbol ''application'', LSymbol ''attribute'']
        [LString ''root'', LString ''farm'', LString ''gold''])"

lemma other_data_names: "names_user other_data ''root''"
  by (simp add: names_user_def other_data_def GetElement_def with_bang_def without_bang_def)

theorem player_data_private_witness:
  "fst (Handle example_sys_env ''ann'' other_data (example_sys\<lparr>db := 5\<rparr>)) =
     fst (Handle example_sys_env ''ann'' other_data example_sys)"
proof -
  have "Value (Subject other_data) \<in> set player_commands" by (simp add: other_data_def player_commands_def)
  moreover have "UserLevel (sessions example_sys) ''ann'' < AdminLevel (commandLevels example_sys_env)"
    by (simp add: example_levels AdminLevel_def example_sys_env_def)
  ultimately show ?thesis
    using player_data_private [OF _ other_data_names, of "''ann''" example_sys example_sys_env] by simp
qed

theorem Handle_answers_witness: "fst (Handle example_sys_env ''ann'' other_data example_sys) \<noteq> Panic"
proof (rule Handle_answers [OF _ _ example_bans])
  show "MsgContent other_data = Some (LPropList [LSymbol ''userID'', LSymbol ''application'', LSymbol ''attribute'']
      [LString ''root'', LString ''farm'', LString ''gold''])"
    by (simp add: other_data_def)
qed (simp add: sound_def)

end
