(* ===== verification/Dispatcher.thy ===== *)
theory Dispatcher
  imports SystemProps
begin

text \<open>
  From bytes to commands: \<open>internal/adapters/inbound/mus/dispatcher.go\<close> and
  \<open>internal/adapters/inbound/smus_handler.go\<close>.  The script engine is a parameter: it says which scripts
  exist, and running one may change the whole state and may fail or panic.  Logging is left out.
\<close>


section \<open>Dispatch\<close>

record ('tk, 'd) script_engine =
  HasScript :: "string \<Rightarrow> bool"
  Execute :: "string \<Rightarrow> string \<Rightarrow> lvalue option \<Rightarrow> ('tk, 'd) sys_state \<Rightarrow> lvalue option go \<times> ('tk, 'd) sys_state"

record ('tk, 'd) handler_env =
  sys :: "('tk, 'd) sys_env"
  scripts :: "('tk, 'd) script_engine option"
  env_decrypt :: "(bytes \<Rightarrow> bytes) option"

type_synonym ('tk, 'd) dispatched = "mus_message option go \<times> ('tk, 'd) sys_state"

text \<open>\<open>Execute\<close> gets the subject, the sender and the content of the \<open>ScriptMessage\<close>; its result is the
  \<open>Content\<close> of the \<open>ScriptResult\<close>, nil included.\<close>

definition handleScript :: "('tk, 'd) handler_env \<Rightarrow> string \<Rightarrow> mus_message \<Rightarrow> ('tk, 'd) sys_state \<Rightarrow> ('tk, 'd) dispatched" where
  "handleScript env senderID msg st =
     (case scripts env of
        None \<Rightarrow> (Ok None, st)
      | Some engine \<Rightarrow>
          (let scriptName = Value (Subject msg)
           in if \<not> HasScript engine scriptName then (Ok None, st)
              else case Execute engine scriptName senderID (MsgContent msg) st of
                (Panic, st') \<Rightarrow> (Panic, st')
              | (Err _, st') \<Rightarrow> (Ok None, st')
              | (Ok None, st') \<Rightarrow> (Ok None, st')
              | (Ok (Some content), st') \<Rightarrow>
                  (Ok (Some (NewResponse (env_now (sys env)) scriptName ''system.script'' [senderID] ErrNoError
                     (Some content))), st')))"

text \<open>Routing by the first recipient; a list with a positive count and no strings would be an index out
  of range.  A delivery error is logged only.\<close>

definition Dispatch :: "('tk, 'd) handler_env \<Rightarrow> string \<Rightarrow> mus_message \<Rightarrow> ('tk, 'd) sys_state \<Rightarrow> ('tk, 'd) dispatched" where
  "Dispatch env senderID msg st =
     (if Count (RecptID msg) = 0 then (Err ErrOther, st)
      else case Strings (RecptID msg) of
        [] \<Rightarrow> (Panic, st)
      | r # _ \<Rightarrow>
          (let recipient = Value r
           in if recipient = ''System'' then
                (case Handle (sys env) senderID msg st of
                   (Panic, st') \<Rightarrow> (Panic, st')
                 | (Err e, st') \<Rightarrow> (Err e, st')
                 | (Ok resp, st') \<Rightarrow> (Ok (Some resp), st'))
              else if recipient = ''system.script'' then handleScript env senderID msg st
              else
                (case SendMessage (sys env) senderID recipient (Value (Subject msg)) (MsgContent msg) st of
                   (Panic, st') \<Rightarrow> (Panic, st')
                 | (_, st') \<Rightarrow> (Ok None, st'))))"


section \<open>SMUSHandler\<close>

text \<open>The result is the response bytes, empty for none.  The client id of the connection is the dispatch
  identity; the sender in the message is only logged.\<close>

definition HandleRawMessage :: "('tk, 'd) handler_env \<Rightarrow> string \<Rightarrow> bytes \<Rightarrow> ('tk, 'd) sys_state \<Rightarrow>
    bytes go \<times> ('tk, 'd) sys_state" where
  "HandleRawMessage env clientID data st =
     (case ParseMUSMessageWithDecryption data (env_decrypt env) of
        Panic \<Rightarrow> (Panic, st)
      | Err e \<Rightarrow> (Err e, st)
      | Ok msg \<Rightarrow>
          (case Dispatch env clientID msg st of
             (Panic, st') \<Rightarrow> (Panic, st')
           | (Err e, st') \<Rightarrow> (Err e, st')
           | (Ok None, st') \<Rightarrow> (Ok [], st')
           | (Ok (Some response), st') \<Rightarrow>
               (case message_bytes response of
                  None \<Rightarrow> (Panic, st')
                | Some bs \<Rightarrow> (Ok (seal (sys env) bs), st'))))"


section \<open>The wire sender is ignored\<close>

text \<open>The same message under another claimed sender.\<close>

abbreviation claiming :: "mus_message \<Rightarrow> header_string \<Rightarrow> mus_message" where
  "claiming m x \<equiv> m\<lparr>SenderID := x\<rparr>"

lemma claiming_simps:
  "Subject (claiming m x) = Subject m" "MsgContent (claiming m x) = MsgContent m" "RecptID (claiming m x) = RecptID m"
  by simp_all

lemma respond_claiming: "respond env s (claiming m x) = respond env s m"
  by (intro ext) (simp add: respond_def)

lemma steps_claiming:
  "with_arg env s (claiming m x) = with_arg env s m"
  "with_plist env s (claiming m x) = with_plist env s m"
  "with_element env s (claiming m x) = with_element env s m"
  "with_movieID env s (claiming m x) = with_movieID env s m"
  unfolding with_arg_def with_plist_def with_element_def with_movieID_def respond_claiming claiming_simps
  by (rule refl)+

lemma movie_steps_claiming:
  "with_movie env s (claiming m x) = with_movie env s m"
  "with_group env s (claiming m x) = with_group env s m"
  "handleDBCommand env s (claiming m x) = handleDBCommand env s m"
  unfolding with_group_def with_movie_def handleDBCommand_def steps_claiming respond_claiming claiming_simps
  by (rule refl)+

definition ignores_sender :: "(string \<Rightarrow> mus_message \<Rightarrow> ('tk, 'd) sys_state \<Rightarrow> ('tk, 'd) reply) \<Rightarrow> bool" where
  "ignores_sender h \<longleftrightarrow> (\<forall>s m x st. h s (claiming m x) st = h s m st)"

lemma handlers_ignore_sender:
  assumes "(subj, h) \<in> set (handlers env)" and "subj \<noteq> ''Logon''"
  shows "ignores_sender h"
proof -
  have "ignores_sender (handleServerGetVersion env)" "ignores_sender (handleServerGetTime env)"
    "ignores_sender (handleServerGetUserCount env)" "ignores_sender (handleServerGetMovieCount env)"
    "ignores_sender (handleServerGetMovies env)" "ignores_sender (handleMovieGetUserCount env)"
    "ignores_sender (handleMovieGetGroups env)" "ignores_sender (handleMovieGetGroupCount env)"
    "ignores_sender (handleGroupJoin env)" "ignores_sender (handleGroupLeave env)"
    "ignores_sender (handleGroupGetUsers env)" "ignores_sender (handleGroupGetUserCount env)"
    "ignores_sender (handleGroupSetAttribute env)" "ignores_sender (handleGroupGetAttribute env)"
    "ignores_sender (handleGroupDeleteAttribute env)" "ignores_sender (handleGroupGetAttributeNames env)"
    "ignores_sender (handleUserGetAddress env)" "ignores_sender (handleUserGetGroups env)"
    "ignores_sender (handleUserDelete env)" "ignores_sender (handleServerSendEmail env)"
    "ignores_sender (handleServerSetKillTimer env)" "ignores_sender (handleServerCancelKillTimer env)"
    "ignores_sender (handleUserSetKillTimer env)" "ignores_sender (handleUserCancelKillTimer env)"
    unfolding ignores_sender_def query_handler_defs update_handler_defs handleUserDelete_def steps_claiming
      movie_steps_claiming respond_claiming claiming_simps
    by simp_all
  moreover have
    "ignores_sender (handleDBPlayerGetAttribute env)" "ignores_sender (handleDBPlayerSetAttribute env)"
    "ignores_sender (handleDBPlayerDeleteAttribute env)" "ignores_sender (handleDBPlayerGetAttributeNames env)"
    "ignores_sender (handleDBApplicationGetAttribute env)" "ignores_sender (handleDBApplicationSetAttribute env)"
    "ignores_sender (handleDBApplicationDeleteAttribute env)" "ignores_sender (handleDBApplicationGetAttributeNames env)"
    "ignores_sender (handleDBAdminCreateApplication env)" "ignores_sender (handleDBAdminDeleteApplication env)"
    "ignores_sender (handleDBAdminCreateUser env)" "ignores_sender (handleDBAdminDeleteUser env)"
    "ignores_sender (handleDBAdminGetUserCount env)" "ignores_sender (handleDBAdminBan env)"
    "ignores_sender (handleDBAdminRevokeBan env)"
    unfolding ignores_sender_def db_handler_defs movie_steps_claiming by simp_all
  ultimately show ?thesis
    using assms by (simp add: handlers_def) (elim disjE; simp)
qed

lemma Handle_claiming:
  assumes "Value (Subject m) \<noteq> ''Logon''"
  shows "Handle env s (claiming m x) st = Handle env s m st"
proof (cases "map_of (handlers env) (Value (Subject m))")
  case None
  then show ?thesis by (simp add: Handle_def respond_claiming)
next
  case (Some h)
  have "ignores_sender h" by (rule handlers_ignore_sender [OF map_of_SomeD [OF Some] assms])
  then show ?thesis by (simp add: Handle_def Some ignores_sender_def)
qed

section \<open>What a dispatched message can change\<close>

definition is_logon :: "mus_message \<Rightarrow> bool" where
  "is_logon m \<longleftrightarrow> Count (RecptID m) > 0 \<and> map Value (take 1 (Strings (RecptID m))) = [''System''] \<and>
     Value (Subject m) = ''Logon''"

text \<open>What scripts promise: running one keeps a relation between the state before and after.\<close>

definition scripts_keep :: "('tk, 'd) handler_env \<Rightarrow> (('tk, 'd) sys_state \<Rightarrow> ('tk, 'd) sys_state \<Rightarrow> bool) \<Rightarrow> bool" where
  "scripts_keep env R \<longleftrightarrow>
     (\<forall>e \<in> set_option (scripts env). \<forall>n s c st. R st (snd (Execute e n s c st)))"

lemma SendMessage_net: "\<exists>n. snd (SendMessage env s r subj c st) = st\<lparr>net := n\<rparr>"
proof -
  have self: "\<exists>n. st = st\<lparr>net := n\<rparr>" by (rule exI [of _ "net st"]) simp
  show ?thesis
    by (auto simp: self SendMessage_def SendMessageFrom_def deliverToGroup_def Let_def split: option.splits prod.splits)
qed

lemma leaves_handleScript:
  assumes "P st" and "scripts_keep env R" and "\<And>st'. R st st' \<Longrightarrow> P st'"
  shows "leaves P (handleScript env s m st)"
proof (cases "scripts env")
  case None
  then show ?thesis using assms(1) by (simp add: leaves_def handleScript_def)
next
  case (Some e)
  then have "R st (snd (Execute e (Value (Subject m)) s (MsgContent m) st))"
    using assms(2) by (simp add: scripts_keep_def)
  then show ?thesis
    using assms(1,3) by (auto simp: leaves_def handleScript_def Some Let_def split: go.splits option.splits prod.splits)
qed

lemma leaves_Dispatch:
  assumes "P st" and "scripts_keep env R" and "\<And>st'. R st st' \<Longrightarrow> P st'" and "\<And>n. P (st\<lparr>net := n\<rparr>)"
    and "leaves P (Handle (sys env) s m st)"
  shows "leaves P (Dispatch env s m st)"
proof (cases "Strings (RecptID m)")
  case Nil
  then show ?thesis using assms(1) by (simp add: leaves_def Dispatch_def)
next
  case (Cons r rs)
  obtain n where n: "snd (SendMessage (sys env) s (Value r) (Value (Subject m)) (MsgContent m) st) = st\<lparr>net := n\<rparr>"
    using SendMessage_net by blast
  have "P (snd (case SendMessage (sys env) s (Value r) (Value (Subject m)) (MsgContent m) st of
      (Panic, st') \<Rightarrow> (Panic, st') | (_, st') \<Rightarrow> (Ok (None :: mus_message option), st')))"
    using n assms(4) [of n] by (cases "SendMessage (sys env) s (Value r) (Value (Subject m)) (MsgContent m) st")
      (auto split: go.splits)
  moreover have "P (snd (case Handle (sys env) s m st of (Panic, st') \<Rightarrow> (Panic, st') | (Err e, st') \<Rightarrow> (Err e, st')
      | (Ok resp, st') \<Rightarrow> (Ok (Some resp), st')))"
    using assms(5) by (cases "Handle (sys env) s m st") (auto simp: leaves_def split: go.splits)
  ultimately show ?thesis
    using assms(1) leaves_handleScript [of P, OF assms(1) assms(2) assms(3)] by (simp add: leaves_def Dispatch_def Cons Let_def)
qed

lemma leaves_HandleRawMessage:
  assumes "P st"
    and "\<And>m. ParseMUSMessageWithDecryption data (env_decrypt env) = Ok m \<Longrightarrow> leaves P (Dispatch env s m st)"
  shows "leaves P (HandleRawMessage env s data st)"
proof (cases "ParseMUSMessageWithDecryption data (env_decrypt env)")
  case (Ok m)
  then show ?thesis
    using assms(2) [OF Ok]
    by (cases "Dispatch env s m st")
      (auto simp: leaves_def HandleRawMessage_def split: go.splits option.splits)
qed (use assms(1) in \<open>simp_all add: leaves_def HandleRawMessage_def\<close>)

lemma HandleRawMessage_sys_ok:
  assumes "sys_ok st" and "scripts_keep env (\<lambda>st st'. sys_ok st \<longrightarrow> sys_ok st')"
  shows "sys_ok (snd (HandleRawMessage env s data st))"
proof -
  have "leaves sys_ok (Handle (sys env) s m st)" for m
    using assms(1) leaves_handleLogon sys_ok_evict by (intro leaves_Handle) (auto simp: quiet_def)
  then have "leaves sys_ok (HandleRawMessage env s data st)"
    using assms by (intro leaves_HandleRawMessage leaves_Dispatch [OF _ assms(2)]) auto
  then show ?thesis by (simp add: leaves_def)
qed


section \<open>Answers\<close>

lemma deliver_answers:
  assumes "pool_ok p"
  shows "fst (deliver ms bs p n) \<noteq> Panic"
proof (induction ms arbitrary: n)
  case (Cons x ms)
  have "fst (WriteToClient x bs p n) \<noteq> Panic"
    using pool_ok_writeMu [OF assms, of x] by (auto simp: WriteToClient_def conn_Write_def split: option.splits)
  then show ?case
    using Cons.IH by (cases "WriteToClient x bs p n") (auto split: go.splits)
qed simp

lemma message_bytes_defined:
  "(\<forall>v \<in> set_option c. sound v) \<Longrightarrow> message_bytes (NewResponse now subj s rs e c) \<noteq> None"
  using GetBytes_None_iff
  by (auto simp: message_bytes_def content_bytes_def NewResponse_def sound_def bind_eq_None_conv split: option.splits)

lemma SendMessage_answers:
  assumes "pool_ok (pool st)" and "\<forall>v \<in> set_option c. sound v"
  shows "fst (SendMessage env s r subj c st) \<noteq> Panic"
proof -
  obtain bs where bs: "message_bytes (NewResponse (env_now env) subj s [r] ErrNoError c) = Some bs"
    using message_bytes_defined [OF assms(2)] by blast
  have "fst (WriteToClient r d (pool st) (net st)) \<noteq> Panic" for d
    using deliver_answers [OF assms(1), of "[r]" d "net st"]
    by (cases "WriteToClient r d (pool st) (net st)") (auto split: go.splits)
  then show ?thesis
    using deliver_answers [OF assms(1)] bs
    by (auto simp: SendMessage_def SendMessageFrom_def deliverToGroup_def Let_def case_prod_unfold)
qed

text \<open>What the parser guarantees of a message.\<close>

lemma dec_many_length: "dec_many dec n data off = Ok r \<Longrightarrow> length (fst r) = n"
  by (induction n arbitrary: off r) (auto simp: go_bind_eq_Ok_iff split_beta)

lemma header_list_count:
  "ExtractMUSMsgHeaderStringList data off = Ok (l, c) \<Longrightarrow> Count l = length (Strings l)"
  by (auto simp: ExtractMUSMsgHeaderStringList_def Let_def nopanic_eq_Ok_iff go_bind_eq_Ok_iff split_beta
      dest!: dec_many_length split: if_splits)

lemma parse_content_cases:
  "parse_content m raw d p = Ok m' \<Longrightarrow>
     RecptID m' = RecptID m \<and> (MsgContent m' = MsgContent m \<or> (\<exists>c v. FromRawBytes c 0 = Some v \<and> MsgContent m' = Some v))"
  by (auto simp: parse_content_def Let_def nopanic_eq_Ok_iff split: if_splits)

lemma parse_cases:
  assumes "ParseMUSMessageWithDecryption raw d = Ok m"
  shows "Count (RecptID m) = length (Strings (RecptID m)) \<and> (\<forall>v \<in> set_option (MsgContent m). aligned v)"
proof -
  obtain m0 raw' l c off p where l: "ExtractMUSMsgHeaderStringList raw' off = Ok (l, c)"
    and m0: "RecptID m0 = l" "MsgContent m0 = None" "parse_content m0 raw' d p = Ok m"
    using assms
    by (auto simp: ParseMUSMessageWithDecryption_def nopanic_eq_Ok_iff go_bind_eq_Ok_iff split_beta split: if_splits)
      (metis mus_message.select_convs(6) mus_message.select_convs(9))
  show ?thesis
    using header_list_count [OF l] parse_content_cases [OF m0(3)] m0(1,2) decoder_aligned(1) by fastforce
qed

section \<open>Properties\<close>

text \<open>C26.  The identity of a connection is not chosen by its messages: two frames that differ only in the
  claimed sender have the same effect and the same response, unless the message is a Logon.\<close>

theorem wire_sender_ignored:
  assumes "ParseMUSMessageWithDecryption data (env_decrypt env) = Ok m"
    and "ParseMUSMessageWithDecryption data' (env_decrypt env) = Ok (claiming m x)"
    and "\<not> is_logon m"
  shows "HandleRawMessage env clientID data' st = HandleRawMessage env clientID data st"
proof -
  have "handleScript env clientID (claiming m x) st = handleScript env clientID m st"
    unfolding handleScript_def claiming_simps by (rule refl)
  then have "Dispatch env clientID (claiming m x) st = Dispatch env clientID m st"
    using assms(3) Handle_claiming [of m "sys env" clientID x st]
    by (auto simp: Dispatch_def is_logon_def Let_def split: list.splits)
  then show ?thesis by (simp add: HandleRawMessage_def assms(1,2))
qed

text \<open>A message to another user is delivered to that user's connection, once, and what the connection
  is sent parses to the same subject and content with the identity of the sending connection as its
  sender, whatever sender the message claimed.\<close>

theorem forwarded_message:
  assumes "Strings (RecptID msg) = r # rs" and "Count (RecptID msg) > 0" and "Value r \<noteq> ''System''"
    and "Value r \<noteq> ''system.script''" and "\<not> prefix ''@'' (Value r)"
    and "MsgContent msg = Some v" and "wire_ok v"
    and "message_bytes (NewResponse (env_now (sys env)) (Value (Subject msg)) clientID [Value r] ErrNoError (Some v)) = Some bs"
    and "length bs < 2 ^ 31" and "length (Value (Subject msg)) < 2 ^ 32" and "length clientID < 2 ^ 32"
    and "length (Value r) < 2 ^ 32"
    and "pool_ok (pool st)" and "map_of (clients (pool st)) (Value r) = Some c"
    and "c \<notin> set (closed (net st))" and "c \<notin> set (failing (net st))"
  shows "Dispatch env clientID msg st =
      (Ok None, st\<lparr>net := (net st)\<lparr>sent := sent (net st) @ [(c, seal (sys env) bs)]\<rparr>\<rparr>) \<and>
    (\<exists>m'. ParseMUSMessage bs = Ok m' \<and> Value (SenderID m') = clientID \<and> Value (Subject m') = Value (Subject msg) \<and>
       map Value (Strings (RecptID m')) = [Value r] \<and> MsgContent m' = Some (decoded v))"
proof (intro conjI)
  have "c \<in> set (writeMu (pool st))" using pool_ok_writeMu assms(13,14) by blast
  then have "SendMessage (sys env) clientID (Value r) (Value (Subject msg)) (Some v) st =
      (Ok (), st\<lparr>net := (net st)\<lparr>sent := sent (net st) @ [(c, seal (sys env) bs)]\<rparr>\<rparr>)"
    using assms by (simp add: SendMessage_def SendMessageFrom_def WriteToClient_def conn_Write_def)
  then show "Dispatch env clientID msg st =
      (Ok None, st\<lparr>net := (net st)\<lparr>sent := sent (net st) @ [(c, seal (sys env) bs)]\<rparr>\<rparr>)"
    using assms(1-6) by (simp add: Dispatch_def)
  show "\<exists>m'. ParseMUSMessage bs = Ok m' \<and> Value (SenderID m') = clientID \<and> Value (Subject m') = Value (Subject msg) \<and>
      map Value (Strings (RecptID m')) = [Value r] \<and> MsgContent m' = Some (decoded v)"
    using parse_NewResponse [OF assms(8,7,9,10,11)] assms(12) by auto
qed

text \<open>A message read from the wire whose content is present and has no nil field is dispatched without
  a panic, unless it runs a script: the decoder's property lists are always aligned, and a consistent pool
  has a lock for every connection.\<close>

theorem Dispatch_answers:
  assumes "ParseMUSMessageWithDecryption data (env_decrypt env) = Ok msg"
    and "MsgContent msg = Some v" and "no_nil v" and "map Value (take 1 (Strings (RecptID msg))) \<noteq> [''system.script'']"
    and "pool_ok (pool st)" and "ban_lookups_ok (dba (sys env))"
  shows "fst (Dispatch env clientID msg st) \<noteq> Panic"
proof -
  have "aligned v" and strs: "Count (RecptID msg) = length (Strings (RecptID msg))"
    using parse_cases [OF assms(1)] assms(2) by simp_all
  then have v: "sound v" using assms(3) by (simp add: sound_def)
  have "answers (Handle (sys env) clientID msg st)"
  proof (cases "map_of (handlers (sys env)) (Value (Subject msg))")
    case None
    then show ?thesis by (simp add: Handle_def answers_respond)
  next
    case (Some h)
    then show ?thesis
      using handlers_answer [OF map_of_SomeD [OF Some] assms(2) v assms(6)] by (simp add: Handle_def)
  qed
  then obtain x st1 where h: "Handle (sys env) clientID msg st = (x, st1)" "x \<noteq> Panic"
    by (cases "Handle (sys env) clientID msg st") (simp add: answers_def)
  have "fst (SendMessage (sys env) clientID r subj (Some v) st) \<noteq> Panic" for r subj
    using SendMessage_answers [OF assms(5), of "Some v"] v by simp
  then obtain y st2 where "SendMessage (sys env) clientID (Value (hd (Strings (RecptID msg))))
      (Value (Subject msg)) (Some v) st = (y, st2)" "y \<noteq> Panic"
    by (metis prod.collapse)
  then show ?thesis
    using h strs assms(2,4) by (auto simp: Dispatch_def Let_def split: list.splits go.splits)
qed

section \<open>An example\<close>

definition example_handler :: "(unit, nat) handler_env" where
  "example_handler = \<lparr>sys = example_sys_env, scripts = None, env_decrypt = None\<rparr>"

definition greeting :: "string \<Rightarrow> mus_message" where
  "greeting s = NewResponse 0 ''hi'' s [''root''] 0 (Some (LInteger 7))"

definition seven :: bytes where
  "seven = [0, 1, 0, 0, 0, 7]"

lemma seven: "GetBytes (LInteger 7) = Some seven" "FromRawBytes seven 0 = Some (LInteger 7)" "length seven = 6"
  "seven \<noteq> []"
  unfolding seven_def by code_simp+

definition greeting_bytes :: "string \<Rightarrow> bytes" where
  "greeting_bytes s = envelope (message_head (greeting s) @ seven)"

lemma greeting_encoded: "message_bytes (greeting s) = Some (greeting_bytes s)"
  using seven(1) by (simp add: message_bytes_def content_bytes_def greeting_bytes_def greeting_def NewResponse_def)

definition received :: "string \<Rightarrow> mus_message" where
  "received s = (parsed_head (greeting s) (length (message_head (greeting s) @ seven)))
     \<lparr>RawContents := seven, DecryptedContents := seven, MsgContent := Some (LInteger 7)\<rparr>"

lemma received_simps [simp]:
  "Value (Subject (received s)) = ''hi''" "MsgContent (received s) = Some (LInteger 7)"
  "Count (RecptID (received s)) = 1" "Strings (RecptID (received s)) = [mk_string ''root'']"
  by (simp_all add: received_def parsed_head_def greeting_def NewResponse_def canon_list_def canon_def mk_string_def)

lemma greeting_parsed:
  assumes "length s < 100"
  shows "ParseMUSMessageWithDecryption (greeting_bytes s) None = Ok (received s)"
proof -
  have "head_ok (greeting s)" "length (message_head (greeting s) @ seven) < 2 ^ 31"
    using assms by (simp_all add: greeting_def NewResponse_def head_ok_def string_ok_def list_ok_def mk_string_def
        message_head_def WriteBytes_def WriteBytesList_def seven(3))
  then show ?thesis
    using parse_with_content [of "greeting s" seven None "LInteger 7"] seven(2,4)
    by (simp add: opened_def greeting_bytes_def received_def)
qed

theorem wire_sender_ignored_witness:
  "HandleRawMessage example_handler ''ann'' (greeting_bytes ''root'') example_sys =
     HandleRawMessage example_handler ''ann'' (greeting_bytes ''ann'') example_sys"
proof (rule wire_sender_ignored)
  show "ParseMUSMessageWithDecryption (greeting_bytes ''ann'') (env_decrypt example_handler) = Ok (received ''ann'')"
    using greeting_parsed [of "''ann''"] by (simp add: example_handler_def)
  have "received ''root'' = claiming (received ''ann'') (SenderID (received ''root''))"
    by (simp add: received_def parsed_head_def greeting_def NewResponse_def message_head_def WriteBytes_def mk_string_def)
  then show "ParseMUSMessageWithDecryption (greeting_bytes ''root'') (env_decrypt example_handler) =
      Ok (claiming (received ''ann'') (SenderID (received ''root'')))"
    using greeting_parsed [of "''root''"] by (simp add: example_handler_def)
  show "\<not> is_logon (received ''ann'')" by (simp add: is_logon_def mk_string_def)
qed

lemma example_pool:
  "pool_ok (pool example_sys)" "map_of (clients (pool example_sys)) ''root'' = Some 2"
  "net example_sys = \<lparr>sent = [], closed = [], failing = []\<rparr>"
proof -
  show "pool_ok (pool example_sys)" using example_sys_ok by (simp add: sys_ok_def)
qed (simp_all add: example_sys_def Register_def NewConnPool_def)

theorem forwarded_message_witness:
  "\<exists>bs m'. sent (net (snd (Dispatch example_handler ''ann'' (received ''mallory'') example_sys))) = [(2, bs)] \<and>
     ParseMUSMessage bs = Ok m' \<and> Value (SenderID m') = ''ann'' \<and> MsgContent m' = Some (LInteger 7)"
proof -
  have env: "env_now (sys example_handler) = 0" "seal (sys example_handler) b = b" for b
    by (simp_all add: example_handler_def example_sys_env_def seal_def)
  have bs: "message_bytes (NewResponse (env_now (sys example_handler)) (Value (Subject (received ''mallory''))) ''ann''
      [Value (mk_string ''root'')] ErrNoError (Some (LInteger 7))) = Some (greeting_bytes ''ann'')"
    using greeting_encoded [of "''ann''"] by (simp add: env greeting_def mk_string_def ErrNoError_def)
  have "length (greeting_bytes ''ann'') < 2 ^ 31"
    by (simp add: greeting_bytes_def envelope_def MUSHeader_def greeting_def NewResponse_def mk_string_def
        message_head_def WriteBytes_def WriteBytesList_def seven(3))
  from forwarded_message [OF received_simps(4) _ _ _ _ received_simps(2) _ bs this _ _ _ example_pool(1) _ ] example_pool(2,3)
  show ?thesis by (auto simp: mk_string_def env decoded_def)
qed

theorem Dispatch_answers_witness: "fst (Dispatch example_handler ''ann'' (received ''ann'') example_sys) \<noteq> Panic"
proof (rule Dispatch_answers)
  show "ParseMUSMessageWithDecryption (greeting_bytes ''ann'') (env_decrypt example_handler) = Ok (received ''ann'')"
    using greeting_parsed [of "''ann''"] by (simp add: example_handler_def)
  show "MsgContent (received ''ann'') = Some (LInteger 7)" "no_nil (LInteger 7)" by simp_all
  show "ban_lookups_ok (dba (sys example_handler))" using example_bans by (simp add: example_handler_def)
qed (simp_all add: mk_string_def example_pool)

end
