(* ===== verification/Server.thy ===== *)
theory Server
  imports Dispatcher Frame
begin

text \<open>
  The running server: the connection life cycle of \<open>internal/adapters/inbound/tcp_server.go\<close>, the idle
  checker (\<open>idle_checker.go\<close>), the disconnect hook (\<open>disconnect_hook.go\<close>) and the functions of expired
  kill timers, over the state of the system service.

  The server is a machine whose events are an accepted connection, bytes arriving on a connection, the
  end of a connection, an idle check and the steps of a timer.  The ban check and the rate limiter are
  parameters with a state of their own.  The goroutines of the connections are interleaved at the
  granularity of one read; logging and metrics are left out.
\<close>


section \<open>State\<close>

record ('tk, 'd, 'r) server_env =
  henv :: "('tk, 'd) handler_env"
  MaxMessageSize :: int
  banned :: "(string \<Rightarrow> 'r \<Rightarrow> bool \<times> 'r) option"
  Allow :: "(string \<Rightarrow> 'r \<Rightarrow> bool \<times> 'r) option"
  hookSubject :: string
  idleTimeout :: int

text \<open>An open connection: the host it came from and the bytes not yet handled (\<open>acc\<close>).\<close>

record connection =
  conn_host :: string
  acc :: bytes

record ('tk, 'd, 'r) server =
  core :: "('tk, 'd) sys_state"
  aux :: 'r
  open_conns :: "(conn \<times> connection) list"

definition at_time :: "('tk, 'd, 'r) server_env \<Rightarrow> int \<Rightarrow> ('tk, 'd) handler_env" where
  "at_time env now = (henv env)\<lparr>sys := (sys (henv env))\<lparr>env_now := now\<rparr>\<rparr>"

text \<open>A nil guard lets everything pass.\<close>

definition ask :: "(string \<Rightarrow> 'r \<Rightarrow> bool \<times> 'r) option \<Rightarrow> bool \<Rightarrow> string \<Rightarrow> 'r \<Rightarrow> bool \<times> 'r" where
  "ask guard otherwise x r = (case guard of None \<Rightarrow> (otherwise, r) | Some g \<Rightarrow> g x r)"


section \<open>A connection\<close>

text \<open>The body of the frame loop: the result says whether the loop is left.  A panic leaves it too; the
  deferred functions then run as for any other exit.\<close>

definition frame_step :: "('tk, 'd, 'r) server_env \<Rightarrow> int \<Rightarrow> conn \<Rightarrow> string \<Rightarrow> bytes \<Rightarrow> ('tk, 'd, 'r) server \<Rightarrow>
    ('tk, 'd, 'r) server \<times> bool" where
  "frame_step env now c host frame sv =
     (let currentID = CurrentID (pool (core sv)) c;
          (allowed, r) = ask (Allow env) True host (aux sv);
          sv1 = sv\<lparr>aux := r\<rparr>
      in if \<not> allowed then (sv1, False)
         else case HandleRawMessage (at_time env now) currentID frame (core sv1) of
           (Panic, st) \<Rightarrow> (sv1\<lparr>core := st\<rparr>, True)
         | (Err _, st) \<Rightarrow> (sv1\<lparr>core := st\<rparr>, False)
         | (Ok response, st) \<Rightarrow>
             (let st1 = st\<lparr>sessions := UpdateLastActivity currentID now (sessions st)\<rparr>
              in if response = [] then (sv1\<lparr>core := st1\<rparr>, False)
                 else
                   (let writeID = CurrentID (pool st1) c;
                        (w, n) = WriteToClient writeID response (pool st1) (net st1)
                    in (sv1\<lparr>core := st1\<lparr>net := n\<rparr>\<rparr>, w \<noteq> Ok ()))))"

text \<open>\<open>NewDisconnectFlushHook\<close> and its callback: the result says whether it panicked.\<close>

definition disconnect_hook :: "('tk, 'd) handler_env \<Rightarrow> string \<Rightarrow> string \<Rightarrow> ('tk, 'd) sys_state \<Rightarrow>
    bool \<times> ('tk, 'd) sys_state" where
  "disconnect_hook env subject clientID st =
     (case scripts env of
        None \<Rightarrow> (False, st)
      | Some engine \<Rightarrow>
          if subject = [] \<or> clientID = [] \<or> \<not> HasScript engine subject then (False, st)
          else (let (r, st') = Execute engine subject clientID (Some LVoid) st in (r = Panic, st')))"

text \<open>The deferred teardown.  When the hook panics the rest of the deferred function is skipped and the
  panic is absorbed by the outer \<open>recover\<close>.\<close>

definition teardown :: "('tk, 'd, 'r) server_env \<Rightarrow> int \<Rightarrow> conn \<Rightarrow> ('tk, 'd, 'r) server \<Rightarrow> ('tk, 'd, 'r) server" where
  "teardown env now c sv =
     (let (currentID, p) = Unregister c (pool (core sv));
          (panicked, st) = disconnect_hook (at_time env now) (hookSubject env) currentID ((core sv)\<lparr>pool := p\<rparr>);
          st' = (if panicked then st
                 else st\<lparr>sessions := UnregisterConnection currentID (sessions st), net := snd (conn_Close c (net st))\<rparr>)
      in sv\<lparr>core := st', open_conns := AList.delete c (open_conns sv)\<rparr>)"

definition on_accept :: "('tk, 'd, 'r) server_env \<Rightarrow> int \<Rightarrow> conn \<Rightarrow> string \<Rightarrow> string \<Rightarrow> ('tk, 'd, 'r) server \<Rightarrow>
    ('tk, 'd, 'r) server" where
  "on_accept env now c clientIP host sv =
     (let (ban, r) = ask (banned env) False host (aux sv); st = core sv
      in if ban then sv\<lparr>aux := r, core := st\<lparr>net := snd (conn_Close c (net st))\<rparr>\<rparr>
         else sv\<lparr>aux := r,
                 core := st\<lparr>pool := Register c clientIP (pool st),
                            sessions := RegisterConnection clientIP clientIP now (sessions st)\<rparr>,
                 open_conns := AList.update c \<lparr>conn_host = host, acc = []\<rparr> (open_conns sv)\<rparr>)"

text \<open>Bytes from the socket: every complete frame is handled, and the connection is torn down when the
  loop is left.\<close>

definition on_read :: "('tk, 'd, 'r) server_env \<Rightarrow> int \<Rightarrow> conn \<Rightarrow> bytes \<Rightarrow> ('tk, 'd, 'r) server \<Rightarrow> ('tk, 'd, 'r) server" where
  "on_read env now c chunk sv =
     (case map_of (open_conns sv) c of
        None \<Rightarrow> sv
      | Some k \<Rightarrow>
          (case drain (MaxMessageSize env) (frame_step env now c (conn_host k)) (acc k @ chunk) sv of
             (sv', None) \<Rightarrow> teardown env now c sv'
           | (sv', Some rest) \<Rightarrow> sv'\<lparr>open_conns := AList.update c (k\<lparr>acc := rest\<rparr>) (open_conns sv')\<rparr>))"

definition on_hangup :: "('tk, 'd, 'r) server_env \<Rightarrow> int \<Rightarrow> conn \<Rightarrow> ('tk, 'd, 'r) server \<Rightarrow> ('tk, 'd, 'r) server" where
  "on_hangup env now c sv = (case map_of (open_conns sv) c of None \<Rightarrow> sv | Some _ \<Rightarrow> teardown env now c sv)"


section \<open>The idle checker and the timers\<close>

text \<open>Clock values are Unix seconds; Go's zero time is the first instant of year 1.\<close>

definition zero_time :: int where
  "zero_time = - 62135596800"

definition last_seen :: "connection_info \<Rightarrow> int" where
  "last_seen i = (if LastActivityAt i = zero_time then ConnectedAt i else LastActivityAt i)"

definition check_idle :: "bool \<Rightarrow> int \<Rightarrow> int \<Rightarrow> ('tk, 'z) mus_state_scheme \<Rightarrow> ('tk, 'z) mus_state_scheme" where
  "check_idle writer timeout now st =
     fold (\<lambda>i st. if now - last_seen i > timeout then evict writer (ClientID i) st else st)
       (GetAllConnections (sessions st)) st"

text \<open>The function of a started timer: the manager's part, then the eviction of the user.  The server's
  shutdown closes every connection.\<close>

definition run_timer :: "bool \<Rightarrow> nat \<Rightarrow> timer_action \<Rightarrow> ('tk, 'd) sys_state \<Rightarrow> ('tk, 'd) sys_state" where
  "run_timer writer i act st =
     (if (i, act) \<notin> set (started (kill_timers st)) then st
      else
        (let st1 = st\<lparr>kill_timers := run_started i act (kill_timers st)\<rparr>
         in case act of
              Shutdown \<Rightarrow> st1\<lparr>net := CloseAll (pool st1) (net st1)\<rparr>
            | KillUser clientID \<Rightarrow> evict writer clientID st1))"


section \<open>Events\<close>

datatype event = Accept conn string string | Read conn bytes | Hangup conn | IdleCheck
  | Expire nat | RunTimer nat timer_action

fun server_step :: "('tk, 'd, 'r) server_env \<Rightarrow> int \<Rightarrow> event \<Rightarrow> ('tk, 'd, 'r) server \<Rightarrow> ('tk, 'd, 'r) server" where
  "server_step env now (Accept c addr host) sv = on_accept env now c addr host sv"
| "server_step env now (Read c chunk) sv = on_read env now c chunk sv"
| "server_step env now (Hangup c) sv = on_hangup env now c sv"
| "server_step env now IdleCheck sv =
     sv\<lparr>core := check_idle (hasWriter (sys (henv env))) (idleTimeout env) now (core sv)\<rparr>"
| "server_step env now (Expire i) sv = sv\<lparr>core := (core sv)\<lparr>kill_timers := expire i (kill_timers (core sv))\<rparr>\<rparr>"
| "server_step env now (RunTimer i act) sv = sv\<lparr>core := run_timer (hasWriter (sys (henv env))) i act (core sv)\<rparr>"

section \<open>Invariant\<close>

text \<open>Nobody has a level without a connection.\<close>

definition levels_ok :: "('tk, 'z) mus_state_scheme \<Rightarrow> bool" where
  "levels_ok st \<longleftrightarrow> (\<forall>u. UserLevel (sessions st) u \<noteq> 0 \<longrightarrow> map_of (clients (pool st)) u \<noteq> None)"

text \<open>What the messages of one connection may do: the identities of the others stay, connections neither
  appear nor vanish, and a level other than the one before is the level of this connection.\<close>

definition touches_only :: "conn \<Rightarrow> ('tk, 'z) mus_state_scheme \<Rightarrow> ('tk, 'z) mus_state_scheme \<Rightarrow> bool" where
  "touches_only c st st' \<longleftrightarrow>
     (\<forall>d x. d \<noteq> c \<longrightarrow> map_of (clients (pool st')) x = Some d \<longleftrightarrow> map_of (clients (pool st)) x = Some d) \<and>
     (\<forall>d. map_of (connToID (pool st')) d = None \<longleftrightarrow> map_of (connToID (pool st)) d = None) \<and>
     (\<forall>x. UserLevel (sessions st') x \<notin> {UserLevel (sessions st) x, 0} \<longrightarrow> map_of (clients (pool st')) x = Some c)"

definition core_ok :: "('tk, 'z) mus_state_scheme \<Rightarrow> bool" where
  "core_ok st \<longleftrightarrow> sys_ok st \<and> levels_ok st"

definition safe_from :: "conn \<Rightarrow> ('tk, 'z) mus_state_scheme \<Rightarrow> ('tk, 'z) mus_state_scheme \<Rightarrow> bool" where
  "safe_from c st st' \<longleftrightarrow> core_ok st' \<and> touches_only c st st'"

lemma touches_only_refl: "touches_only c st st"
  by (simp add: touches_only_def)

lemma touches_only_trans:
  assumes "touches_only c st1 st2" and "touches_only c st2 st3" and "levels_ok st3"
  shows "touches_only c st1 st3"
  unfolding touches_only_def
proof (intro conjI allI impI)
  fix x assume lv: "UserLevel (sessions st3) x \<notin> {UserLevel (sessions st1) x, 0}"
  then obtain d where d: "map_of (clients (pool st3)) x = Some d" using assms(3) by (auto simp: levels_ok_def)
  show "map_of (clients (pool st3)) x = Some c"
  proof (cases "UserLevel (sessions st3) x \<in> {UserLevel (sessions st2) x, 0}")
    case True
    then have "map_of (clients (pool st2)) x = Some c" using lv assms(1) by (auto simp: touches_only_def)
    then show ?thesis using d assms(2) by (metis option.inject touches_only_def)
  next
    case False
    then show ?thesis using assms(2) by (simp add: touches_only_def)
  qed
qed (use assms(1,2) in \<open>auto simp: touches_only_def\<close>)

text \<open>A state with the same pool in which levels stayed or were dropped.\<close>

lemma safe_same_pool:
  assumes "core_ok st" and "sys_ok st'" and "pool st' = pool st"
    and "\<And>u. UserLevel (sessions st') u \<in> {UserLevel (sessions st) u, 0}"
  shows "safe_from c st st'"
  unfolding safe_from_def core_ok_def levels_ok_def touches_only_def
proof (intro conjI allI impI)
  fix u assume "UserLevel (sessions st') u \<noteq> 0"
  then have "UserLevel (sessions st) u \<noteq> 0" using assms(4) [of u] by auto
  then show "map_of (clients (pool st')) u \<noteq> None" using assms(1,3) by (auto simp: core_ok_def levels_ok_def)
next
  fix x assume "UserLevel (sessions st') x \<notin> {UserLevel (sessions st) x, 0}"
  then show "map_of (clients (pool st')) x = Some c" using assms(4) [of x] by simp
qed (use assms(2,3) in simp_all)

lemma safe_trans: "safe_from c st1 st2 \<Longrightarrow> safe_from c st2 st3 \<Longrightarrow> safe_from c st1 st3"
  using touches_only_trans by (auto simp: safe_from_def core_ok_def)

lemma safe_quiet: "core_ok st \<Longrightarrow> quiet st st' \<Longrightarrow> safe_from c st st'"
  by (rule safe_same_pool) (simp_all add: quiet_UserLevel, simp_all add: quiet_def core_ok_def)

lemma safe_evict: "core_ok st \<Longrightarrow> safe_from c st (evict w u st)"
  by (rule safe_same_pool) (simp_all add: core_ok_def sys_ok_evict UserLevel_evict)

lemma safe_net: "core_ok st \<Longrightarrow> safe_from c st (st\<lparr>net := n\<rparr>)"
  by (rule safe_same_pool) (simp_all add: core_ok_def)

lemma safe_confined:
  "core_ok st \<Longrightarrow> sessions st' = sessions st \<Longrightarrow> pool st' = pool st \<Longrightarrow> safe_from c st st'"
  by (rule safe_same_pool) (simp_all add: core_ok_def sys_ok_def)

lemma UserLevel_activity [simp]: "UserLevel (UpdateLastActivity c now m) u = UserLevel m u"
  by (simp add: UserLevel_def GetUserAttribute_def UpdateLastActivity_def split: option.splits)

lemma safe_activity: "core_ok st \<Longrightarrow> safe_from c st (st\<lparr>sessions := UpdateLastActivity u now (sessions st)\<rparr>)"
  by (rule safe_same_pool) (simp_all add: core_ok_def sys_ok_def)


section \<open>Logon as seen by the server\<close>

lemma CurrentID_clients:
  assumes "pool_ok p" and "map_of (connToID p) c \<noteq> None"
  shows "map_of (clients p) (CurrentID p c) = Some c"
proof -
  obtain i where i: "map_of (connToID p) c = Some i" using assms(2) by blast
  then have "map_of (clients p) i = Some c" using pool_ok_inverse [OF assms(1)] by blast
  then show ?thesis using i by (simp add: CurrentID_def)
qed

lemma safe_remap:
  assumes "core_ok st" and "map_of (connToID (pool st)) c \<noteq> None"
    and remap: "RemapClientID (CurrentID (pool st) c) u (pool st) = (True, p)"
    and ss: "sys_ok st'" "pool st' = p" "\<And>x. UserLevel (sessions st') x =
      (if x = u then l else if x = CurrentID (pool st) c then 0 else UserLevel (sessions st) x)"
  shows "safe_from c st st'"
proof -
  have ok: "pool_ok (pool st)" using assms(1) by (simp add: core_ok_def sys_ok_def)
  let ?id = "CurrentID (pool st) c"
  have id: "map_of (clients (pool st)) ?id = Some c"
    by (rule CurrentID_clients [OF ok assms(2)])
  have free: "map_of (clients (pool st)) u = None \<or> map_of (clients (pool st)) u = Some c"
    using remap id by (auto simp: RemapClientID_def split: option.splits if_splits)
  have p: "p = (pool st)\<lparr>clients := AList.update u c (AList.delete ?id (clients (pool st))),
      connToID := AList.update c u (connToID (pool st))\<rparr>"
    using remap id by (auto simp: RemapClientID_def split: option.splits if_splits)
  have look: "map_of (clients p) x = (if x = u then Some c else if x = ?id then None else map_of (clients (pool st)) x)" for x
    by (simp add: p gomap_simps)
  show ?thesis
    unfolding safe_from_def core_ok_def levels_ok_def touches_only_def
  proof (intro conjI allI impI)
    fix x assume "UserLevel (sessions st') x \<noteq> 0"
    then show "map_of (clients (pool st')) x \<noteq> None"
      using assms(1) by (auto simp: ss look core_ok_def levels_ok_def split: if_splits)
  next
    fix d x assume "d \<noteq> c"
    then show "map_of (clients (pool st')) x = Some d \<longleftrightarrow> map_of (clients (pool st)) x = Some d"
      using free id by (auto simp: ss(2) look)
  next
    fix d show "map_of (connToID (pool st')) d = None \<longleftrightarrow> map_of (connToID (pool st)) d = None"
      using assms(2) by (simp add: ss(2) p gomap_simps)
  next
    fix x assume "UserLevel (sessions st') x \<notin> {UserLevel (sessions st) x, 0}"
    then show "map_of (clients (pool st')) x = Some c" by (auto simp: ss look split: if_splits)
  qed (rule ss(1))
qed

lemma Logon_refused_state:
  assumes "Logon s now req st = (r, st')" and "Code r \<noteq> LogonOK"
  shows "st' = st\<lparr>tokens := tokens st'\<rparr>"
  using assms establishSession_refused
  by (fastforce simp: Logon_unfold split: if_splits prod.splits sum.splits)

lemma safe_Logon:
  assumes "core_ok st" and "map_of (connToID (pool st)) c \<noteq> None" and "has_writer s"
    and "ConnectionID req = CurrentID (pool st) c"
  shows "safe_from c st (snd (Logon s now req st))"
proof (cases "Logon s now req st")
  case (Pair r st')
  show ?thesis
  proof (cases "Code r = LogonOK")
    case False
    from Logon_refused_state [OF Pair this] have "sessions st' = sessions st" "pool st' = pool st"
      by (metis (no_types) logon_state.ext_inject logon_state.surjective logon_state.update_convs(3))+
    then show ?thesis using Pair safe_confined [OF assms(1), of st' c] by simp
  next
    case True
    obtain u l tk where est: "establishSession s now (ConnectionID req) u (claimed_movie req) l (st\<lparr>tokens := tk\<rparr>) = (r, st')"
      by (rule Logon_OK_cases [OF Pair True])
    note e = establishSession_OK [OF est True]
    have "RemapClientID (CurrentID (pool st) c) u (pool st) = (True, pool st')"
      using e(4) [OF assms(3)] assms(4) by simp
    moreover have "sys_ok st'"
      using sys_ok_Logon [of st s now req] assms(1) Pair by (simp add: core_ok_def)
    moreover have "UserLevel (sessions st') x = (if x = u then sint (word_of_int l :: 32 word)
        else if x = CurrentID (pool st) c then 0 else UserLevel (sessions st) x)" for x
      using e(3) by (simp add: logged_on_UserLevel assms(4))
    ultimately have "safe_from c st st'" using safe_remap [OF assms(1,2)] by blast
    then show ?thesis using Pair by simp
  qed
qed

lemma UserLevel_JoinMovie: "UserLevel (sessions (JoinMovie m u st)) x = UserLevel (sessions st) x"
  by (simp add: UserLevel_def GetUserAttribute_def JoinMovie_def JoinRoom_def Let_def)

lemma UserLevel_movieID [simp]: "UserLevel (SetUserAttribute u ''#movieID'' v m) x = UserLevel m x"
  by (simp add: UserLevel_def sa.get_set UserLevelAttribute_def)

lemma safe_movie:
  assumes "core_ok st"
  shows "safe_from c st ((JoinMovie mv u st)\<lparr>sessions := SetUserAttribute u ''#movieID'' v (sessions (JoinMovie mv u st))\<rparr>)"
proof (rule safe_same_pool [OF assms])
  show "sys_ok ((JoinMovie mv u st)\<lparr>sessions := SetUserAttribute u ''#movieID'' v (sessions (JoinMovie mv u st))\<rparr>)"
    using assms by (intro sys_ok_attribute sys_ok_JoinMovie) (simp add: core_ok_def)
qed (simp_all add: UserLevel_JoinMovie)

lemma safe_handleLogon:
  assumes "core_ok st" and "map_of (connToID (pool st)) c \<noteq> None" and "hasWriter env"
  shows "leaves (safe_from c st) (handleLogon env (CurrentID (pool st) c) m st)"
proof (rule leaves_handleLogon_steps)
  show "safe_from c st st" using assms(1) by (simp add: safe_from_def touches_only_refl)
  show "safe_from c st (snd (Logon (logon_of env st) (env_now env) req st))"
    if "ConnectionID req = CurrentID (pool st) c" for req
    using assms that by (intro safe_Logon) (simp_all add: logon_of_def)
  show "safe_from c st ((JoinMovie mv u st1)\<lparr>sessions := SetUserAttribute u ''#movieID'' v (sessions (JoinMovie mv u st1))\<rparr>)"
    if "safe_from c st st1" for mv u v st1
    using safe_trans [OF that safe_movie] that by (simp add: safe_from_def)
qed

section \<open>Frames\<close>

text \<open>What the script engine promises: scripts read the session store and the pool but never write them
  (they send messages and use the database), and a failing script is an error, not a panic.\<close>

definition confined :: "('tk, 'd) handler_env \<Rightarrow> bool" where
  "confined env \<longleftrightarrow>
     scripts_keep env (\<lambda>st st'. sessions st' = sessions st \<and> pool st' = pool st) \<and>
     (\<forall>e \<in> set_option (scripts env). \<forall>n s c st. fst (Execute e n s c st) \<noteq> Panic)"

definition sound_env :: "('tk, 'd, 'r) server_env \<Rightarrow> bool" where
  "sound_env env \<longleftrightarrow> confined (henv env) \<and> hasWriter (sys (henv env))"

lemma at_time_simps [simp]:
  "scripts (at_time env now) = scripts (henv env)" "hasWriter (sys (at_time env now)) = hasWriter (sys (henv env))"
  "confined (at_time env now) = confined (henv env)"
  by (simp_all add: at_time_def confined_def scripts_keep_def)

lemma safe_HandleRawMessage:
  assumes "core_ok st" and "map_of (connToID (pool st)) c \<noteq> None" and "confined env" and "hasWriter (sys env)"
  shows "leaves (safe_from c st) (HandleRawMessage env (CurrentID (pool st) c) data st)"
proof -
  have here: "safe_from c st st" using assms(1) by (simp add: safe_from_def touches_only_refl)
  have "leaves (safe_from c st) (Handle (sys env) (CurrentID (pool st) c) m st)" for m
    using here safe_quiet [OF assms(1)] safe_evict [OF assms(1)] safe_handleLogon [OF assms(1,2,4)]
    by (intro leaves_Handle)
  moreover have keep: "scripts_keep env (\<lambda>st st'. sessions st' = sessions st \<and> pool st' = pool st)"
    using assms(3) by (simp add: confined_def)
  ultimately show ?thesis
    using here assms(1) safe_net safe_confined
    by (intro leaves_HandleRawMessage leaves_Dispatch [OF _ keep]) auto
qed

lemma frame_step_open [simp]: "open_conns (fst (frame_step env now c host f sv)) = open_conns sv"
  by (simp add: frame_step_def Let_def case_prod_unfold split: go.splits)

lemma safe_frame_step:
  assumes "core_ok (core sv)" and "map_of (connToID (pool (core sv))) c \<noteq> None" and "sound_env env"
  shows "safe_from c (core sv) (core (fst (frame_step env now c host f sv)))"
proof -
  let ?id = "CurrentID (pool (core sv)) c"
  obtain r st where h: "HandleRawMessage (at_time env now) ?id f (core sv) = (r, st)" by fastforce
  have safe: "safe_from c (core sv) st"
    using safe_HandleRawMessage [OF assms(1,2), of "at_time env now" f] assms(3) h
    by (simp add: leaves_def sound_env_def)
  then have act: "safe_from c (core sv) (st\<lparr>sessions := UpdateLastActivity i now (sessions st)\<rparr>)" for i
    using safe_trans [OF safe safe_activity] by (simp add: safe_from_def)
  then have "safe_from c (core sv) (st\<lparr>sessions := UpdateLastActivity i now (sessions st), net := n\<rparr>)" for i n
    using safe_trans [OF act safe_net] by (simp add: safe_from_def)
  then show ?thesis
    using assms(1) safe act h
    by (auto simp: frame_step_def Let_def case_prod_unfold safe_from_def touches_only_refl split: go.splits)
qed

text \<open>The frames of one read.\<close>

lemma drain_keeps:
  assumes "I s" and "\<And>f s. I s \<Longrightarrow> I (fst (step f s))"
  shows "I (fst (drain m step buf s))"
  using assms
proof (induction m step buf s rule: drain.induct)
  case (1 m step buf s)
  show ?case
  proof (cases "nextFrame buf m")
    case (FrameOk f rest)
    then show ?thesis
      using "1.IH" [OF FrameOk refl prod.collapse] "1.prems"
      by (subst drain.simps) (simp add: case_prod_unfold Let_def)
  qed (use "1.prems"(1) in \<open>simp_all add: drain.simps\<close>)
qed

lemma safe_drain:
  fixes sv :: "('tk, 'd, 'r) server"
  assumes "core_ok (core sv)" and "map_of (connToID (pool (core sv))) c \<noteq> None" and "sound_env env"
  shows "safe_from c (core sv) (core (fst (drain m (frame_step env now c host) buf sv)))"
    and "open_conns (fst (drain m (frame_step env now c host) buf sv)) = open_conns sv"
proof -
  let ?I = "\<lambda>sv'. safe_from c (core sv) (core sv') \<and> open_conns sv' = open_conns sv"
  have "?I (fst (drain m (frame_step env now c host) buf sv))"
  proof (rule drain_keeps)
    show "?I sv" using assms(1) by (simp add: safe_from_def touches_only_refl)
    fix f and sv' :: "('tk, 'd, 'r) server" assume I: "?I sv'"
    then have "map_of (connToID (pool (core sv'))) c \<noteq> None"
      using assms(2) by (simp add: safe_from_def touches_only_def)
    then have "safe_from c (core sv') (core (fst (frame_step env now c host f sv')))"
      using I assms(3) by (intro safe_frame_step) (simp_all add: safe_from_def)
    then show "?I (fst (frame_step env now c host f sv'))" using I safe_trans by auto
  qed
  then show "safe_from c (core sv) (core (fst (drain m (frame_step env now c host) buf sv)))"
    and "open_conns (fst (drain m (frame_step env now c host) buf sv)) = open_conns sv" by simp_all
qed

section \<open>Reachable servers\<close>

definition open_ok :: "('tk, 'd, 'r) server \<Rightarrow> bool" where
  "open_ok sv \<longleftrightarrow> distinct (map fst (open_conns sv)) \<and>
     (\<forall>c. map_of (open_conns sv) c = None \<longleftrightarrow> map_of (connToID (pool (core sv))) c = None)"

definition server_ok :: "('tk, 'd, 'r) server \<Rightarrow> bool" where
  "server_ok sv \<longleftrightarrow> core_ok (core sv) \<and> open_ok sv"

lemma UserLevel_Unregister: "UserLevel (UnregisterConnection c m) u = (if u = c then 0 else UserLevel m u)"
  by (simp add: UserLevel_def sa.get_clear)

lemma disconnect_hook_confined:
  assumes "confined env"
  obtains st' where "disconnect_hook env subj i st = (False, st')" "sessions st' = sessions st" "pool st' = pool st"
proof (cases "scripts env")
  case None
  then show thesis using that [of st] by (simp add: disconnect_hook_def)
next
  case (Some e)
  then have "sessions (snd (Execute e subj i (Some LVoid) st)) = sessions st"
    "pool (snd (Execute e subj i (Some LVoid) st)) = pool st" "fst (Execute e subj i (Some LVoid) st) \<noteq> Panic"
    using assms by (simp_all add: confined_def scripts_keep_def)
  then show thesis
    using that [of st] that [of "snd (Execute e subj i (Some LVoid) st)"]
    by (cases "subj = [] \<or> i = [] \<or> \<not> HasScript e subj") (auto simp: disconnect_hook_def Some case_prod_unfold Let_def)
qed

lemma teardown_effect:
  assumes "confined (henv env)"
  shows "pool (core (teardown env now c sv)) = snd (Unregister c (pool (core sv)))"
    and "sessions (core (teardown env now c sv)) =
      UnregisterConnection (CurrentID (pool (core sv)) c) (sessions (core sv))"
    and "open_conns (teardown env now c sv) = AList.delete c (open_conns sv)"
proof -
  let ?st = "(core sv)\<lparr>pool := snd (Unregister c (pool (core sv)))\<rparr>"
  have u: "Unregister c (pool (core sv)) = (CurrentID (pool (core sv)) c, snd (Unregister c (pool (core sv))))"
    by (simp add: Unregister_def Let_def)
  obtain st' where "disconnect_hook (at_time env now) (hookSubject env) (CurrentID (pool (core sv)) c) ?st = (False, st')"
    "sessions st' = sessions ?st" "pool st' = pool ?st"
    by (rule disconnect_hook_confined [where env = "at_time env now" and subj = "hookSubject env"
          and i = "CurrentID (pool (core sv)) c" and st = ?st]) (use assms in simp_all)
  then show "pool (core (teardown env now c sv)) = snd (Unregister c (pool (core sv)))"
    and "sessions (core (teardown env now c sv)) =
      UnregisterConnection (CurrentID (pool (core sv)) c) (sessions (core sv))"
    and "open_conns (teardown env now c sv) = AList.delete c (open_conns sv)"
    by (simp_all add: teardown_def case_prod_unfold u [THEN arg_cong, of fst, simplified])
qed

lemma Unregister_lookup:
  "map_of (clients (snd (Unregister c p))) i = (if i = CurrentID p c then None else map_of (clients p) i)"
  "map_of (connToID (snd (Unregister c p))) d = (if d = c then None else map_of (connToID p) d)"
  by (simp_all add: Unregister_def Let_def gomap_simps)

lemma open_registered:
  assumes "server_ok sv" and "map_of (open_conns sv) c \<noteq> None"
  shows "map_of (connToID (pool (core sv))) c \<noteq> None"
  using assms by (simp add: server_ok_def open_ok_def)

lemma server_ok_teardown:
  assumes "server_ok sv" and "map_of (open_conns sv) c \<noteq> None" and "confined (henv env)"
  shows "server_ok (teardown env now c sv)"
proof -
  note eff = teardown_effect [OF assms(3)]
  obtain i where i: "map_of (connToID (pool (core sv))) c = Some i"
    using open_registered [OF assms(1,2)] by blast
  have "sys_ok (core (teardown env now c sv))"
    using assms(1) pool_ok_Unregister [OF _ i] by (simp add: sys_ok_def server_ok_def core_ok_def eff)
  moreover have "levels_ok (core (teardown env now c sv))"
    using assms(1) by (simp add: levels_ok_def server_ok_def core_ok_def eff Unregister_lookup UserLevel_Unregister)
  moreover have "open_ok (teardown env now c sv)"
    using assms(1) by (simp add: open_ok_def server_ok_def eff Unregister_lookup gomap_simps distinct_delete)
  ultimately show ?thesis by (simp add: server_ok_def core_ok_def)
qed

lemma server_ok_safe:
  assumes "server_ok sv" and "safe_from c (core sv) (core sv')" and "open_conns sv' = open_conns sv"
  shows "server_ok sv'"
  using assms by (simp add: server_ok_def open_ok_def safe_from_def touches_only_def)

lemma server_ok_rebuffer:
  "server_ok sv \<Longrightarrow> map_of (open_conns sv) c \<noteq> None \<Longrightarrow> server_ok (sv\<lparr>open_conns := AList.update c x (open_conns sv)\<rparr>)"
  by (auto simp: server_ok_def open_ok_def gomap_simps distinct_update)

lemma server_ok_on_read:
  assumes "server_ok sv" and "sound_env env"
  shows "server_ok (on_read env now c chunk sv)"
proof (cases "map_of (open_conns sv) c")
  case None
  then show ?thesis using assms(1) by (simp add: on_read_def)
next
  case (Some k)
  let ?d = "drain (MaxMessageSize env) (frame_step env now c (conn_host k)) (acc k @ chunk) sv"
  have "map_of (connToID (pool (core sv))) c \<noteq> None" using open_registered [OF assms(1)] Some by blast
  note d = safe_drain [OF _ this assms(2), of "MaxMessageSize env" now "conn_host k" "acc k @ chunk"]
  have ok: "server_ok (fst ?d)" "open_conns (fst ?d) = open_conns sv"
    using assms(1) d server_ok_safe [OF assms(1)] by (simp_all add: server_ok_def)
  show ?thesis
  proof (cases "snd ?d")
    case None
    then show ?thesis
      using ok server_ok_teardown [OF ok(1), of c env now] Some assms(2)
      by (cases ?d) (simp add: on_read_def Some sound_env_def)
  next
    case (Some rest)
    have "server_ok ((fst ?d)\<lparr>open_conns := AList.update c (k\<lparr>acc := rest\<rparr>) (open_conns (fst ?d))\<rparr>)"
      using ok \<open>map_of (open_conns sv) c = Some k\<close> by (intro server_ok_rebuffer) simp_all
    then show ?thesis
      using \<open>map_of (open_conns sv) c = Some k\<close> Some by (cases ?d) (simp add: on_read_def)
  qed
qed

lemma server_ok_on_accept:
  assumes "server_ok sv" and "map_of (open_conns sv) c = None" and "map_of (clients (pool (core sv))) addr = None"
  shows "server_ok (on_accept env now c addr host sv)"
proof -
  have c: "map_of (connToID (pool (core sv))) c = None" using assms(1,2) by (simp add: server_ok_def open_ok_def)
  have p: "pool_ok (Register c addr (pool (core sv)))"
    using assms(1,3) c by (intro pool_ok_Register) (simp_all add: server_ok_def core_ok_def sys_ok_def)
  have look: "map_of (clients (Register c addr p)) x = (if x = addr then Some c else map_of (clients p) x)"
    "map_of (connToID (Register c addr p)) d = (if d = c then Some addr else map_of (connToID p) d)" for p x d
    by (simp_all add: Register_def gomap_simps)
  have lv: "UserLevel (RegisterConnection addr addr now m) u = UserLevel m u" for m u
    by (simp add: UserLevel_def)
  show ?thesis
    using assms(1) p
    by (auto simp: on_accept_def Let_def case_prod_unfold server_ok_def core_ok_def sys_ok_def levels_ok_def open_ok_def
        look lv gomap_simps distinct_update)
qed

lemma fold_safe:
  assumes "core_ok st" and "\<And>x st. core_ok st \<Longrightarrow> safe_from c st (f x st)"
  shows "safe_from c st (fold f xs st)"
  using assms
proof (induction xs arbitrary: st)
  case Nil
  then show ?case by (simp add: safe_from_def touches_only_refl)
next
  case (Cons x xs)
  then have "safe_from c st (f x st)" by blast
  moreover have "safe_from c (f x st) (fold f xs (f x st))"
    using Cons calculation by (simp add: safe_from_def)
  ultimately show ?case using safe_trans by simp
qed

lemma safe_check_idle: "core_ok st \<Longrightarrow> safe_from c st (check_idle w t now st)"
  unfolding check_idle_def by (rule fold_safe) (simp_all add: safe_evict, simp add: safe_from_def touches_only_refl)

lemma safe_run_timer: "core_ok st \<Longrightarrow> safe_from c st (run_timer w i act st)"
proof -
  assume ok: "core_ok st"
  have t: "core_ok (st\<lparr>kill_timers := t\<rparr>)" "safe_from c st (st\<lparr>kill_timers := t\<rparr>)" for t
    using ok safe_confined [OF ok, of "st\<lparr>kill_timers := t\<rparr>" c] by (simp_all add: safe_from_def)
  then show ?thesis
    using ok safe_trans [OF t(2) safe_evict [OF t(1)]] safe_trans [OF t(2) safe_net [OF t(1)]]
    by (simp add: run_timer_def Let_def safe_from_def touches_only_refl split: timer_action.splits)
qed

text \<open>The histories of a server: a new connection has a fresh address.\<close>

fun legal :: "event \<Rightarrow> ('tk, 'd, 'r) server \<Rightarrow> bool" where
  "legal (Accept c addr host) sv \<longleftrightarrow> map_of (open_conns sv) c = None \<and> map_of (clients (pool (core sv))) addr = None"
| "legal _ sv \<longleftrightarrow> True"

definition started_server :: "('tk, 'd, 'r) server \<Rightarrow> bool" where
  "started_server sv \<longleftrightarrow> sessions (core sv) = NewMemorySessionStore \<and> pool (core sv) = NewConnPool \<and> open_conns sv = []"

inductive server_reach :: "('tk, 'd, 'r) server_env \<Rightarrow> ('tk, 'd, 'r) server \<Rightarrow> bool" for env where
  start: "started_server sv \<Longrightarrow> server_reach env sv"
| step: "server_reach env sv \<Longrightarrow> legal e sv \<Longrightarrow> server_reach env (server_step env now e sv)"

lemma server_ok_start: "started_server sv \<Longrightarrow> server_ok sv"
  by (simp add: started_server_def server_ok_def core_ok_def sys_ok_def levels_ok_def open_ok_def UserLevel_def
      GetUserAttribute_def NewMemorySessionStore_def [THEN arg_cong, of attributes, simplified] NewConnPool_def [THEN arg_cong, of connToID, simplified])

lemma server_ok_step:
  assumes "server_ok sv" and "legal e sv" and "sound_env env"
  shows "server_ok (server_step env now e sv)"
proof -
  have core: "core_ok (core sv)" using assms(1) by (simp add: server_ok_def)
  show ?thesis
  proof (cases e)
    case (Read c chunk)
    then show ?thesis using server_ok_on_read [OF assms(1,3)] by simp
  next
    case (Hangup c)
    then show ?thesis
      using assms(1,3) server_ok_teardown [OF assms(1), of c env now]
      by (simp add: on_hangup_def sound_env_def split: option.splits)
  next
    case (Accept c addr host)
    then show ?thesis using server_ok_on_accept [OF assms(1)] assms(2) by simp
  next
    case IdleCheck
    then show ?thesis
      using safe_check_idle [OF core] by (intro server_ok_safe [OF assms(1)]) simp_all
  next
    case (Expire i)
    then show ?thesis
      by (intro server_ok_safe [OF assms(1)] safe_confined core) simp_all
  next
    case (RunTimer i act)
    then show ?thesis
      using safe_run_timer [OF core] by (intro server_ok_safe [OF assms(1)]) simp_all
  qed
qed

lemma server_reach_ok: "server_reach env sv \<Longrightarrow> sound_env env \<Longrightarrow> server_ok sv"
  by (induction rule: server_reach.induct) (simp_all add: server_ok_start server_ok_step)

section \<open>Properties\<close>


lemma read_levels:
  assumes "server_ok sv" and "sound_env env"
    and "UserLevel (sessions (core (on_read env now c chunk sv))) u \<notin> {UserLevel (sessions (core sv)) u, 0}"
  shows "map_of (clients (pool (core (on_read env now c chunk sv)))) u = Some c"
proof (cases "map_of (open_conns sv) c")
  case None
  then show ?thesis using assms(3) by (simp add: on_read_def)
next
  case (Some k)
  let ?d = "drain (MaxMessageSize env) (frame_step env now c (conn_host k)) (acc k @ chunk) sv"
  have reg: "map_of (connToID (pool (core sv))) c \<noteq> None" using open_registered [OF assms(1)] Some by blast
  have safe: "safe_from c (core sv) (core (fst ?d))"
    using safe_drain(1) [OF _ reg assms(2)] assms(1) by (simp add: server_ok_def)
  show ?thesis
  proof (cases "snd ?d")
    case (Some rest)
    then have "core (on_read env now c chunk sv) = core (fst ?d)"
      using \<open>map_of (open_conns sv) c = Some k\<close> by (cases ?d) (simp add: on_read_def)
    then show ?thesis using safe assms(3) by (simp add: safe_from_def touches_only_def)
  next
    case None
    then have r: "on_read env now c chunk sv = teardown env now c (fst ?d)"
      using \<open>map_of (open_conns sv) c = Some k\<close> by (cases ?d) (simp add: on_read_def)
    have conf: "confined (henv env)" using assms(2) by (simp add: sound_env_def)
    let ?p = "pool (core (fst ?d))"
    have u: "u \<noteq> CurrentID ?p c" "UserLevel (sessions (core (fst ?d))) u \<notin> {UserLevel (sessions (core sv)) u, 0}"
      using assms(3) by (auto simp: r teardown_effect [OF conf] UserLevel_Unregister split: if_splits)
    then have "map_of (clients ?p) u = Some c" using safe by (simp add: safe_from_def touches_only_def)
    then show ?thesis using u(1) by (simp add: r teardown_effect [OF conf] Unregister_lookup)
  qed
qed



text \<open>C25.  When a connection ends, nothing of it stays: its identity is free again, its session, its
  attributes and its room memberships are gone, and everybody else keeps theirs.\<close>

theorem hangup_clears:
  assumes "server_reach env sv" and "sound_env env" and "map_of (open_conns sv) c = Some k"
    and "u = CurrentID (pool (core sv)) c" and "sv' = server_step env now (Hangup c) sv"
  shows "map_of (open_conns sv') c = None \<and> map_of (clients (pool (core sv'))) u = None \<and>
    GetConnection (sessions (core sv')) u = None \<and> (\<forall>a. GetUserAttribute (sessions (core sv')) u a = LVoid) \<and>
    (\<forall>r. u \<notin> set (GetRoomMembers (sessions (core sv')) r)) \<and>
    (\<forall>x. x \<noteq> u \<longrightarrow> map_of (clients (pool (core sv'))) x = map_of (clients (pool (core sv))) x \<and>
       GetConnection (sessions (core sv')) x = GetConnection (sessions (core sv)) x \<and>
       (\<forall>a. GetUserAttribute (sessions (core sv')) x a = GetUserAttribute (sessions (core sv)) x a) \<and>
       (\<forall>r. x \<in> set (GetRoomMembers (sessions (core sv')) r) \<longleftrightarrow> x \<in> set (GetRoomMembers (sessions (core sv)) r)))"
proof -
  have conf: "confined (henv env)" using assms(2) by (simp add: sound_env_def)
  have "server_ok sv" by (rule server_reach_ok [OF assms(1,2)])
  then have ok: "session_ok (sessions (core sv))" by (simp add: server_ok_def core_ok_def sys_ok_def)
  have sv': "sv' = teardown env now c sv" using assms(3,5) by (simp add: on_hangup_def)
  show ?thesis
    unfolding sv' teardown_effect [OF conf] assms(4)
    using ok by (auto simp: Unregister_lookup gomap_simps sa.get_clear ss.members_leave_all)
qed

definition idle :: "int \<Rightarrow> int \<Rightarrow> session_store \<Rightarrow> string \<Rightarrow> bool" where
  "idle timeout now s u \<longleftrightarrow> (\<exists>i. GetConnection s u = Some i \<and> now - last_seen i > timeout)"

lemma all_connections:
  assumes "session_ok s"
  shows "i \<in> set (GetAllConnections s) \<and> ClientID i = x \<longleftrightarrow> GetConnection s x = Some i"
proof -
  have ok: "conns_ok (connections s)" using assms by (simp add: session_ok_iff)
  have "map_of (connections s) k = Some i" if "(k, i) \<in> set (connections s)" for k
    using ok that by (simp add: conns_ok_def map_of_is_SomeI)
  then show ?thesis
    using conns_okD [OF ok, of x i] conns_okD [OF ok, of _ i] map_of_SomeD [of "connections s" x i]
    by (force simp: GetAllConnections_def GetConnection_def)
qed

lemma GetConnection_LeaveAllRooms: "GetConnection (LeaveAllRooms c m) u = GetConnection m u"
  by (simp add: GetConnection_def)

lemma fold_evict_sessions:
  assumes "session_ok (sessions st)"
  shows "session_ok (sessions (fold (\<lambda>i st. if P i then evict w (ClientID i) st else st) cs st))"
    and "GetConnection (sessions (fold (\<lambda>i st. if P i then evict w (ClientID i) st else st) cs st)) u =
      (if \<exists>i \<in> set cs. P i \<and> ClientID i = u then None else GetConnection (sessions st) u)"
    and "set (GetRoomMembers (sessions (fold (\<lambda>i st. if P i then evict w (ClientID i) st else st) cs st)) r) =
      {x \<in> set (GetRoomMembers (sessions st) r). \<not> (\<exists>i \<in> set cs. P i \<and> ClientID i = x)}"
  using assms
proof (induction cs arbitrary: st)
  case (Cons i cs)
  {
    case 1
    then show ?case using Cons.IH(1) by simp
  next
    case 2
    then show ?case using Cons.IH(2) by (auto simp: GetConnection_LeaveAllRooms)
  next
    case 3
    then show ?case using Cons.IH(3) by (auto simp: ss.members_leave_all)
  }
qed simp_all

text \<open>The idle check disconnects exactly the users that have been silent for longer than the timeout:
  they lose their session and their rooms, the others keep both.\<close>

theorem check_idle_exact:
  assumes "session_ok (sessions st)"
  shows "GetConnection (sessions (check_idle w timeout now st)) u =
      (if idle timeout now (sessions st) u then None else GetConnection (sessions st) u) \<and>
    set (GetRoomMembers (sessions (check_idle w timeout now st)) r) =
      {x \<in> set (GetRoomMembers (sessions st) r). \<not> idle timeout now (sessions st) x}"
proof -
  have "(\<exists>i \<in> set (GetAllConnections (sessions st)). now - last_seen i > timeout \<and> ClientID i = x) \<longleftrightarrow>
      idle timeout now (sessions st) x" for x
  proof -
    have "i \<in> set (GetAllConnections (sessions st)) \<and> ClientID i = x \<longleftrightarrow> GetConnection (sessions st) x = Some i" for i
      using all_connections [OF assms] by simp
    then show ?thesis by (auto simp: idle_def)
  qed
  then show ?thesis
    unfolding check_idle_def fold_evict_sessions(2,3) [OF assms] by simp
qed

section \<open>An example\<close>

definition example_server_env :: "(unit, nat, unit) server_env" where
  "example_server_env =
     \<lparr>henv = example_handler, MaxMessageSize = 8192, banned = None, Allow = None, hookSubject = [], idleTimeout = 60\<rparr>"

definition fresh_server :: "(unit, nat, unit) server" where
  "fresh_server =
     \<lparr>core = \<lparr>sessions = NewMemorySessionStore, pool = NewConnPool, tokens = (), movies = [],
        net = \<lparr>sent = [], closed = [], failing = []\<rparr>, db = 0, kill_timers = NewTimerManager, mails = []\<rparr>,
      aux = (), open_conns = []\<rparr>"

definition logon_frame :: bytes where
  "logon_frame = the (message_bytes (NewResponse 0 ''Logon'' [] [''System''] 0
     (Some (LList [LString ''farm'', LString ''ann'', LString ''pw'']))))"

definition ex_connected :: "(unit, nat, unit) server" where
  "ex_connected = server_step example_server_env 100 (Accept 1 ''10.0.0.1:5000'' ''10.0.0.1'') fresh_server"

definition ex_logged_on :: "(unit, nat, unit) server" where
  "ex_logged_on = server_step example_server_env 101 (Read 1 logon_frame) ex_connected"

lemma example_logged_on:
  "UserLevel (sessions (core ex_logged_on)) ''ann'' = 20 \<and> UserLevel (sessions (core ex_connected)) ''ann'' = 0 \<and>
   CurrentID (pool (core ex_logged_on)) 1 = ''ann'' \<and> map_of (open_conns ex_logged_on) 1 \<noteq> None"
  by code_simp

lemma example_sound: "sound_env example_server_env"
  by (simp add: sound_env_def confined_def scripts_keep_def example_server_env_def example_handler_def example_sys_env_def)

lemma example_reach: "server_reach example_server_env ex_connected" "server_reach example_server_env ex_logged_on"
proof -
  have "server_reach example_server_env fresh_server"
    by (rule server_reach.start) (simp add: started_server_def fresh_server_def)
  then show "server_reach example_server_env ex_connected"
    unfolding ex_connected_def by (rule server_reach.step) (simp add: fresh_server_def NewConnPool_def)
  then show "server_reach example_server_env ex_logged_on"
    unfolding ex_logged_on_def by (rule server_reach.step) simp
qed




theorem hangup_clears_witness:
  "map_of (clients (pool (core (server_step example_server_env 103 (Hangup 1) ex_logged_on)))) ''ann'' = None \<and>
   ''ann'' \<notin> set (GetRoomMembers (sessions (core (server_step example_server_env 103 (Hangup 1) ex_logged_on))) ''movie:farm'')"
proof -
  obtain k where "map_of (open_conns ex_logged_on) 1 = Some k" using example_logged_on by blast
  moreover have "''ann'' = CurrentID (pool (core ex_logged_on)) 1" using example_logged_on by simp
  ultimately show ?thesis
    using hangup_clears [OF example_reach(2) example_sound] by blast
qed

theorem check_idle_exact_witness:
  "GetConnection (sessions (check_idle True 60 200 (core ex_logged_on))) ''ann'' = None"
proof -
  have "session_ok (sessions (core ex_logged_on))"
    using server_reach_ok [OF example_reach(2) example_sound] by (simp add: server_ok_def core_ok_def sys_ok_def)
  moreover have "GetConnection (sessions (core ex_logged_on)) ''ann'' =
      Some \<lparr>ClientID = ''ann'', IP = ''10.0.0.1:5000'', ConnectedAt = 101, LastActivityAt = 101\<rparr>"
    by code_simp
  ultimately show ?thesis
    using check_idle_exact [of "core ex_logged_on" True 60 200 "''ann''"] by (simp add: idle_def last_seen_def zero_time_def)
qed

end
