(* ===== verification/Config.thy ===== *)
theory Config
  imports Strconv Logon "HOL-Library.Sublist"
begin

text \<open>
  The configuration of \<open>internal/config/config.go\<close>: the process environment, the defaults, and the table
  of command levels with its overrides.  The environment is a list of names and values; the \<open>.env\<close> file
  that \<open>godotenv\<close> may have merged into it is part of it.
\<close>


section \<open>The environment\<close>

text \<open>\<open>os.LookupEnv\<close> is \<^const>\<open>map_of\<close>; \<open>os.Environ\<close> gives the entries as name, equals sign, value.\<close>

type_synonym environment = "string gomap"

definition Environ :: "environment \<Rightarrow> string list" where
  "Environ env = map (\<lambda>(k, v). k @ ''='' @ v) env"

definition getEnv :: "environment \<Rightarrow> string \<Rightarrow> string \<Rightarrow> string" where
  "getEnv env key fallback = (case map_of env key of Some value \<Rightarrow> value | None \<Rightarrow> fallback)"

definition getEnvInt :: "environment \<Rightarrow> string \<Rightarrow> int \<Rightarrow> int" where
  "getEnvInt env key fallback =
     (case map_of env key of
        Some value \<Rightarrow> (case ParseInt value of Some n \<Rightarrow> n | None \<Rightarrow> fallback)
      | None \<Rightarrow> fallback)"


section \<open>Command levels\<close>

definition defaultCommandLevels :: "int gomap" where
  "defaultCommandLevels =
     [(''system.server.getVersion'', 20),
      (''system.server.getTime'', 20),
      (''system.server.getUserCount'', 20),
      (''system.server.getMovieCount'', 20),
      (''system.server.getMovies'', 20),
      (''system.movie.getUserCount'', 20),
      (''system.movie.getGroups'', 20),
      (''system.movie.getGroupCount'', 20),
      (''system.group.join'', 20),
      (''system.group.leave'', 20),
      (''system.group.getUsers'', 20),
      (''system.group.getUserCount'', 20),
      (''system.group.setAttribute'', 20),
      (''system.group.getAttribute'', 20),
      (''system.group.deleteAttribute'', 20),
      (''system.group.getAttributeNames'', 20),
      (''system.user.getAddress'', 20),
      (''system.user.getGroups'', 20),
      (''system.user.delete'', 80),
      (''DBPlayer.getAttribute'', 20),
      (''DBPlayer.setAttribute'', 20),
      (''DBPlayer.deleteAttribute'', 20),
      (''DBPlayer.getAttributeNames'', 20),
      (''DBApplication.getAttribute'', 80),
      (''DBApplication.setAttribute'', 80),
      (''DBApplication.deleteAttribute'', 80),
      (''DBApplication.getAttributeNames'', 80),
      (''DBAdmin.createApplication'', 80),
      (''DBAdmin.deleteApplication'', 80),
      (''DBAdmin.createUser'', 80),
      (''DBAdmin.deleteUser'', 80),
      (''DBAdmin.getUserCount'', 80),
      (''DBAdmin.ban'', 80),
      (''DBAdmin.revokeBan'', 80),
      (''system.server.sendEmail'', 80),
      (''system.server.setKillTimer'', 80),
      (''system.server.cancelKillTimer'', 80),
      (''system.user.setKillTimer'', 80),
      (''system.user.cancelKillTimer'', 80)]"

text \<open>\<open>strings.ToUpper(strings.ReplaceAll(subject, ".", "_"))\<close>, on ASCII.\<close>

definition upper_char :: "char \<Rightarrow> char" where
  "upper_char c = (let n = (of_char c :: nat) in if 97 \<le> n \<and> n \<le> 122 then char_of (n - 32) else c)"

definition normalized :: "string \<Rightarrow> string" where
  "normalized subject = map (\<lambda>c. upper_char (if c = CHR ''.'' then CHR ''_'' else c)) subject"

definition lookup_table :: "string gomap" where
  "lookup_table = fold (\<lambda>(subject, _) m. AList.update (normalized subject) subject m) defaultCommandLevels []"

text \<open>\<open>strings.IndexByte(env, '=')\<close> and the two slices around it.\<close>

definition split_eq :: "string \<Rightarrow> (string \<times> string) option" where
  "split_eq s =
     (case dropWhile (\<lambda>c. c \<noteq> CHR ''='') s of
        [] \<Rightarrow> None
      | _ # val \<Rightarrow> Some (takeWhile (\<lambda>c. c \<noteq> CHR ''='') s, val))"

definition override :: "string \<Rightarrow> int gomap \<Rightarrow> int gomap" where
  "override entry levels =
     (if \<not> prefix ''USERLEVEL_'' entry then levels
      else case split_eq entry of
        None \<Rightarrow> levels
      | Some (key, val) \<Rightarrow>
          (case map_of lookup_table (trim_prefix ''USERLEVEL_'' key) of
             None \<Rightarrow> levels
           | Some subject \<Rightarrow>
               (case ParseInt val of Some n \<Rightarrow> AList.update subject n levels | None \<Rightarrow> levels)))"

definition loadCommandLevels :: "environment \<Rightarrow> int gomap" where
  "loadCommandLevels env = fold override (Environ env) defaultCommandLevels"

section \<open>The overrides\<close>

definition environment_ok :: "environment \<Rightarrow> bool" where
  "environment_ok env \<longleftrightarrow> distinct (map fst env) \<and> (\<forall>k \<in> fst ` set env. CHR ''='' \<notin> set k)"

definition level_var :: "string \<Rightarrow> string" where
  "level_var subject = ''USERLEVEL_'' @ normalized subject"

lemma normalized_defaults:
  "map normalized (map fst defaultCommandLevels) =
     [''SYSTEM_SERVER_GETVERSION'',
      ''SYSTEM_SERVER_GETTIME'',
      ''SYSTEM_SERVER_GETUSERCOUNT'',
      ''SYSTEM_SERVER_GETMOVIECOUNT'',
      ''SYSTEM_SERVER_GETMOVIES'',
      ''SYSTEM_MOVIE_GETUSERCOUNT'',
      ''SYSTEM_MOVIE_GETGROUPS'',
      ''SYSTEM_MOVIE_GETGROUPCOUNT'',
      ''SYSTEM_GROUP_JOIN'',
      ''SYSTEM_GROUP_LEAVE'',
      ''SYSTEM_GROUP_GETUSERS'',
      ''SYSTEM_GROUP_GETUSERCOUNT'',
      ''SYSTEM_GROUP_SETATTRIBUTE'',
      ''SYSTEM_GROUP_GETATTRIBUTE'',
      ''SYSTEM_GROUP_DELETEATTRIBUTE'',
      ''SYSTEM_GROUP_GETATTRIBUTENAMES'',
      ''SYSTEM_USER_GETADDRESS'',
      ''SYSTEM_USER_GETGROUPS'',
      ''SYSTEM_USER_DELETE'',
      ''DBPLAYER_GETATTRIBUTE'',
      ''DBPLAYER_SETATTRIBUTE'',
      ''DBPLAYER_DELETEATTRIBUTE'',
      ''DBPLAYER_GETATTRIBUTENAMES'',
      ''DBAPPLICATION_GETATTRIBUTE'',
      ''DBAPPLICATION_SETATTRIBUTE'',
      ''DBAPPLICATION_DELETEATTRIBUTE'',
      ''DBAPPLICATION_GETATTRIBUTENAMES'',
      ''DBADMIN_CREATEAPPLICATION'',
      ''DBADMIN_DELETEAPPLICATION'',
      ''DBADMIN_CREATEUSER'',
      ''DBADMIN_DELETEUSER'',
      ''DBADMIN_GETUSERCOUNT'',
      ''DBADMIN_BAN'',
      ''DBADMIN_REVOKEBAN'',
      ''SYSTEM_SERVER_SENDEMAIL'',
      ''SYSTEM_SERVER_SETKILLTIMER'',
      ''SYSTEM_SERVER_CANCELKILLTIMER'',
      ''SYSTEM_USER_SETKILLTIMER'',
      ''SYSTEM_USER_CANCELKILLTIMER'']"
  by (simp add: defaultCommandLevels_def normalized_def upper_char_def char_of_eq_iff)

lemma normalized_distinct: "distinct (map normalized (map fst defaultCommandLevels))"
  unfolding normalized_defaults by simp

lemma fold_update_append:
  assumes "distinct (map fst m @ map f (map fst xs))"
  shows "fold (\<lambda>(s, _) m. AList.update (f s) s m) xs m = m @ map (\<lambda>(s, _). (f s, s)) xs"
  using assms
proof (induction xs arbitrary: m)
  case (Cons x xs)
  have "AList.update k v m = m @ [(k, v)]" if "k \<notin> fst ` set m" for k v
    using that by (induction m) auto
  then show ?case using Cons by (cases x) auto
qed simp

lemma lookup_table_eq: "lookup_table = map (\<lambda>(s, _). (normalized s, s)) defaultCommandLevels"
  unfolding lookup_table_def using normalized_distinct fold_update_append [of "[]" normalized] by simp

lemma map_of_index:
  assumes "distinct (map f (map fst xs))"
  shows "map_of (map (\<lambda>(s, _). (f s, s)) xs) k = Some s \<longleftrightarrow> s \<in> fst ` set xs \<and> f s = k"
proof
  assume "map_of (map (\<lambda>(s, _). (f s, s)) xs) k = Some s"
  from map_of_SomeD [OF this] show "s \<in> fst ` set xs \<and> f s = k" by force
next
  assume "s \<in> fst ` set xs \<and> f s = k"
  then show "map_of (map (\<lambda>(s, _). (f s, s)) xs) k = Some s"
    using assms by (intro map_of_is_SomeI) (auto simp: comp_def case_prod_unfold)
qed

lemma lookup_table_iff:
  "map_of lookup_table k = Some s \<longleftrightarrow> s \<in> fst ` set defaultCommandLevels \<and> normalized s = k"
  unfolding lookup_table_eq using normalized_distinct by (rule map_of_index)

lemma split_eq_entry: "CHR ''='' \<notin> set k \<Longrightarrow> split_eq (k @ CHR ''='' # v) = Some (k, v)"
  by (induction k) (simp_all add: split_eq_def split: list.splits)

lemma prefix_before: "x \<notin> set p \<Longrightarrow> prefix p (k @ x # v) \<longleftrightarrow> prefix p k"
  by (induction p arbitrary: k) (auto simp: prefix_Cons Cons_eq_append_conv prefix_append split: list.splits)

lemma override_entry:
  assumes "CHR ''='' \<notin> set k"
  shows "map_of (override (k @ CHR ''='' # v) levels) s =
    (if s \<in> fst ` set defaultCommandLevels \<and> k = level_var s \<and> ParseInt v \<noteq> None then ParseInt v else map_of levels s)"
proof (cases "prefix ''USERLEVEL_'' k")
  case False
  then show ?thesis by (auto simp: override_def prefix_before level_var_def)
next
  case True
  then obtain t where t: "k = ''USERLEVEL_'' @ t" by (auto simp: prefix_def)
  have trim: "trim_prefix ''USERLEVEL_'' k = t" unfolding t by (rule trim_prefix_append)
  have ov: "override (k @ CHR ''='' # v) levels =
      (case map_of lookup_table t of None \<Rightarrow> levels
       | Some subject \<Rightarrow> (case ParseInt v of Some n \<Rightarrow> AList.update subject n levels | None \<Rightarrow> levels))"
    using True by (simp add: override_def prefix_before split_eq_entry assms trim)
  have k: "k = level_var s \<longleftrightarrow> normalized s = t" by (auto simp: t level_var_def)
  show ?thesis
  proof (cases "map_of lookup_table t")
    case None
    then have "\<not> (s \<in> fst ` set defaultCommandLevels \<and> normalized s = t)" by (metis lookup_table_iff option.distinct(1))
    then show ?thesis unfolding ov k using None by auto
  next
    case (Some subj)
    then have "s \<in> fst ` set defaultCommandLevels \<and> normalized s = t \<longleftrightarrow> s = subj"
      by (metis lookup_table_iff option.inject)
    then show ?thesis unfolding ov k using Some by (cases "ParseInt v") (auto simp: gomap_simps)
  qed
qed

lemma fold_override:
  assumes "environment_ok env"
  shows "map_of (fold override (Environ env) levels) s =
    (if s \<in> fst ` set defaultCommandLevels \<and> Option.bind (map_of env (level_var s)) ParseInt \<noteq> None
     then Option.bind (map_of env (level_var s)) ParseInt else map_of levels s)"
  using assms
proof (induction env arbitrary: levels)
  case (Cons e env)
  obtain k v where e: "e = (k, v)" by (cases e)
  have k: "CHR ''='' \<notin> set k" "map_of env k = None" "environment_ok env"
    using Cons.prems by (auto simp: environment_ok_def e map_of_eq_None_iff)
  show ?case
    using Cons.IH [OF k(3), of "override (k @ CHR ''='' # v) levels"] k(2)
    by (auto simp: Environ_def e override_entry [OF k(1)])
qed (simp add: Environ_def)


section \<open>Properties\<close>

text \<open>C27.  The level table has exactly the commands of the defaults, whatever the environment says.  The
  level of a command is the value of its \<open>USERLEVEL\<close> variable when that is an integer, and its default
  otherwise.\<close>

theorem command_levels_exact:
  assumes "environment_ok env"
  shows "map_of (loadCommandLevels env) command =
    (case map_of defaultCommandLevels command of
       None \<Rightarrow> None
     | Some level \<Rightarrow> Some (getEnvInt env (level_var command) level))"
proof -
  have "command \<in> fst ` set defaultCommandLevels \<longleftrightarrow> map_of defaultCommandLevels command \<noteq> None"
    by (metis map_of_eq_None_iff)
  then show ?thesis
    unfolding loadCommandLevels_def fold_override [OF assms] getEnvInt_def
    by (cases "map_of defaultCommandLevels command"; cases "map_of env (level_var command)") (simp_all split: option.splits)
qed

theorem command_levels_exact_witness:
  "map_of (loadCommandLevels [(''PORT'', ''1199''), (''USERLEVEL_DBPLAYER_GETATTRIBUTE'', ''40'')]) ''DBPlayer.getAttribute'' = Some 40 \<and>
   map_of (loadCommandLevels [(''PORT'', ''1199''), (''USERLEVEL_DBPLAYER_GETATTRIBUTE'', ''40'')]) ''DBAdmin.ban'' = Some 80"
proof -
  let ?env = "[(''PORT'', ''1199''), (''USERLEVEL_DBPLAYER_GETATTRIBUTE'', ''40'')]"
  have "environment_ok ?env" by (simp add: environment_ok_def)
  moreover have "map_of defaultCommandLevels ''DBPlayer.getAttribute'' = Some 20" "map_of defaultCommandLevels ''DBAdmin.ban'' = Some 80"
    by (simp_all add: defaultCommandLevels_def)
  moreover have "level_var ''DBPlayer.getAttribute'' = ''USERLEVEL_DBPLAYER_GETATTRIBUTE''"
    "level_var ''DBAdmin.ban'' = ''USERLEVEL_DBADMIN_BAN''" "ParseInt ''40'' = Some 40"
    by (simp_all add: level_var_def normalized_def upper_char_def char_of_eq_iff) (simp add: ParseInt_def split_sign_def
      digit_value_def int64_range_def)
  ultimately show ?thesis using command_levels_exact [of ?env] by (simp add: getEnvInt_def)
qed

section \<open>The server configuration\<close>

record redis_config =
  rd_Host :: string
  rd_Port :: string
  rd_Password :: string
  rd_DB :: string
  rd_KeyPrefix :: string
  rd_ConnTTL :: string

record rabbitmq_config =
  mq_Host :: string
  mq_Port :: string
  mq_User :: string
  mq_Password :: string
  mq_VHost :: string
  mq_Exchange :: string

record postgres_config =
  pg_URL :: string
  pg_Host :: string
  pg_Port :: string
  pg_User :: string
  pg_Password :: string
  pg_DBName :: string
  pg_SSLMode :: string

record server_config =
  cfg_ApplicationName :: string
  cfg_Port :: string
  cfg_ServerIP :: string
  cfg_MaxMessageSize :: int
  cfg_TCPNoDelay :: bool
  cfg_DefaultUserLevel :: int
  cfg_LogLevel :: string
  cfg_LoggerType :: string
  cfg_LogPath :: string
  cfg_LogBufferSize :: int
  cfg_Environment :: string
  cfg_CipherType :: string
  cfg_EncryptionKey :: string
  cfg_Protocol :: string
  cfg_DatabaseType :: string
  cfg_DatabasePath :: string
  cfg_Postgres :: postgres_config
  cfg_SessionStoreType :: string
  cfg_ScriptsPath :: string
  cfg_ScriptTimeout :: int
  cfg_SandboxedScriptsDir :: string
  cfg_DisconnectHook :: string
  cfg_AuthMode :: string
  cfg_Redis :: redis_config
  cfg_AllEncrypted :: bool
  cfg_QueueType :: string
  cfg_QueueRedis :: redis_config
  cfg_RabbitMQ :: rabbitmq_config
  cfg_CommandLevels :: "int gomap"
  cfg_IdleTimeout :: int
  cfg_UDPPort :: string
  cfg_CacheType :: string
  cfg_CacheRedis :: redis_config
  cfg_RateLimitRequests :: int
  cfg_RateLimitWindow :: int
  cfg_MetricsPort :: string
  cfg_MetricsBindAddr :: string
  cfg_HTTPPort :: string
  cfg_HTTPBindAddr :: string
  cfg_HTTPScriptsPath :: string
  cfg_JobsEnabled :: bool
  cfg_DefaultMovieID :: string
  cfg_SMTPHost :: string
  cfg_SMTPPort :: string
  cfg_SMTPUser :: string
  cfg_SMTPPass :: string
  cfg_SMTPFrom :: string

definition LoadServerConfig :: "environment \<Rightarrow> server_config" where
  "LoadServerConfig env =
     \<lparr>cfg_ApplicationName = getEnv env ''APPLICATION_NAME'' ''SMUS-SERVER'',
      cfg_Port = getEnv env ''PORT'' ''1199'',
      cfg_ServerIP = getEnv env ''SERVER_IP'' '''',
      cfg_MaxMessageSize = getEnvInt env ''MAX_MESSAGE_SIZE'' 8192,
      cfg_TCPNoDelay = (getEnv env ''TCP_NO_DELAY'' ''1'' = ''1''),
      cfg_DefaultUserLevel = getEnvInt env ''DEFAULT_USER_LEVEL'' 20,
      cfg_LogLevel = getEnv env ''LOG_LEVEL'' ''INFO'',
      cfg_LoggerType = getEnv env ''LOGGER_TYPE'' ''file'',
      cfg_LogPath = getEnv env ''LOG_PATH'' ''logs'',
      cfg_LogBufferSize = getEnvInt env ''LOG_BUFFER_SIZE'' 1024,
      cfg_Environment = getEnv env ''ENVIRONMENT'' ''development'',
      cfg_CipherType = getEnv env ''CIPHER_TYPE'' ''blowfish'',
      cfg_EncryptionKey = getEnv env ''ENCRYPTION_KEY'' ''IPAddress resolution'',
      cfg_Protocol = getEnv env ''PROTOCOL'' ''smus'',
      cfg_DatabaseType = getEnv env ''DATABASE_TYPE'' ''sqlite'',
      cfg_DatabasePath = getEnv env ''DATABASE_PATH'' ''data/musgo.db'',
      cfg_Postgres =
         \<lparr>pg_URL = getEnv env ''DATABASE_URL'' '''',
          pg_Host = getEnv env ''DATABASE_HOST'' ''localhost'',
          pg_Port = getEnv env ''DATABASE_PORT'' ''5432'',
          pg_User = getEnv env ''DATABASE_USER'' ''postgres'',
          pg_Password = getEnv env ''DATABASE_PASSWORD'' '''',
          pg_DBName = getEnv env ''DATABASE_NAME'' ''musgo'',
          pg_SSLMode = getEnv env ''DATABASE_SSLMODE'' ''disable''\<rparr>,
      cfg_SessionStoreType = getEnv env ''SESSION_STORE_TYPE'' ''memory'',
      cfg_ScriptsPath = getEnv env ''SCRIPTS_PATH'' ''external/scripts'',
      cfg_ScriptTimeout = getEnvInt env ''SCRIPT_TIMEOUT'' 5,
      cfg_SandboxedScriptsDir = getEnv env ''SANDBOXED_SCRIPTS_DIR'' '''',
      cfg_DisconnectHook = getEnv env ''DISCONNECT_HOOK'' ''users/onDisconnect'',
      cfg_AuthMode = getEnv env ''AUTH_MODE'' ''open'',
      cfg_Redis =
         \<lparr>rd_Host = getEnv env ''REDIS_HOST'' ''localhost'',
          rd_Port = getEnv env ''REDIS_PORT'' ''6379'',
          rd_Password = getEnv env ''REDIS_PASSWORD'' '''',
          rd_DB = getEnv env ''REDIS_DB'' ''0'',
          rd_KeyPrefix = getEnv env ''REDIS_KEY_PREFIX'' ''musgo'',
          rd_ConnTTL = getEnv env ''REDIS_CONN_TTL'' ''3600''\<rparr>,
      cfg_AllEncrypted = prefix ''#All'' (getEnv env ''ENCRYPTION_KEY'' ''IPAddress resolution''),
      cfg_QueueType = getEnv env ''QUEUE_TYPE'' ''memory'',
      cfg_QueueRedis =
         \<lparr>rd_Host = getEnv env ''QUEUE_REDIS_HOST'' ''localhost'',
          rd_Port = getEnv env ''QUEUE_REDIS_PORT'' ''6379'',
          rd_Password = getEnv env ''QUEUE_REDIS_PASSWORD'' '''',
          rd_DB = getEnv env ''QUEUE_REDIS_DB'' ''1'',
          rd_KeyPrefix = getEnv env ''QUEUE_REDIS_KEY_PREFIX'' ''musgoq'',
          rd_ConnTTL = []\<rparr>,
      cfg_RabbitMQ =
         \<lparr>mq_Host = getEnv env ''RABBITMQ_HOST'' ''localhost'',
          mq_Port = getEnv env ''RABBITMQ_PORT'' ''5672'',
          mq_User = getEnv env ''RABBITMQ_USER'' ''guest'',
          mq_Password = getEnv env ''RABBITMQ_PASSWORD'' ''guest'',
          mq_VHost = getEnv env ''RABBITMQ_VHOST'' ''/'',
          mq_Exchange = getEnv env ''RABBITMQ_EXCHANGE'' ''musgo''\<rparr>,
      cfg_CommandLevels = loadCommandLevels env,
      cfg_IdleTimeout = getEnvInt env ''IDLE_TIMEOUT'' 0,
      cfg_UDPPort = getEnv env ''UDP_PORT'' '''',
      cfg_CacheType = getEnv env ''CACHE_TYPE'' ''memory'',
      cfg_CacheRedis =
         \<lparr>rd_Host = getEnv env ''CACHE_REDIS_HOST'' ''localhost'',
          rd_Port = getEnv env ''CACHE_REDIS_PORT'' ''6379'',
          rd_Password = getEnv env ''CACHE_REDIS_PASSWORD'' '''',
          rd_DB = getEnv env ''CACHE_REDIS_DB'' ''2'',
          rd_KeyPrefix = getEnv env ''CACHE_REDIS_KEY_PREFIX'' ''musgoc'',
          rd_ConnTTL = []\<rparr>,
      cfg_RateLimitRequests = getEnvInt env ''RATE_LIMIT_REQUESTS'' 0,
      cfg_RateLimitWindow = getEnvInt env ''RATE_LIMIT_WINDOW'' 60,
      cfg_MetricsPort = getEnv env ''METRICS_PORT'' '''',
      cfg_MetricsBindAddr = getEnv env ''METRICS_BIND_ADDR'' ''127.0.0.1'',
      cfg_HTTPPort = getEnv env ''HTTP_PORT'' '''',
      cfg_HTTPBindAddr = getEnv env ''HTTP_BIND_ADDR'' ''127.0.0.1'',
      cfg_HTTPScriptsPath = getEnv env ''HTTP_SCRIPTS_PATH'' ''external/https'',
      cfg_JobsEnabled = (getEnv env ''JOBS_ENABLED'' ''1'' = ''1''),
      cfg_DefaultMovieID = getEnv env ''DEFAULT_MOVIE_ID'' ''faria'',
      cfg_SMTPHost = getEnv env ''SMTP_HOST'' '''',
      cfg_SMTPPort = getEnv env ''SMTP_PORT'' ''587'',
      cfg_SMTPUser = getEnv env ''SMTP_USER'' '''',
      cfg_SMTPPass = getEnv env ''SMTP_PASS'' '''',
      cfg_SMTPFrom = getEnv env ''SMTP_FROM'' ''''\<rparr>"

lemma shipped_defaults:
  "cfg_MaxMessageSize (LoadServerConfig []) = 8192"
  "cfg_LogLevel (LoadServerConfig []) = ''INFO''"
  "cfg_AuthMode (LoadServerConfig []) = ''open''"
  "\<not> cfg_AllEncrypted (LoadServerConfig [])"
  by (simp_all add: LoadServerConfig_def getEnv_def getEnvInt_def)

end
