(* ===== verification/Cache.thy ===== *)
theory Cache
  imports Strconv Prelude
begin

text \<open>
  The cache: \<open>internal/adapters/outbound/memory_cache.go\<close>, the contract of \<open>internal/domain/ports/cache.go\<close>
  as a locale, and the ban checker of \<open>internal/adapters/inbound/ban_checker.go\<close> as a client of the contract.

  Times and durations are nanoseconds.  A zero expiry time is \<^const>\<open>None\<close>.  Every operation holds the mutex
  of the cache for its whole body, so that operations are single steps.  \<open>Close\<close> sets the maps to nil: they
  are empty for every read, and a write to one of them panics.
\<close>


section \<open>The memory cache\<close>

record cache_entry =
  ce_value :: bytes
  expiresAt :: "int option"

definition expired :: "int \<Rightarrow> cache_entry \<Rightarrow> bool" where
  "expired now e = (case expiresAt e of None \<Rightarrow> False | Some t \<Rightarrow> t < now)"

record memory_cache =
  entries :: "cache_entry gomap"
  cache_sets :: "string list gomap"
  cache_closed :: bool
  writeCount :: int
  sweepInterval :: int

definition NewMemoryCache :: memory_cache where
  "NewMemoryCache = \<lparr>entries = [], cache_sets = [], cache_closed = False, writeCount = 0, sweepInterval = 1000\<rparr>"

definition mc_Get :: "int \<Rightarrow> string \<Rightarrow> memory_cache \<Rightarrow> bytes option" where
  "mc_Get now key c =
     (case map_of (entries c) key of
        None \<Rightarrow> None
      | Some e \<Rightarrow> if expired now e then None else Some (ce_value e))"

definition sweep :: "int \<Rightarrow> memory_cache \<Rightarrow> memory_cache" where
  "sweep now c = c\<lparr>entries := filter (\<lambda>(k, e). \<not> expired now e) (entries c)\<rparr>"

text \<open>The write counter is not reset by a panic: the assignment to the nil map comes first.\<close>

definition mc_Set :: "int \<Rightarrow> string \<Rightarrow> bytes \<Rightarrow> int \<Rightarrow> memory_cache \<Rightarrow> unit go \<times> memory_cache" where
  "mc_Set now key v ttl c =
     (if cache_closed c then (Panic, c)
      else
        (let e = \<lparr>ce_value = v, expiresAt = (if ttl > 0 then Some (now + ttl) else None)\<rparr>;
             c1 = c\<lparr>entries := AList.update key e (entries c), writeCount := writeCount c + 1\<rparr>
         in (Ok (), if writeCount c1 \<ge> sweepInterval c1 then sweep now (c1\<lparr>writeCount := 0\<rparr>) else c1)))"

definition mc_Increment :: "int \<Rightarrow> string \<Rightarrow> memory_cache \<Rightarrow> int go \<times> memory_cache" where
  "mc_Increment now key c =
     (if map_of (cache_sets c) key \<noteq> None then (Err ErrOther, c)
      else
        (let old = (case map_of (entries c) key of
                      None \<Rightarrow> None
                    | Some e \<Rightarrow> if expired now e then None else Some e);
             e0 = (case old of None \<Rightarrow> \<lparr>ce_value = [], expiresAt = None\<rparr> | Some e \<Rightarrow> e)
         in case (case old of None \<Rightarrow> Some 0 | Some e \<Rightarrow> ParseInt (str (ce_value e))) of
              None \<Rightarrow> (Err ErrOther, c)
            | Some i \<Rightarrow>
                if i = 2 ^ 63 - 1 then (Err ErrOther, c)
                else if cache_closed c then (Panic, c)
                else (Ok (i + 1),
                      c\<lparr>entries := AList.update key (e0\<lparr>ce_value := bts (dec_int (i + 1))\<rparr>) (entries c)\<rparr>)))"

definition mc_Delete :: "string \<Rightarrow> memory_cache \<Rightarrow> memory_cache" where
  "mc_Delete key c = c\<lparr>entries := AList.delete key (entries c), cache_sets := AList.delete key (cache_sets c)\<rparr>"

definition mc_Exists :: "int \<Rightarrow> string \<Rightarrow> memory_cache \<Rightarrow> bool" where
  "mc_Exists now key c =
     (case map_of (entries c) key of None \<Rightarrow> False | Some e \<Rightarrow> \<not> expired now e)"

definition mc_SetAddOnce :: "string \<Rightarrow> string \<Rightarrow> memory_cache \<Rightarrow> bool go \<times> memory_cache" where
  "mc_SetAddOnce key member c =
     (case map_of (cache_sets c) key of
        None \<Rightarrow> if cache_closed c then (Panic, c)
                else (Ok True, c\<lparr>cache_sets := AList.update key [member] (cache_sets c)\<rparr>)
      | Some s \<Rightarrow> if member \<in> set s then (Ok False, c)
                  else (Ok True, c\<lparr>cache_sets := AList.update key (member # s) (cache_sets c)\<rparr>))"

definition mc_SetAdd :: "string \<Rightarrow> string \<Rightarrow> memory_cache \<Rightarrow> unit go \<times> memory_cache" where
  "mc_SetAdd key member c =
     (case mc_SetAddOnce key member c of
        (Panic, c') \<Rightarrow> (Panic, c') | (Err e, c') \<Rightarrow> (Err e, c') | (Ok _, c') \<Rightarrow> (Ok (), c'))"

definition mc_SetRemove :: "string \<Rightarrow> string \<Rightarrow> memory_cache \<Rightarrow> memory_cache" where
  "mc_SetRemove key member c =
     (case map_of (cache_sets c) key of
        None \<Rightarrow> c
      | Some s \<Rightarrow>
          (let s' = removeAll member s
           in if s' = [] then c\<lparr>cache_sets := AList.delete key (cache_sets c)\<rparr>
              else c\<lparr>cache_sets := AList.update key s' (cache_sets c)\<rparr>))"

definition mc_SetMembers :: "string \<Rightarrow> memory_cache \<Rightarrow> string list" where
  "mc_SetMembers key c = (case map_of (cache_sets c) key of None \<Rightarrow> [] | Some s \<Rightarrow> s)"

definition mc_SetIsMember :: "string \<Rightarrow> string \<Rightarrow> memory_cache \<Rightarrow> bool" where
  "mc_SetIsMember key member c = (case map_of (cache_sets c) key of None \<Rightarrow> False | Some s \<Rightarrow> member \<in> set s)"

definition mc_Close :: "memory_cache \<Rightarrow> memory_cache" where
  "mc_Close c = c\<lparr>entries := [], cache_sets := [], cache_closed := True\<rparr>"


section \<open>Well-formed caches\<close>

text \<open>The keys of both maps are distinct, no set is empty or lists a member twice, and a closed cache is
  empty.  A key may hold a value and a set at the same time; only \<open>Increment\<close> looks for that.\<close>

definition cache_ok :: "memory_cache \<Rightarrow> bool" where
  "cache_ok c \<longleftrightarrow> gomap_ok (entries c) \<and> gomap_ok (cache_sets c) \<and>
     (\<forall>k s. map_of (cache_sets c) k = Some s \<longrightarrow> s \<noteq> [] \<and> distinct s) \<and>
     (cache_closed c \<longrightarrow> entries c = [] \<and> cache_sets c = [])"

lemma map_of_filter_values:
  "distinct (map fst m) \<Longrightarrow> map_of (filter (\<lambda>(k, e). P e) m) x =
     (case map_of m x of None \<Rightarrow> None | Some e \<Rightarrow> if P e then Some e else None)"
  by (induction m) (auto simp: map_of_eq_None_iff image_iff split: option.splits)

lemma cache_ok_ops:
  assumes "cache_ok c"
  shows "cache_ok (snd (mc_Set now k v ttl c))" "cache_ok (snd (mc_Increment now k c))"
    "cache_ok (mc_Delete k c)" "cache_ok (snd (mc_SetAddOnce k x c))" "cache_ok (mc_SetRemove k x c)"
    "cache_ok (mc_Close c)"
  using assms
  by (auto simp: cache_ok_def mc_Set_def sweep_def mc_Increment_def mc_Delete_def mc_SetAddOnce_def
      mc_SetRemove_def mc_Close_def Let_def distinct_map_filter gomap_simps distinct_removeAll
      split: option.splits if_splits)


text \<open>Sweeping cannot be observed: no later read sees an entry that had expired.\<close>

lemma expired_mono: "expired now e \<Longrightarrow> now \<le> now' \<Longrightarrow> expired now' e"
  by (auto simp: expired_def split: option.splits)

lemma mc_Get_sweep:
  assumes "cache_ok c" and "now \<le> now'"
  shows "mc_Get now' k (sweep now c) = mc_Get now' k c"
  using assms expired_mono [of now _ now']
  by (auto simp: mc_Get_def sweep_def cache_ok_def map_of_filter_values split: option.splits)


section \<open>The contract of a cache\<close>

text \<open>The part of \<open>ports.Cache\<close> that the ban checker and the token store call.\<close>

record 'c cache_port =
  port_Get :: "int \<Rightarrow> string \<Rightarrow> 'c \<Rightarrow> bytes option go \<times> 'c"
  port_Set :: "int \<Rightarrow> string \<Rightarrow> bytes \<Rightarrow> int \<Rightarrow> 'c \<Rightarrow> unit go \<times> 'c"
  port_Delete :: "string \<Rightarrow> 'c \<Rightarrow> unit go \<times> 'c"

text \<open>A usable cache shows at each time a value under each key.  A value that has been set is there until
  it is overwritten, deleted or older than its time to live, and one that is gone does not come back.\<close>

locale cache_contract =
  fixes port :: "'c cache_port" and usable :: "'c \<Rightarrow> bool" and view :: "'c \<Rightarrow> int \<Rightarrow> string \<Rightarrow> bytes option"
  assumes get_view: "usable c \<Longrightarrow> port_Get port now k c = (Ok (view c now k), c)"
    and set_Ok: "usable c \<Longrightarrow> \<exists>c'. port_Set port now k v ttl c = (Ok (), c') \<and> usable c'"
    and set_view: "usable c \<Longrightarrow> port_Set port now k v ttl c = (r, c') \<Longrightarrow> now \<le> now' \<Longrightarrow>
      view c' now' x = (if x = k then (if ttl \<le> 0 \<or> now' \<le> now + ttl then Some v else None) else view c now' x)"
    and delete_Ok: "usable c \<Longrightarrow> \<exists>c'. port_Delete port k c = (Ok (), c') \<and> usable c'"
    and delete_view: "usable c \<Longrightarrow> port_Delete port k c = (r, c') \<Longrightarrow>
      view c' now x = (if x = k then None else view c now x)"
    and view_expiry: "usable c \<Longrightarrow> view c now' k = Some v \<Longrightarrow> now \<le> now' \<Longrightarrow> view c now k = Some v"

definition memory_port :: "memory_cache cache_port" where
  "memory_port = \<lparr>port_Get = \<lambda>now k c. (Ok (mc_Get now k c), c), port_Set = mc_Set,
     port_Delete = \<lambda>k c. (Ok (), mc_Delete k c)\<rparr>"

definition mc_usable :: "memory_cache \<Rightarrow> bool" where
  "mc_usable c \<longleftrightarrow> cache_ok c \<and> \<not> cache_closed c"

definition mc_view :: "memory_cache \<Rightarrow> int \<Rightarrow> string \<Rightarrow> bytes option" where
  "mc_view c now k = mc_Get now k c"

lemma mc_usable_ops:
  assumes "mc_usable c"
  shows "\<exists>c'. mc_Set now k v ttl c = (Ok (), c') \<and> mc_usable c'" "mc_usable (mc_Delete k c)"
    "mc_usable (snd (mc_Increment now k c))" "mc_usable (mc_SetRemove k x c)" "mc_usable (snd (mc_SetAddOnce k x c))"
proof -
  show "\<exists>c'. mc_Set now k v ttl c = (Ok (), c') \<and> mc_usable c'"
    using assms cache_ok_ops(1) [of c now k v ttl] by (auto simp: mc_usable_def mc_Set_def sweep_def Let_def)
qed (use assms cache_ok_ops in \<open>auto simp: mc_usable_def mc_Delete_def mc_Increment_def mc_SetRemove_def
       mc_SetAddOnce_def Let_def split: option.splits\<close>)

lemma mc_Get_Set:
  assumes "mc_usable c" and "mc_Set now k v ttl c = (r, c')" and "now \<le> now'"
  shows "mc_Get now' x c' = (if x = k then (if ttl \<le> 0 \<or> now' \<le> now + ttl then Some v else None) else mc_Get now' x c)"
proof -
  define c1 where "c1 = c\<lparr>entries := AList.update k
    \<lparr>ce_value = v, expiresAt = (if ttl > 0 then Some (now + ttl) else None)\<rparr> (entries c), writeCount := 0\<rparr>"
  have "cache_ok c1" using assms(1) by (auto simp: c1_def mc_usable_def cache_ok_def)
  then have "mc_Get now' x c' = mc_Get now' x c1"
    using assms(2) mc_Get_sweep [of c1 now now' x] assms(1,3)
    by (auto simp: mc_Set_def Let_def mc_usable_def c1_def mc_Get_def split: if_splits)
  also have "\<dots> = (if x = k then (if ttl \<le> 0 \<or> now' \<le> now + ttl then Some v else None) else mc_Get now' x c)"
    by (auto simp: c1_def mc_Get_def gomap_simps expired_def)
  finally show ?thesis .
qed

interpretation mc: cache_contract memory_port mc_usable mc_view
proof unfold_locales
  show "mc_view c now k = Some v" if "mc_view c now' k = Some v" "now \<le> now'" for c now now' k v
    using that expired_mono [of now _ now'] by (auto simp: mc_view_def mc_Get_def split: option.splits if_splits)
qed (use mc_Get_Set mc_usable_ops in \<open>auto simp: memory_port_def mc_view_def mc_Delete_def mc_Get_def gomap_simps\<close>)


section \<open>The ban checker\<close>

definition ban_key :: "string \<Rightarrow> string" where
  "ban_key host = ''ban:ip:'' @ host"

definition ban_ttl :: int where
  "ban_ttl = 30 * 1000000000"

text \<open>The database answer is the result of \<open>GetActiveBanByIP\<close>; an error counts as no ban, and is cached
  as such.  \<^const>\<open>Panic\<close> can only come from the cache.\<close>

definition is_ban :: "'b option go \<Rightarrow> bool" where
  "is_ban r = (case r of Ok (Some _) \<Rightarrow> True | _ \<Rightarrow> False)"

definition IsIPBanned :: "(string \<Rightarrow> 'b option go) option \<Rightarrow> 'c cache_port option \<Rightarrow> int \<Rightarrow> string \<Rightarrow> 'c \<Rightarrow> bool go \<times> 'c" where
  "IsIPBanned db cache now host c =
     (case db of
        None \<Rightarrow> (Ok False, c)
      | Some GetActiveBanByIP \<Rightarrow>
          (case cache of
             None \<Rightarrow> (Ok (is_ban (GetActiveBanByIP host)), c)
           | Some port \<Rightarrow>
               (case port_Get port now (ban_key host) c of
                  (Panic, c1) \<Rightarrow> (Panic, c1)
                | (Ok (Some v), c1) \<Rightarrow> (Ok (str v = ''1''), c1)
                | (_, c1) \<Rightarrow>
                    (let banned = is_ban (GetActiveBanByIP host)
                     in case port_Set port now (ban_key host) (bts (if banned then ''1'' else ''0'')) ban_ttl c1 of
                          (Panic, c2) \<Rightarrow> (Panic, c2)
                        | (_, c2) \<Rightarrow> (Ok banned, c2)))))"

text \<open>The cache agrees with what the database said at most 30 seconds before.  The database is a function
  of time.\<close>

definition recent :: "(int \<Rightarrow> string \<Rightarrow> 'b option go) \<Rightarrow> (int \<Rightarrow> string \<Rightarrow> bytes option) \<Rightarrow> int \<Rightarrow> bool" where
  "recent db shown now \<longleftrightarrow> (\<forall>now' \<ge> now. \<forall>h v. shown now' (ban_key h) = Some v \<longrightarrow>
     (\<exists>t \<le> now. now' \<le> t + ban_ttl \<and> (str v = ''1'') = is_ban (db t h)))"

lemma recent_later: "recent db shown now \<Longrightarrow> now \<le> now' \<Longrightarrow> recent db shown now'"
  unfolding recent_def by (meson order_trans)

lemma ban_key_eq [simp]: "ban_key a = ban_key b \<longleftrightarrow> a = b"
  by (simp add: ban_key_def)

context cache_contract
begin

lemma IsIPBanned_answer:
  assumes "usable c" and "recent db (view c) now"
  shows "\<exists>b c'. IsIPBanned (Some (db now)) (Some port) now h c = (Ok b, c') \<and> usable c' \<and> recent db (view c') now \<and>
    (\<exists>t \<le> now. now \<le> t + ban_ttl \<and> b = is_ban (db t h))"
proof (cases "view c now (ban_key h)")
  case (Some v)
  then obtain t where "t \<le> now" "now \<le> t + ban_ttl" "(str v = ''1'') = is_ban (db t h)"
    using assms(2) unfolding recent_def by blast
  then show ?thesis using Some assms by (auto simp: IsIPBanned_def get_view)
next
  case None
  let ?v = "bts (if is_ban (db now h) then ''1'' else ''0'')"
  obtain c' where c': "port_Set port now (ban_key h) ?v ban_ttl c = (Ok (), c')" "usable c'"
    using set_Ok [OF assms(1)] by blast
  have "recent db (view c') now"
    using assms(2) set_view [OF assms(1) c'(1)] unfolding recent_def
    by (auto simp: ban_ttl_def split: if_splits)
  moreover have "IsIPBanned (Some (db now)) (Some port) now h c = (Ok (is_ban (db now h)), c')"
    using None c'(1) by (simp add: IsIPBanned_def get_view [OF assms(1)])
  ultimately show ?thesis using c'(2) by (force simp: ban_ttl_def)
qed

end


lemma recent_cong: "recent db shown now \<Longrightarrow> (\<And>h t. now \<le> t \<Longrightarrow> shown' t (ban_key h) = shown t (ban_key h)) \<Longrightarrow> recent db shown' now"
  unfolding recent_def by simp

text \<open>A history of a memory cache that the ban checker shares with others, who use other keys.  \<open>db\<close> is the
  database over time.\<close>

inductive checker_reach :: "(int \<Rightarrow> string \<Rightarrow> 'b option go) \<Rightarrow> int \<Rightarrow> memory_cache \<Rightarrow> bool" for db where
  start: "checker_reach db now NewMemoryCache"
| time: "checker_reach db now c \<Longrightarrow> now \<le> now' \<Longrightarrow> checker_reach db now' c"
| check: "checker_reach db now c \<Longrightarrow> checker_reach db now (snd (IsIPBanned (Some (db now)) (Some memory_port) now h c))"
| other_Set: "checker_reach db now c \<Longrightarrow> k \<notin> range ban_key \<Longrightarrow> checker_reach db now (snd (mc_Set now k v ttl c))"
| other_Delete: "checker_reach db now c \<Longrightarrow> checker_reach db now (mc_Delete k c)"
| other_Increment: "checker_reach db now c \<Longrightarrow> k \<notin> range ban_key \<Longrightarrow> checker_reach db now (snd (mc_Increment now k c))"
| other_SetAdd: "checker_reach db now c \<Longrightarrow> checker_reach db now (snd (mc_SetAddOnce k x c))"
| other_SetRemove: "checker_reach db now c \<Longrightarrow> checker_reach db now (mc_SetRemove k x c)"

lemma entries_other:
  "x \<noteq> k \<Longrightarrow> map_of (entries (snd (mc_Increment now k c))) x = map_of (entries c) x"
  "entries (snd (mc_SetAddOnce k m c)) = entries c" "entries (mc_SetRemove k m c) = entries c"
  by (simp_all add: mc_Increment_def mc_SetAddOnce_def mc_SetRemove_def Let_def gomap_simps split: option.split)

lemma mc_Get_other:
  "x \<noteq> k \<Longrightarrow> mc_Get now x (snd (mc_Increment now' k c)) = mc_Get now x c"
  "mc_Get now x (snd (mc_SetAddOnce k m c)) = mc_Get now x c"
  "mc_Get now x (mc_SetRemove k m c) = mc_Get now x c"
  by (simp_all add: mc_Get_def entries_other)

lemma recent_other:
  assumes "recent db (mc_view c) now" and "\<And>h t. now \<le> t \<Longrightarrow> mc_Get t (ban_key h) c' = mc_Get t (ban_key h) c"
  shows "recent db (mc_view c') now"
  using assms(1) by (rule recent_cong) (simp add: mc_view_def assms(2))

lemma recent_Delete: "recent db (mc_view c) now \<Longrightarrow> recent db (mc_view (mc_Delete k c)) now"
  by (simp add: recent_def mc_view_def mc_Delete_def mc_Get_def gomap_simps)

lemma checker_reach_recent: "checker_reach db now c \<Longrightarrow> mc_usable c \<and> recent db (mc_view c) now"
proof (induction rule: checker_reach.induct)
  case (start now)
  then show ?case by (simp add: mc_usable_def cache_ok_def NewMemoryCache_def recent_def mc_view_def mc_Get_def)
next
  case (time now c now')
  then show ?case using recent_later by blast
next
  case (check now c h)
  then show ?case using mc.IsIPBanned_answer [of c db now h] by auto
next
  case (other_Set now c k v ttl)
  obtain c' where s: "mc_Set now k v ttl c = (Ok (), c')" "mc_usable c'"
    using mc_usable_ops(1) other_Set.IH by blast
  have "recent db (mc_view c') now"
    by (rule recent_other [OF conjunct2 [OF other_Set.IH]], subst mc_Get_Set [OF conjunct1 [OF other_Set.IH] s(1)])
      (use other_Set.hyps in auto)
  then show ?case by (simp add: s)
next
  case (other_Delete now c k)
  then show ?case by (simp add: recent_Delete mc_usable_ops(2))
next
  case (other_Increment now c k)
  have "recent db (mc_view (snd (mc_Increment now k c))) now"
    by (rule recent_other [OF conjunct2 [OF other_Increment.IH]], subst mc_Get_other(1)) (use other_Increment.hyps in auto)
  then show ?case by (simp add: other_Increment.IH mc_usable_ops(3))
next
  case (other_SetAdd now c k x)
  then show ?case using recent_other [of db c now] by (simp add: mc_usable_ops(5) mc_Get_other(2))
next
  case (other_SetRemove now c k x)
  then show ?case using recent_other [of db c now] by (simp add: mc_usable_ops(4) mc_Get_other(3))
qed


text \<open>An address that is banned from second 10 on: an answer of second 5 is still used at 20 and no longer at 40.\<close>

definition example_bans :: "int \<Rightarrow> string \<Rightarrow> unit option go" where
  "example_bans t h = Ok (if t \<ge> 10 * 1000000000 \<and> h = ''10.0.0.9'' then Some () else None)"



section \<open>Counters\<close>

text \<open>Counting from a missing key: the \<open>n\<close>-th increment answers \<open>n\<close>, and the counter never expires.  At the
  end of the range of \<open>int64\<close> it stops with an error.\<close>

fun increments :: "string \<Rightarrow> int list \<Rightarrow> memory_cache \<Rightarrow> int go list \<times> memory_cache" where
  "increments k [] c = ([], c)"
| "increments k (now # ts) c =
     (let (r, c') = mc_Increment now k c; (rs, c'') = increments k ts c' in (r # rs, c''))"

definition counts :: "string \<Rightarrow> int \<Rightarrow> memory_cache \<Rightarrow> bool" where
  "counts k i c \<longleftrightarrow> \<not> cache_closed c \<and> map_of (cache_sets c) k = None \<and>
     map_of (entries c) k = Some \<lparr>ce_value = bts (dec_int i), expiresAt = None\<rparr>"

lemma mc_Increment_counts:
  assumes "counts k i c" and "0 \<le> i" and "i < 2 ^ 63 - 1"
  shows "\<exists>c'. mc_Increment now k c = (Ok (i + 1), c') \<and> counts k (i + 1) c'"
  using assms ParseInt_dec_int [of i] by (simp add: counts_def mc_Increment_def expired_def int64_range_def gomap_simps)

lemma increments_counts:
  assumes "counts k i c" and "0 \<le> i" and "i + int (length ts) < 2 ^ 63"
  shows "fst (increments k ts c) = map Ok [i + 1 .. i + int (length ts)]"
  using assms
proof (induction ts arbitrary: i c)
  case (Cons now ts)
  then obtain c' where c': "mc_Increment now k c = (Ok (i + 1), c')" "counts k (i + 1) c'"
    using mc_Increment_counts [of k i c now] by auto
  show ?case
    using Cons.IH [OF c'(2)] Cons.prems c'(1) by (auto simp: upto_rec1 [of "1 + i"] algebra_simps split: prod.splits)
qed simp

end
