(* ===== verification/CacheLock.thy ===== *)
theory CacheLock
  imports Prelude
begin

text \<open>
  The locks of the memory cache, \<open>internal/adapters/outbound/memory_cache_lock.go\<close>.  \<open>AcquireLock\<close> is not one
  step: a caller registers under the mutex of the cache, waits for the token in the lock's channel or for
  the end of its context, and a release gives the token back and then drops the registration.  The model
  interleaves these steps of any number of callers.  Locks are objects with an identity: the heap lists
  all that were ever allocated, and the table of the cache points to some of them.
\<close>


section \<open>State\<close>

text \<open>\<open>gate\<close> is the number of tokens in the channel, whose capacity is 1.\<close>

record cache_lock =
  gate :: nat
  users :: int

text \<open>Where a caller is: outside, in the \<open>select\<close>, in possession of the lock, or between the two halves of a
  release.\<close>

datatype phase = Idle | Waiting string nat | Holding string nat | Releasing string nat

record lock_state =
  heap :: "cache_lock list"
  locks :: "nat gomap"
  callers :: "phase list"


section \<open>The steps of AcquireLock\<close>

text \<open>The first critical section: the lock of the key, made if there is none, with one more user.\<close>

definition register :: "string \<Rightarrow> lock_state \<Rightarrow> nat \<times> lock_state" where
  "register key st =
     (case map_of (locks st) key of
        Some a \<Rightarrow> (a, st\<lparr>heap := (heap st)[a := (heap st ! a)\<lparr>users := users (heap st ! a) + 1\<rparr>]\<rparr>)
      | None \<Rightarrow> (length (heap st),
                  st\<lparr>heap := heap st @ [\<lparr>gate = 1, users = 1\<rparr>],
                     locks := AList.update key (length (heap st)) (locks st)\<rparr>))"

definition unref :: "string \<Rightarrow> nat \<Rightarrow> lock_state \<Rightarrow> lock_state" where
  "unref key a st =
     (let n = users (heap st ! a) - 1
      in st\<lparr>heap := (heap st)[a := (heap st ! a)\<lparr>users := n\<rparr>],
            locks := (if n = 0 then AList.delete key (locks st) else locks st)\<rparr>)"

definition set_gate :: "nat \<Rightarrow> nat \<Rightarrow> lock_state \<Rightarrow> lock_state" where
  "set_gate a n st = st\<lparr>heap := (heap st)[a := (heap st ! a)\<lparr>gate := n\<rparr>]\<rparr>"

definition moves :: "nat \<Rightarrow> phase \<Rightarrow> lock_state \<Rightarrow> lock_state" where
  "moves t p st = st\<lparr>callers := (callers st)[t := p]\<rparr>"

text \<open>A caller enters with a context that has a deadline and has not ended: other calls return an error at
  once.  \<open>Take\<close> is the receive from the channel, \<open>Cancel\<close> the end of the context while waiting, \<open>Push\<close> the send
  of the first release and \<open>Unref\<close> its second half; a later release does nothing.  The result is
  \<^const>\<open>None\<close> when the step is not possible, for a send because the channel is full.\<close>

datatype lock_event = Request nat string | Take nat | Cancel nat | Push nat | Unref nat

definition phase_of :: "lock_state \<Rightarrow> nat \<Rightarrow> phase" where
  "phase_of st t = (if t < length (callers st) then callers st ! t else Idle)"

fun lock_step :: "lock_event \<Rightarrow> lock_state \<Rightarrow> lock_state option" where
  "lock_step (Request t key) st =
     (if t < length (callers st) \<and> phase_of st t = Idle
      then (let (a, st') = register key st in Some (moves t (Waiting key a) st'))
      else None)"
| "lock_step (Take t) st =
     (case phase_of st t of
        Waiting key a \<Rightarrow> if gate (heap st ! a) = 0 then None
                         else Some (moves t (Holding key a) (set_gate a (gate (heap st ! a) - 1) st))
      | _ \<Rightarrow> None)"
| "lock_step (Cancel t) st =
     (case phase_of st t of Waiting key a \<Rightarrow> Some (moves t Idle (unref key a st)) | _ \<Rightarrow> None)"
| "lock_step (Push t) st =
     (case phase_of st t of
        Holding key a \<Rightarrow> if gate (heap st ! a) \<ge> 1 then None
                         else Some (moves t (Releasing key a) (set_gate a (gate (heap st ! a) + 1) st))
      | _ \<Rightarrow> None)"
| "lock_step (Unref t) st =
     (case phase_of st t of Releasing key a \<Rightarrow> Some (moves t Idle (unref key a st)) | _ \<Rightarrow> None)"

inductive lock_reach :: "lock_state \<Rightarrow> bool" where
  start: "lock_reach \<lparr>heap = [], locks = [], callers = replicate n Idle\<rparr>"
| step: "lock_reach st \<Longrightarrow> lock_step e st = Some st' \<Longrightarrow> lock_reach st'"


section \<open>Invariant\<close>

fun uses :: "nat \<Rightarrow> phase \<Rightarrow> bool" where
  "uses a Idle = False"
| "uses a (Waiting k b) = (a = b)"
| "uses a (Holding k b) = (a = b)"
| "uses a (Releasing k b) = (a = b)"

fun holds :: "nat \<Rightarrow> phase \<Rightarrow> bool" where
  "holds a (Holding k b) = (a = b)"
| "holds a p = False"

fun key_of :: "phase \<Rightarrow> string option" where
  "key_of Idle = None"
| "key_of (Waiting k b) = Some k"
| "key_of (Holding k b) = Some k"
| "key_of (Releasing k b) = Some k"

text \<open>How many callers are in a phase, and how that changes when one of them moves.\<close>

definition number :: "(phase \<Rightarrow> bool) \<Rightarrow> phase list \<Rightarrow> int" where
  "number P ps = int (length (filter P ps))"

lemma number_update [simp]:
  assumes "t < length ps"
  shows "number P (ps[t := q]) = number P ps - of_bool (P (ps ! t)) + of_bool (P q)"
  using assms
proof (induction ps arbitrary: t)
  case (Cons p ps)
  show ?case
  proof (cases t)
    case (Suc t')
    then show ?thesis using Cons.IH [of t'] Cons.prems by (simp add: number_def)
  qed (simp add: number_def)
qed simp

lemma number_pos: "p \<in> set ps \<Longrightarrow> P p \<Longrightarrow> number P ps > 0"
  by (induction ps) (auto simp: number_def)

lemma number_witness: "number P ps > 0 \<Longrightarrow> \<exists>p \<in> set ps. P p"
  by (induction ps) (auto simp: number_def split: if_splits)

text \<open>The lock a caller uses is the one in the table, a lock in the table has users, the counter counts
  them, and the token is in the channel or with one holder.\<close>

definition lock_ok :: "lock_state \<Rightarrow> bool" where
  "lock_ok st \<longleftrightarrow>
     (\<forall>k a. map_of (locks st) k = Some a \<longrightarrow> a < length (heap st) \<and> users (heap st ! a) > 0) \<and>
     (\<forall>k k' a. map_of (locks st) k = Some a \<longrightarrow> map_of (locks st) k' = Some a \<longrightarrow> k = k') \<and>
     (\<forall>p \<in> set (callers st). \<forall>k a. key_of p = Some k \<longrightarrow> uses a p \<longrightarrow> map_of (locks st) k = Some a) \<and>
     (\<forall>a < length (heap st). users (heap st ! a) = number (uses a) (callers st)) \<and>
     (\<forall>a < length (heap st). int (gate (heap st ! a)) + number (holds a) (callers st) = 1)"

lemma lock_okD:
  assumes "lock_ok st"
  shows "map_of (locks st) k = Some a \<Longrightarrow> a < length (heap st)"
    "map_of (locks st) k = Some a \<Longrightarrow> users (heap st ! a) > 0"
    "map_of (locks st) k = Some a \<Longrightarrow> map_of (locks st) k' = Some a \<Longrightarrow> k = k'"
    "p \<in> set (callers st) \<Longrightarrow> key_of p = Some k \<Longrightarrow> uses a p \<Longrightarrow> map_of (locks st) k = Some a"
    "a < length (heap st) \<Longrightarrow> users (heap st ! a) = number (uses a) (callers st)"
    "a < length (heap st) \<Longrightarrow> int (gate (heap st ! a)) + number (holds a) (callers st) = 1"
  using assms unfolding lock_ok_def by blast+

lemma phase_of_caller: "phase_of st t \<noteq> Idle \<Longrightarrow> t < length (callers st) \<and> callers st ! t = phase_of st t"
  by (auto simp: phase_of_def split: if_splits)

lemma phase_of_lock:
  assumes "lock_ok st" and "key_of (phase_of st t) = Some k" and "uses a (phase_of st t)"
  shows "map_of (locks st) k = Some a" "a < length (heap st)"
proof -
  have "phase_of st t \<in> set (callers st)" using assms(3) phase_of_caller [of st t] by (metis nth_mem uses.simps(1))
  then show "map_of (locks st) k = Some a" using assms lock_okD(4) by blast
  then show "a < length (heap st)" by (rule lock_okD(1) [OF assms(1)])
qed

lemmas lock_moves = moves_def set_gate_def unref_def

text \<open>A caller that keeps its lock: the token moves between the channel and the caller.\<close>

lemma lock_ok_token:
  assumes ok: "lock_ok st" and p: "key_of (phase_of st t) = Some k" "uses a (phase_of st t)"
    and q: "key_of q = Some k" "\<And>b. uses b q \<longleftrightarrow> b = a" "\<And>b. uses b (phase_of st t) \<longleftrightarrow> b = a"
    and token: "int g + of_bool (holds a q) = int (gate (heap st ! a)) + of_bool (holds a (phase_of st t))"
    and others: "\<And>b. b \<noteq> a \<Longrightarrow> \<not> holds b q \<and> \<not> holds b (phase_of st t)"
  shows "lock_ok (moves t q (set_gate a g st))"
proof -
  note a = phase_of_lock [OF ok p]
  have t: "t < length (callers st)" "callers st ! t = phase_of st t"
    using phase_of_caller [of st t] p(1) by force+
  show ?thesis
    unfolding lock_ok_def
  proof (intro conjI allI impI ballI)
    fix r k' b assume r: "r \<in> set (callers (moves t q (set_gate a g st)))" "key_of r = Some k'" "uses b r"
    then have "r = q \<or> r \<in> set (callers st)" using set_update_subset_insert [of "callers st" t q] by (auto simp: lock_moves)
    then show "map_of (locks (moves t q (set_gate a g st))) k' = Some b"
      using r(2,3) q a(1) lock_okD(4) [OF ok] by (auto simp: lock_moves)
  next
    fix b assume "b < length (heap (moves t q (set_gate a g st)))"
    then show "int (gate (heap (moves t q (set_gate a g st)) ! b)) + number (holds b) (callers (moves t q (set_gate a g st))) = 1"
      using lock_okD(6) [OF ok, of b] t a(2) token others [of b] by (cases "b = a") (simp_all add: lock_moves)
  next
    fix b assume "b < length (heap (moves t q (set_gate a g st)))"
    then show "users (heap (moves t q (set_gate a g st)) ! b) = number (uses b) (callers (moves t q (set_gate a g st)))"
      using lock_okD(5) [OF ok, of b] t a(2) q by (cases "b = a") (simp_all add: lock_moves)
  next
    fix k' b assume "map_of (locks (moves t q (set_gate a g st))) k' = Some b"
    then show "users (heap (moves t q (set_gate a g st)) ! b) > 0"
      using lock_okD(2) [OF ok, of k' b] a(2) by (cases "b = a") (simp_all add: lock_moves)
  qed (use lock_okD(1,3) [OF ok] in \<open>auto simp: lock_moves\<close>)
qed

text \<open>A caller that leaves without the token.\<close>

lemma lock_ok_leave:
  assumes ok: "lock_ok st" and p: "key_of (phase_of st t) = Some k" "\<And>b. uses b (phase_of st t) \<longleftrightarrow> b = a"
    and "\<And>b. \<not> holds b (phase_of st t)"
  shows "lock_ok (moves t Idle (unref k a st))"
proof -
  note a = phase_of_lock [OF ok p(1), of a] 
  have a': "map_of (locks st) k = Some a" "a < length (heap st)" using a p(2) by simp_all
  have t: "t < length (callers st)" "callers st ! t = phase_of st t"
    using phase_of_caller [of st t] p(1) by force+
  have pos: "users (heap st ! a) > 0" using lock_okD(2) [OF ok a'(1)] .
  have last: "\<not> uses a r" if n: "users (heap st ! a) - 1 = 0" and r: "r \<in> set ((callers st)[t := Idle])" for r
  proof
    assume "uses a r"
    then have "number (uses a) ((callers st)[t := Idle]) > 0" by (rule number_pos [OF r])
    then show False using n t p(2) lock_okD(5) [OF ok a'(2)] by simp
  qed
  show ?thesis
    unfolding lock_ok_def
  proof (intro conjI allI impI ballI)
    fix r k' b assume r: "r \<in> set (callers (moves t Idle (unref k a st)))" "key_of r = Some k'" "uses b r"
    then have "r \<in> set (callers st)" using set_update_subset_insert [of "callers st" t Idle] by (auto simp: lock_moves)
    then have b: "map_of (locks st) k' = Some b" using r lock_okD(4) [OF ok] by blast
    then have "k' = k \<Longrightarrow> users (heap st ! a) - 1 \<noteq> 0" using a'(1) last [of r] r by (auto simp: lock_moves)
    then show "map_of (locks (moves t Idle (unref k a st))) k' = Some b"
      using b by (auto simp: lock_moves gomap_simps Let_def)
  next
    fix k' b assume b: "map_of (locks (moves t Idle (unref k a st))) k' = Some b"
    then have b': "map_of (locks st) k' = Some b" by (auto simp: lock_moves Let_def gomap_simps split: if_splits)
    then show "b < length (heap (moves t Idle (unref k a st)))" using lock_okD(1) [OF ok] by (simp add: lock_moves Let_def)
    show "users (heap (moves t Idle (unref k a st)) ! b) > 0"
    proof (cases "b = a")
      case True
      then have "k' = k" using b' a'(1) lock_okD(3) [OF ok] by blast
      then show ?thesis using b pos True a'(2) by (auto simp: lock_moves Let_def gomap_simps split: if_splits)
    next
      case False
      then show ?thesis using lock_okD(2) [OF ok b'] by (simp add: lock_moves Let_def)
    qed
  qed (use lock_okD(3,5,6) [OF ok] t a'(2) p(2) assms(4) in
      \<open>auto simp: lock_moves Let_def nth_list_update gomap_simps split: if_splits\<close>)
qed


text \<open>A caller that comes in.\<close>

lemma lock_ok_enter:
  assumes ok: "lock_ok st" and t: "t < length (callers st)" "callers st ! t = Idle"
    and reg: "register k st = (a, st')"
  shows "lock_ok (moves t (Waiting k a) st')"
proof (cases "map_of (locks st) k")
  case (Some a')
  then have a: "a' = a" "st' = st\<lparr>heap := (heap st)[a := (heap st ! a)\<lparr>users := users (heap st ! a) + 1\<rparr>]\<rparr>"
    using reg by (auto simp: register_def)
  have "r \<in> set ((callers st)[t := Waiting k a]) \<Longrightarrow> key_of r = Some k' \<Longrightarrow> uses b r \<Longrightarrow> map_of (locks st) k' = Some b" for r k' b
    using set_update_subset_insert [of "callers st" t "Waiting k a"] lock_okD(4) [OF ok, of r] Some a(1) by auto
  moreover have "map_of (locks st) k' = Some b \<Longrightarrow> users ((heap st)[a := (heap st ! a)\<lparr>users := users (heap st ! a) + 1\<rparr>] ! b) > 0" for k' b
    using lock_okD(2) [OF ok, of k' b] lock_okD(1) [OF ok Some] a(1) by (cases "b = a") simp_all
  moreover have "users ((heap st)[a := (heap st ! a)\<lparr>users := users (heap st ! a) + 1\<rparr>] ! b) = number (uses b) ((callers st)[t := Waiting k a])"
    "int (gate ((heap st)[a := (heap st ! a)\<lparr>users := users (heap st ! a) + 1\<rparr>] ! b)) + number (holds b) ((callers st)[t := Waiting k a]) = 1"
    if "b < length (heap st)" for b
    using that lock_okD(5,6) [OF ok, of b] t by (cases "b = a"; simp)+
  moreover have "map_of (locks st) k' = Some b \<Longrightarrow> b < length (heap st)"
    "map_of (locks st) k' = Some b \<Longrightarrow> map_of (locks st) k'' = Some b \<Longrightarrow> k' = k''" for k' k'' b
    using lock_okD(1,3) [OF ok] by blast+
  ultimately show ?thesis unfolding lock_ok_def a(2) moves_def by simp
next
  case None
  let ?n = "length (heap st)"
  have a: "a = ?n" "st' = st\<lparr>heap := heap st @ [\<lparr>gate = 1, users = 1\<rparr>], locks := AList.update k ?n (locks st)\<rparr>"
    using reg None by (auto simp: register_def)
  have unused: "\<not> uses ?n r" if "r \<in> set (callers st)" for r
  proof
    assume u: "uses ?n r"
    then obtain k' where "key_of r = Some k'" by (cases r) auto
    then show False using lock_okD(1) [OF ok] lock_okD(4) [OF ok that _ u] by blast
  qed
  then have "\<not> holds ?n r" if "r \<in> set (callers st)" for r using that unused [OF that] by (cases r) auto
  with unused have none: "number (uses ?n) (callers st) = 0" "number (holds ?n) (callers st) = 0"
    by (simp_all add: number_def)
  have "r \<in> set ((callers st)[t := Waiting k a]) \<Longrightarrow> key_of r = Some k' \<Longrightarrow> uses b r \<Longrightarrow>
      map_of (AList.update k ?n (locks st)) k' = Some b" for r k' b
    using set_update_subset_insert [of "callers st" t "Waiting k a"] lock_okD(4) [OF ok, of r k' b] None a(1)
    by (auto simp: gomap_simps)
  moreover have "users ((heap st @ [\<lparr>gate = 1, users = 1\<rparr>]) ! b) = number (uses b) ((callers st)[t := Waiting k a])"
    "int (gate ((heap st @ [\<lparr>gate = 1, users = 1\<rparr>]) ! b)) + number (holds b) ((callers st)[t := Waiting k a]) = 1"
    if "b < Suc ?n" for b
    using that lock_okD(5,6) [OF ok, of b] t none a(1) by (cases "b = ?n"; simp add: nth_append)+
  moreover have "map_of (AList.update k ?n (locks st)) k' = Some b \<Longrightarrow>
      b < Suc ?n \<and> users ((heap st @ [\<lparr>gate = 1, users = 1\<rparr>]) ! b) > 0" for k' b
    using lock_okD(1,2) [OF ok, of k' b] by (auto simp: gomap_simps nth_append split: if_splits)
  moreover have "map_of (AList.update k ?n (locks st)) k' = Some b \<Longrightarrow> map_of (AList.update k ?n (locks st)) k'' = Some b \<Longrightarrow>
      k' = k''" for k' k'' b
    using lock_okD(3) [OF ok, of k' b k''] lock_okD(1) [OF ok, of k' b] lock_okD(1) [OF ok, of k'' b]
    by (auto simp: gomap_simps split: if_splits)
  moreover have "heap (moves t (Waiting k a) st') = heap st @ [\<lparr>gate = 1, users = 1\<rparr>]"
    "locks (moves t (Waiting k a) st') = AList.update k ?n (locks st)"
    "callers (moves t (Waiting k a) st') = (callers st)[t := Waiting k a]"
    by (simp_all add: a(2) moves_def)
  ultimately show ?thesis
    unfolding lock_ok_def by (simp only: length_append_singleton) blast
qed

lemma lock_ok_step:
  assumes "lock_ok st" and "lock_step e st = Some st'"
  shows "lock_ok st'"
proof (cases e)
  case (Request t key)
  then show ?thesis
    using assms lock_ok_enter [OF assms(1), of t key] by (auto simp: phase_of_def split: if_splits prod.splits)
next
  case (Take t)
  then show ?thesis
    using assms lock_ok_token [OF assms(1), of t] by (auto split: phase.splits if_splits)
next
  case (Push t)
  then show ?thesis
    using assms lock_ok_token [OF assms(1), of t] by (auto split: phase.splits if_splits)
qed (use assms lock_ok_leave [OF assms(1)] in \<open>auto split: phase.splits if_splits\<close>)

lemma lock_reach_ok: "lock_reach st \<Longrightarrow> lock_ok st"
proof (induction rule: lock_reach.induct)
  case (start n)
  then show ?case by (auto simp: lock_ok_def)
next
  case (step st e st')
  then show ?case using lock_ok_step by blast
qed



section \<open>Mutual exclusion\<close>

lemma phase_of_mem: "phase_of st t \<noteq> Idle \<Longrightarrow> phase_of st t \<in> set (callers st)"
  by (metis nth_mem phase_of_caller)

lemma number_two:
  assumes "t < length ps" "u < length ps" "t \<noteq> u" "P (ps ! t)" "P (ps ! u)"
  shows "number P ps \<ge> 2"
proof -
  have "{t, u} \<subseteq> {i. i < length ps \<and> P (ps ! i)}" using assms by simp
  then have "card {t, u} \<le> card {i. i < length ps \<and> P (ps ! i)}" by (rule card_mono [rotated]) simp
  then show ?thesis using assms(3) by (simp add: number_def length_filter_conv_card)
qed

lemma one_holder:
  assumes "lock_ok st" and "phase_of st t = Holding k a" and "phase_of st u = Holding k b"
  shows "t = u"
proof (rule ccontr)
  assume "t \<noteq> u"
  have ab: "map_of (locks st) k = Some a" "a < length (heap st)" "map_of (locks st) k = Some b"
    using phase_of_lock [OF assms(1), of t k a] phase_of_lock [OF assms(1), of u k b] assms(2,3) by simp_all
  then have "number (holds a) (callers st) \<ge> 2"
    using \<open>t \<noteq> u\<close> assms(2,3) phase_of_caller [of st t] phase_of_caller [of st u] by (intro number_two) auto
  then show False using lock_okD(6) [OF assms(1) ab(2)] by simp
qed

lemma waiter_can_take:
  assumes "lock_ok st" and "phase_of st t = Waiting k a" and free: "\<And>u b. phase_of st u \<noteq> Holding k b"
  shows "lock_step (Take t) st \<noteq> None"
proof -
  have a: "map_of (locks st) k = Some a" "a < length (heap st)"
    using phase_of_lock [OF assms(1), of t k a] assms(2) by simp_all
  have "\<not> holds a p" if mem: "p \<in> set (callers st)" for p
  proof
    assume h: "holds a p"
    then obtain k' where p: "p = Holding k' a" by (cases p) auto
    then have "k' = k" using lock_okD(3,4) [OF assms(1)] mem a(1) by (metis key_of.simps(3) uses.simps(3))
    moreover obtain u where "u < length (callers st)" "callers st ! u = p"
      using in_set_conv_nth [of p "callers st"] mem by blast
    ultimately show False using free [of u a] p by (simp add: phase_of_def)
  qed
  then have "number (holds a) (callers st) = 0" by (simp add: number_def)
  then show ?thesis using lock_okD(6) [OF assms(1) a(2)] assms(2) by simp
qed

lemma holder_can_push:
  assumes "lock_ok st" and "phase_of st t = Holding k a"
  shows "lock_step (Push t) st \<noteq> None"
proof -
  have a: "a < length (heap st)" using phase_of_lock [OF assms(1), of t k a] assms(2) by simp
  have "number (holds a) (callers st) > 0" using phase_of_mem [of st t] assms(2) by (intro number_pos) auto
  then show ?thesis using lock_okD(6) [OF assms(1) a] assms(2) by simp
qed

lemma table_used:
  assumes "lock_ok st" and "map_of (locks st) k = Some a"
  shows "\<exists>u. key_of (phase_of st u) = Some k"
proof -
  have "number (uses a) (callers st) > 0"
    using lock_okD(1,2,5) [OF assms(1)] assms(2) by metis
  then obtain p where p: "p \<in> set (callers st)" "uses a p" using number_witness by blast
  obtain k' where k': "key_of p = Some k'" using p(2) by (cases p) auto
  then have "k' = k" using lock_okD(3,4) [OF assms(1)] p assms(2) by metis
  moreover obtain u where "u < length (callers st)" "callers st ! u = p"
    using in_set_conv_nth [of p "callers st"] p(1) by blast
  ultimately show ?thesis using k' by (metis phase_of_def)
qed

text \<open>C29.  The locks of the cache exclude each other and do not get stuck, under every interleaving of any
  number of callers: at most one caller holds the lock of a key; a release never blocks on the channel; when
  nobody holds the lock of a key a caller waiting for it can take it; and the table has an entry only for
  keys that somebody is using.\<close>

theorem cache_locks_exclusive:
  assumes "lock_reach st"
  shows "(phase_of st t = Holding k a \<longrightarrow> phase_of st u = Holding k b \<longrightarrow> t = u) \<and>
    (phase_of st t = Holding k a \<longrightarrow> lock_step (Push t) st \<noteq> None) \<and>
    (phase_of st t = Waiting k a \<longrightarrow> (\<forall>u b. phase_of st u \<noteq> Holding k b) \<longrightarrow> lock_step (Take t) st \<noteq> None) \<and>
    (map_of (locks st) k \<noteq> None \<longrightarrow> (\<exists>u. key_of (phase_of st u) = Some k))"
  using one_holder waiter_can_take holder_can_push table_used lock_reach_ok [OF assms] by blast

text \<open>Two callers ask for the same key and the first takes the lock; the second has to wait.\<close>

fun lock_run :: "lock_event list \<Rightarrow> lock_state \<Rightarrow> lock_state option" where
  "lock_run [] st = Some st"
| "lock_run (e # es) st = (case lock_step e st of None \<Rightarrow> None | Some st' \<Rightarrow> lock_run es st')"

lemma lock_run_reach: "lock_reach st \<Longrightarrow> lock_run es st = Some st' \<Longrightarrow> lock_reach st'"
  by (induction es arbitrary: st) (auto intro: lock_reach.step split: option.splits)

definition two_callers :: lock_state where
  "two_callers = the (lock_run [Request 0 ''gold'', Request 1 ''gold'', Take 0]
     \<lparr>heap = [], locks = [], callers = replicate 2 Idle\<rparr>)"

lemma two_callers_run:
  "lock_run [Request 0 ''gold'', Request 1 ''gold'', Take 0] \<lparr>heap = [], locks = [], callers = replicate 2 Idle\<rparr> =
     Some two_callers"
  by code_simp

theorem cache_locks_exclusive_witness:
  "phase_of two_callers 0 = Holding ''gold'' 0 \<and> phase_of two_callers 1 = Waiting ''gold'' 0 \<and>
   lock_step (Take 1) two_callers = None \<and> lock_step (Push 0) two_callers \<noteq> None"
proof -
  have reach: "lock_reach two_callers" by (rule lock_run_reach [OF lock_reach.start two_callers_run])
  have p: "phase_of two_callers 0 = Holding ''gold'' 0" "phase_of two_callers 1 = Waiting ''gold'' 0"
    "lock_step (Take 1) two_callers = None"
    by code_simp+
  then show ?thesis using cache_locks_exclusive [OF reach, of 0 "''gold''" 0] by simp
qed

end
