(* ===== verification/Utf8.thy ===== *)
theory Utf8
  imports Prelude
begin

text \<open>
  UTF-8 as Go's \<open>unicode/utf8\<close> reads it: a string is cut into encoded runes, and every byte that does not
  begin a well-formed rune is a rune error of width one, which \<open>range\<close>, the JSON encoder and the JSON decoder
  replace by U+FFFD.
\<close>


section \<open>Runes of a string\<close>

abbreviation code :: "char \<Rightarrow> nat" where
  "code c \<equiv> of_char c"

definition byte_in :: "string \<Rightarrow> nat \<Rightarrow> nat \<Rightarrow> nat \<Rightarrow> bool" where
  "byte_in s i lo hi \<longleftrightarrow> i < length s \<and> lo \<le> code (s ! i) \<and> code (s ! i) \<le> hi"

text \<open>The runes of one to four bytes: the table of \<open>utf8.DecodeRune\<close>, which excludes overlong forms,
  surrogates and values above U+10FFFF.\<close>

definition one_byte :: "string \<Rightarrow> bool" where
  "one_byte s \<longleftrightarrow> byte_in s 0 0 0x7F"

definition two_bytes :: "string \<Rightarrow> bool" where
  "two_bytes s \<longleftrightarrow> byte_in s 0 0xC2 0xDF \<and> byte_in s 1 0x80 0xBF"

definition three_bytes :: "string \<Rightarrow> bool" where
  "three_bytes s \<longleftrightarrow>
     (byte_in s 0 0xE0 0xE0 \<and> byte_in s 1 0xA0 0xBF \<or> byte_in s 0 0xE1 0xEC \<and> byte_in s 1 0x80 0xBF \<or>
      byte_in s 0 0xED 0xED \<and> byte_in s 1 0x80 0x9F \<or> byte_in s 0 0xEE 0xEF \<and> byte_in s 1 0x80 0xBF) \<and>
     byte_in s 2 0x80 0xBF"

definition four_bytes :: "string \<Rightarrow> bool" where
  "four_bytes s \<longleftrightarrow>
     (byte_in s 0 0xF0 0xF0 \<and> byte_in s 1 0x90 0xBF \<or> byte_in s 0 0xF1 0xF3 \<and> byte_in s 1 0x80 0xBF \<or>
      byte_in s 0 0xF4 0xF4 \<and> byte_in s 1 0x80 0x8F) \<and>
     byte_in s 2 0x80 0xBF \<and> byte_in s 3 0x80 0xBF"

text \<open>The length of the rune at the start, or 0 if there is none.\<close>

definition rune_size :: "string \<Rightarrow> nat" where
  "rune_size s =
     (if one_byte s then 1 else if two_bytes s then 2 else if three_bytes s then 3
      else if four_bytes s then 4 else 0)"

lemma byte_in_length: "byte_in s i lo hi \<Longrightarrow> i < length s"
  by (simp add: byte_in_def)

lemma bytes_length:
  "one_byte s \<Longrightarrow> 1 \<le> length s" "two_bytes s \<Longrightarrow> 2 \<le> length s" "three_bytes s \<Longrightarrow> 3 \<le> length s" "four_bytes s \<Longrightarrow> 4 \<le> length s"
  by (auto simp: one_byte_def two_bytes_def three_bytes_def four_bytes_def Suc_le_eq dest!: byte_in_length)

lemma rune_size_le: "rune_size s \<le> length s"
  using bytes_length [of s] by (auto simp: rune_size_def)

lemma rune_size_le_4: "rune_size s \<le> 4"
  by (simp add: rune_size_def)

lemma rune_size_append:
  assumes "rune_size s = n" and "n > 0"
  shows "rune_size (take n s @ t) = n"
proof -
  have n: "n \<le> length s" using rune_size_le [of s] assms(1) by simp
  have same: "byte_in (take n s @ t) i lo hi = byte_in s i lo hi" if "i < n" for i lo hi
    using that n by (simp add: byte_in_def nth_append)
  have "one_byte (take n s @ t) = one_byte s" using same assms(2) by (simp add: one_byte_def)
  moreover have "n \<ge> 2 \<Longrightarrow> two_bytes (take n s @ t) = two_bytes s" using same by (simp add: two_bytes_def)
  moreover have "n \<ge> 3 \<Longrightarrow> three_bytes (take n s @ t) = three_bytes s" using same by (simp add: three_bytes_def)
  moreover have "n \<ge> 4 \<Longrightarrow> four_bytes (take n s @ t) = four_bytes s" using same by (simp add: four_bytes_def)
  ultimately show ?thesis using assms unfolding rune_size_def by (auto split: if_splits)
qed

lemma rune_size_ascii: "code c < 0x80 \<Longrightarrow> rune_size (c # s) = 1"
  by (simp add: rune_size_def one_byte_def byte_in_def)

text \<open>The runes, each with a flag that is false for a byte that is none.\<close>

function runes :: "string \<Rightarrow> (bool \<times> string) list" where
  "runes s =
     (if s = [] then []
      else if rune_size s = 0 then (False, [hd s]) # runes (tl s)
      else (True, take (rune_size s) s) # runes (drop (rune_size s) s))"
  by pat_completeness auto
termination by (relation "measure length") auto

declare runes.simps [simp del]

definition RuneError :: string where
  "RuneError = [CHR 0xEF, CHR 0xBF, CHR 0xBD]"

definition valid_utf8 :: "string \<Rightarrow> bool" where
  "valid_utf8 s \<longleftrightarrow> (\<forall>r \<in> set (runes s). fst r)"

text \<open>The string with every rune error replaced.\<close>

definition sanitized :: "string \<Rightarrow> string" where
  "sanitized s = concat (map (\<lambda>(ok, r). if ok then r else RuneError) (runes s))"

lemma concat_runes: "concat (map snd (runes s)) = s"
proof (induction s rule: runes.induct)
  case (1 s)
  then show ?case
    using runes.simps [of s] by (cases "s = []") simp_all
qed

lemma sanitized_valid: "valid_utf8 s \<Longrightarrow> sanitized s = s"
proof -
  assume "valid_utf8 s"
  then have "map (\<lambda>(ok, r). if ok then r else RuneError) (runes s) = map snd (runes s)"
    by (auto simp: valid_utf8_def)
  then show ?thesis unfolding sanitized_def by (simp only: concat_runes)
qed

lemma runes_Nil [simp]: "runes [] = []"
  by (simp add: runes.simps)

lemma runes_ascii: "code c < 0x80 \<Longrightarrow> runes (c # s) = (True, [c]) # runes s"
  by (simp add: runes.simps [of "c # s"] rune_size_ascii)

lemma runes_all_ascii: "(\<And>c. c \<in> set s \<Longrightarrow> code c < 0x80) \<Longrightarrow> runes s = map (\<lambda>c. (True, [c])) s"
  by (induction s) (simp_all add: runes_ascii)

lemma valid_utf8_ascii: "(\<And>c. c \<in> set s \<Longrightarrow> code c < 0x80) \<Longrightarrow> valid_utf8 s"
  by (auto simp: valid_utf8_def runes_all_ascii)

end
