(* ===== verification/JsonString.thy ===== *)
theory JsonString
  imports Utf8
begin

text \<open>
  Strings as Go's \<open>encoding/json\<close> writes and reads them: the default escaping, the scanner for string literals
  and the decoder, with the proof that a written string is read back up to rune errors.
\<close>


section \<open>Writing strings\<close>

definition hex_char :: "nat \<Rightarrow> char" where
  "hex_char n = (if n < 10 then char_of (48 + n) else char_of (87 + n))"

definition u_escape :: "nat \<Rightarrow> string" where
  "u_escape n = [CHR 0x5C, CHR ''u'', hex_char (n div 4096 mod 16), hex_char (n div 256 mod 16),
     hex_char (n div 16 mod 16), hex_char (n mod 16)]"

text \<open>One rune of the string, \<open>False\<close> marking a byte that is none.  Besides quotation mark, backslash and
  control characters, the characters of HTML and the line separators of JavaScript are escaped.\<close>

definition quote_ascii :: "char \<Rightarrow> string" where
  "quote_ascii c =
     (if c = CHR 0x22 \<or> c = CHR 0x5C then [CHR 0x5C, c]
      else if c = CHR 0x08 then [CHR 0x5C, CHR ''b'']
      else if c = CHR 0x0C then [CHR 0x5C, CHR ''f'']
      else if c = CHR 0x0A then [CHR 0x5C, CHR ''n'']
      else if c = CHR 0x0D then [CHR 0x5C, CHR ''r'']
      else if c = CHR 0x09 then [CHR 0x5C, CHR ''t'']
      else if code c < 0x20 \<or> c \<in> {CHR ''<'', CHR ''>'', CHR ''&''} then u_escape (code c)
      else [c])"

definition quote_rune :: "bool \<times> string \<Rightarrow> string" where
  "quote_rune r =
     (if \<not> fst r then u_escape 0xFFFD
      else if length (snd r) = 1 then quote_ascii (hd (snd r))
      else if snd r = [CHR 0xE2, CHR 0x80, CHR 0xA8] then u_escape 0x2028
      else if snd r = [CHR 0xE2, CHR 0x80, CHR 0xA9] then u_escape 0x2029
      else snd r)"

definition quoted :: "string \<Rightarrow> string" where
  "quoted s = concat (map quote_rune (runes s))"

definition json_string :: "string \<Rightarrow> string" where
  "json_string s = CHR 0x22 # quoted s @ [CHR 0x22]"


section \<open>Reading strings\<close>

definition hex_value :: "char \<Rightarrow> nat option" where
  "hex_value c =
     (if 48 \<le> code c \<and> code c \<le> 57 then Some (code c - 48)
      else if 97 \<le> code c \<and> code c \<le> 102 then Some (code c - 87)
      else if 65 \<le> code c \<and> code c \<le> 70 then Some (code c - 55)
      else None)"

text \<open>Four hexadecimal digits, as after \<open>\u\<close>.\<close>

fun getu4 :: "string \<Rightarrow> (nat \<times> string) option" where
  "getu4 (a # b # c # d # s) =
     (case (hex_value a, hex_value b, hex_value c, hex_value d) of
        (Some x, Some y, Some z, Some w) \<Rightarrow> Some (x * 4096 + y * 256 + z * 16 + w, s)
      | _ \<Rightarrow> None)"
| "getu4 _ = None"

definition simple_escape :: "char \<Rightarrow> char option" where
  "simple_escape e =
     (if e \<in> {CHR 0x22, CHR 0x5C, CHR ''/''} then Some e
      else if e = CHR ''b'' then Some CHR 0x08
      else if e = CHR ''f'' then Some CHR 0x0C
      else if e = CHR ''n'' then Some CHR 0x0A
      else if e = CHR ''r'' then Some CHR 0x0D
      else if e = CHR ''t'' then Some CHR 0x09
      else None)"

text \<open>The scanner: the raw content up to the closing quotation mark and what follows.\<close>

fun scan_string :: "string \<Rightarrow> (string \<times> string) option" where
  "scan_string [] = None"
| "scan_string (c # cs) =
     (if c = CHR 0x22 then Some ([], cs)
      else if c = CHR 0x5C then
        (case cs of
           [] \<Rightarrow> None
         | e # es \<Rightarrow>
             if simple_escape e \<noteq> None then map_option (\<lambda>(x, r). (c # e # x, r)) (scan_string es)
             else if e = CHR ''u'' then
               (case es of
                  h1 # h2 # h3 # h4 # r \<Rightarrow>
                    if getu4 [h1, h2, h3, h4] = None then None
                    else map_option (\<lambda>(x, r'). (c # e # h1 # h2 # h3 # h4 # x, r')) (scan_string r)
                | _ \<Rightarrow> None)
             else None)
      else if code c < 0x20 then None
      else map_option (\<lambda>(x, r). (c # x, r)) (scan_string cs))"

definition encode_rune :: "nat \<Rightarrow> string" where
  "encode_rune n =
     (if n < 0x80 then [char_of n]
      else if n < 0x800 then [char_of (0xC0 + n div 64), char_of (0x80 + n mod 64)]
      else if n < 0x10000 then
        [char_of (0xE0 + n div 4096), char_of (0x80 + n div 64 mod 64), char_of (0x80 + n mod 64)]
      else [char_of (0xF0 + n div 262144), char_of (0x80 + n div 4096 mod 64),
            char_of (0x80 + n div 64 mod 64), char_of (0x80 + n mod 64)])"

text \<open>The second half of a surrogate pair, if the text goes on with one.\<close>

definition low_surrogate :: "string \<Rightarrow> (nat \<times> string) option" where
  "low_surrogate s =
     (case s of
        c # e # r \<Rightarrow>
          if c = CHR 0x5C \<and> e = CHR ''u''
          then (case getu4 r of
                  Some (n, r') \<Rightarrow> if 0xDC00 \<le> n \<and> n < 0xE000 then Some (n, r') else None
                | None \<Rightarrow> None)
          else None
      | _ \<Rightarrow> None)"

lemma getu4_length: "getu4 s = Some (n, r) \<Longrightarrow> length r < length s"
  by (cases s rule: getu4.cases) (auto split: option.splits)

lemma low_surrogate_length: "low_surrogate s = Some (n, r) \<Longrightarrow> length r < length s"
  by (auto simp: low_surrogate_def split: list.splits if_splits option.splits dest: getu4_length)

text \<open>The decoder for the raw content of a string.  Unpaired surrogates and rune errors become U+FFFD.\<close>

function unquote :: "string \<Rightarrow> string option" where
  "unquote [] = Some []"
| "unquote (c # cs) =
     (if c = CHR 0x5C then
        (case cs of
           [] \<Rightarrow> None
         | e # es \<Rightarrow>
             if e = CHR ''u'' then
               (case getu4 es of
                  None \<Rightarrow> None
                | Some (n, r) \<Rightarrow>
                    if 0xD800 \<le> n \<and> n < 0xE000 then
                      (case (if n < 0xDC00 then low_surrogate r else None) of
                         Some (m, r') \<Rightarrow>
                           map_option ((@) (encode_rune (0x10000 + (n - 0xD800) * 1024 + (m - 0xDC00)))) (unquote r')
                       | None \<Rightarrow> map_option ((@) RuneError) (unquote r))
                    else map_option ((@) (encode_rune n)) (unquote r))
             else (case simple_escape e of
                     None \<Rightarrow> None
                   | Some x \<Rightarrow> map_option ((#) x) (unquote es)))
      else if c = CHR 0x22 \<or> code c < 0x20 then None
      else if rune_size (c # cs) = 0 then map_option ((@) RuneError) (unquote cs)
      else map_option ((@) (take (rune_size (c # cs)) (c # cs))) (unquote (drop (rune_size (c # cs)) (c # cs))))"
  by pat_completeness auto
termination
  by (relation "measure length") (auto split: if_splits dest!: getu4_length low_surrogate_length)

declare unquote.simps(2) [simp del]


section \<open>Strings are read back\<close>

lemma code_hex_char: "n < 16 \<Longrightarrow> code (hex_char n) = (if n < 10 then 48 + n else 87 + n)"
  by (simp add: hex_char_def)

lemma hex_value_hex_char: "n < 16 \<Longrightarrow> hex_value (hex_char n) = Some n"
  by (simp add: hex_value_def code_hex_char)

lemma hex_digits: "(n :: nat) < 65536 \<Longrightarrow>
    n div 4096 mod 16 * 4096 + n div 256 mod 16 * 256 + n div 16 mod 16 * 16 + n mod 16 = n"
proof -
  assume "n < 65536"
  have step: "m = 16 * (m div 16) + m mod 16" for m :: nat by simp
  have "n div 256 = n div 16 div 16" "n div 4096 = n div 256 div 16" by (simp_all flip: div_mult2_eq)
  then have "n div 256 = 16 * (n div 4096) + n div 256 mod 16" "n div 16 = 16 * (n div 256) + n div 16 mod 16"
    using step by metis+
  moreover have "n div 4096 mod 16 = n div 4096" using \<open>n < 65536\<close> by simp
  ultimately show ?thesis using step [of n] by linarith
qed

lemma getu4_u_escape: "n < 65536 \<Longrightarrow> getu4 (drop 2 (u_escape n) @ s) = Some (n, s)"
  using hex_digits [of n] by (simp add: u_escape_def hex_value_hex_char)

lemma u_escape_Cons: "u_escape n = CHR 0x5C # CHR ''u'' # drop 2 (u_escape n)"
  by (simp add: u_escape_def)

lemma unquote_u_escape:
  assumes "n < 0xD800 \<or> 0xE000 \<le> n" and "n < 65536"
  shows "unquote (u_escape n @ s) = map_option ((@) (encode_rune n)) (unquote s)"
  using assms getu4_u_escape [OF assms(2), of s]
  by (subst u_escape_Cons) (auto simp: unquote.simps(2))

lemma scan_string_u_escape:
  assumes "n < 65536"
  shows "scan_string (u_escape n @ s) = map_option (\<lambda>(x, r). (u_escape n @ x, r)) (scan_string s)"
  using getu4_u_escape [OF assms, of "[]"] by (simp add: u_escape_def simple_escape_def)


lemma simple_escapes:
  "simple_escape CHR 0x22 = Some CHR 0x22" "simple_escape CHR 0x5C = Some CHR 0x5C" "simple_escape CHR ''b'' = Some CHR 0x08"
  "simple_escape CHR ''f'' = Some CHR 0x0C" "simple_escape CHR ''n'' = Some CHR 0x0A" "simple_escape CHR ''r'' = Some CHR 0x0D"
  "simple_escape CHR ''t'' = Some CHR 0x09"
  by (simp_all add: simple_escape_def)

lemma unquote_quote_ascii:
  assumes "code c < 0x80"
  shows "unquote (quote_ascii c @ s) = map_option ((#) c) (unquote s)"
proof (cases "code c < 0x20 \<or> c \<in> {CHR ''<'', CHR ''>'', CHR ''&''}")
  case True
  have "unquote (u_escape (code c) @ s) = map_option ((#) c) (unquote s)"
    using assms by (subst unquote_u_escape) (auto simp: encode_rune_def fun_eq_iff intro: option.map_cong0)
  then show ?thesis using True by (auto simp: quote_ascii_def unquote.simps(2) simple_escapes)
next
  case False
  then show ?thesis
    using rune_size_ascii [OF assms, of s]
    by (auto simp: quote_ascii_def unquote.simps(2) simple_escapes fun_eq_iff intro: option.map_cong0)
qed

lemma scan_string_quote_ascii:
  "scan_string (quote_ascii c @ s) = map_option (\<lambda>(x, r). (quote_ascii c @ x, r)) (scan_string s)"
proof (cases "code c < 0x20 \<or> c \<in> {CHR ''<'', CHR ''>'', CHR ''&''}")
  case True
  have "code c < 65536" using of_char_nat_bound [of c] by linarith
  then show ?thesis by (simp add: quote_ascii_def simple_escapes True scan_string_u_escape)
next
  case False
  then show ?thesis by (simp add: quote_ascii_def simple_escapes)
qed

lemma high_byte: "byte_in s i lo hi \<Longrightarrow> 0x80 \<le> lo \<Longrightarrow> 0x80 \<le> code (s ! i)"
  by (simp add: byte_in_def)

lemma rune_size_bytes:
  assumes "rune_size s = n" and "n \<ge> 2" and "i < n"
  shows "code (s ! i) \<ge> 0x80"
proof -
  consider "n = 2" "two_bytes s" | "n = 3" "three_bytes s" | "n = 4" "four_bytes s"
    using assms(1,2) by (auto simp: rune_size_def split: if_splits)
  then show ?thesis
  proof cases
    case 1
    then have "i = 0 \<or> i = 1" using assms(3) by auto
    then show ?thesis using 1 high_byte by (auto simp: two_bytes_def)
  next
    case 2
    then have "i = 0 \<or> i = 1 \<or> i = 2" using assms(3) by auto
    then show ?thesis using 2 high_byte by (auto simp: three_bytes_def)
  next
    case 3
    then have "i = 0 \<or> i = 1 \<or> i = 2 \<or> i = 3" using assms(3) by auto
    then show ?thesis using 3 high_byte by (auto simp: four_bytes_def)
  qed
qed

lemma runes_elem:
  assumes "(True, x) \<in> set (runes s)"
  shows "rune_size x = length x" "x \<noteq> []"
proof -
  have "rune_size x = length x \<and> x \<noteq> []" using assms
  proof (induction s rule: runes.induct)
    case (1 s)
    show ?case
    proof (cases "s \<noteq> [] \<and> rune_size s \<noteq> 0 \<and> x = take (rune_size s) s")
      case True
      then show ?thesis using rune_size_append [of s "rune_size s" "[]"] rune_size_le [of s] by simp
    next
      case False
      then show ?thesis using 1 by (subst (asm) (3) runes.simps) (auto split: if_splits)
    qed
  qed
  then show "rune_size x = length x" "x \<noteq> []" by simp_all
qed


lemma one_byte_code: "rune_size [c] = Suc 0 \<Longrightarrow> code c < 0x80"
  by (auto simp: rune_size_def one_byte_def two_bytes_def three_bytes_def four_bytes_def byte_in_def split: if_splits)

lemma special_runes:
  "encode_rune 0xFFFD = RuneError" "encode_rune 0x2028 = [CHR 0xE2, CHR 0x80, CHR 0xA8]"
  "encode_rune 0x2029 = [CHR 0xE2, CHR 0x80, CHR 0xA9]"
  by (simp_all add: encode_rune_def RuneError_def char_of_eq_iff)

lemma unquote_raw_rune:
  assumes "rune_size x = length x" and "2 \<le> length x"
  shows "unquote (x @ s) = map_option ((@) x) (unquote s)"
proof -
  obtain c cs where x: "x = c # cs" using assms(2) by (cases x) auto
  have "code c \<ge> 0x80" using rune_size_bytes [OF assms, of 0] x by simp
  then have "c \<noteq> CHR 0x5C" "c \<noteq> CHR 0x22" "\<not> code c < 0x20" by auto
  moreover have "rune_size (x @ s) = length x" using rune_size_append [of x "length x" s] assms x by simp
  ultimately show ?thesis using assms(2) by (simp add: x unquote.simps(2))
qed

lemma scan_string_raw:
  assumes "\<And>c. c \<in> set x \<Longrightarrow> code c \<ge> 0x80"
  shows "scan_string (x @ s) = map_option (\<lambda>(y, r). (x @ y, r)) (scan_string s)"
  using assms
proof (induction x)
  case Nil
  then show ?case by (simp add: option.map_ident_strong split_beta)
next
  case (Cons c x)
  have "code c \<ge> 0x80" using Cons.prems by simp
  then have "c \<noteq> CHR 0x5C" "c \<noteq> CHR 0x22" "\<not> code c < 0x20" by auto
  then show ?case using Cons by (simp add: option.map_comp comp_def split_beta)
qed

lemma rune_cases:
  assumes "r \<in> set (runes s)"
  obtains (error) b where "r = (False, b)"
  | (ascii) c where "r = (True, [c])" "code c < 0x80"
  | (long) x where "r = (True, x)" "rune_size x = length x" "2 \<le> length x"
proof (cases r)
  case (Pair ok x)
  show ?thesis
  proof (cases ok)
    case True
    then have x: "rune_size x = length x" "x \<noteq> []" using runes_elem [of x s] assms Pair by simp_all
    show ?thesis
    proof (cases "length x = 1")
      case True1: True
      then obtain c where "x = [c]" by (cases x) auto
      then show ?thesis using ascii [of c] x(1) one_byte_code [of c] Pair True by simp
    next
      case False
      then have "2 \<le> length x" using x(2) by (cases x) (auto simp: Suc_le_eq)
      then show ?thesis using long [of x] x(1) Pair True by simp
    qed
  qed (use error Pair in simp)
qed

lemma unquote_quote_rune:
  assumes "r \<in> set (runes s0)"
  shows "unquote (quote_rune r @ s) = map_option ((@) (if fst r then snd r else RuneError)) (unquote s)"
  using assms
proof (cases rule: rune_cases)
  case (error b)
  then show ?thesis by (simp add: quote_rune_def unquote_u_escape special_runes)
next
  case (ascii c)
  then show ?thesis by (simp add: quote_rune_def unquote_quote_ascii) (rule arg_cong [of _ _ "\<lambda>f. map_option f _"], simp add: fun_eq_iff)
next
  case (long x)
  then show ?thesis by (auto simp: quote_rune_def unquote_u_escape special_runes unquote_raw_rune)
qed

lemma scan_string_quote_rune:
  assumes "r \<in> set (runes s0)"
  shows "scan_string (quote_rune r @ s) = map_option (\<lambda>(x, t). (quote_rune r @ x, t)) (scan_string s)"
  using assms
proof (cases rule: rune_cases)
  case (long x)
  have "scan_string (x @ s) = map_option (\<lambda>(y, t). (x @ y, t)) (scan_string s)"
    by (rule scan_string_raw) (use rune_size_bytes [OF long(2,3)] in \<open>auto simp: in_set_conv_nth\<close>)
  then show ?thesis using long by (simp add: quote_rune_def scan_string_u_escape)
qed (simp_all add: quote_rune_def scan_string_u_escape scan_string_quote_ascii)

lemma unquote_runes:
  assumes "set rs \<subseteq> set (runes s)"
  shows "unquote (concat (map quote_rune rs)) = Some (concat (map (\<lambda>(ok, r). if ok then r else RuneError) rs))"
  using assms
proof (induction rs)
  case (Cons r rs)
  then show ?case using unquote_quote_rune [of r s "concat (map quote_rune rs)"] by (simp add: split_beta)
qed simp

lemma scan_string_runes:
  assumes "set rs \<subseteq> set (runes s)"
  shows "scan_string (concat (map quote_rune rs) @ CHR 0x22 # t) = Some (concat (map quote_rune rs), t)"
  using assms
proof (induction rs)
  case (Cons r rs)
  then show ?case using scan_string_quote_rune [of r s] by simp
qed simp

text \<open>A written string is scanned to its raw content, and the content is the string with its rune errors
  replaced: the string itself if it is well-formed.\<close>

lemma scan_string_quoted: "scan_string (quoted s @ CHR 0x22 # t) = Some (quoted s, t)"
  using scan_string_runes [of "runes s" s t] by (simp add: quoted_def)

lemma unquote_quoted: "unquote (quoted s) = Some (sanitized s)"
  using unquote_runes [of "runes s" s] by (simp add: quoted_def sanitized_def)

end
