(* ===== verification/Json.thy ===== *)
theory Json
  imports JsonString Strconv
begin

text \<open>
  JSON as Go's \<open>encoding/json\<close> writes and reads it, as far as \<open>domain/types/lingo/codec.go\<close> and
  \<open>adapters/outbound/cache_token_store.go\<close> use it: integers, strings, objects, and the decoder for them on
  arbitrary input.
\<close>


section \<open>Values\<close>

text \<open>A scanned value keeps what the decoder needs: the raw content of a string, the literal of a number, and
  the raw texts of the parts of a compound value.  Object keys are raw contents too.\<close>

datatype json = JNull | JBool bool | JNum string | JStr string | JArr "string list" | JObj "(string \<times> string) list"

definition skip_ws :: "string \<Rightarrow> string" where
  "skip_ws = dropWhile (\<lambda>c. c \<in> {CHR 0x20, CHR 0x09, CHR 0x0D, CHR 0x0A})"

definition is_digit :: "char \<Rightarrow> bool" where
  "is_digit c \<longleftrightarrow> digit_value c \<noteq> None"

definition scan_digits :: "string \<Rightarrow> (string \<times> string) option" where
  "scan_digits s = (case takeWhile is_digit s of [] \<Rightarrow> None | ds \<Rightarrow> Some (ds, dropWhile is_digit s))"

definition scan_int :: "string \<Rightarrow> (string \<times> string) option" where
  "scan_int s = (case s of c # r \<Rightarrow> if c = CHR ''0'' then Some ([c], r) else scan_digits s | [] \<Rightarrow> None)"

definition scan_frac :: "string \<Rightarrow> (string \<times> string) option" where
  "scan_frac s =
     (case s of
        c # r \<Rightarrow> if c = CHR ''.'' then map_option (\<lambda>(ds, r'). (c # ds, r')) (scan_digits r) else Some ([], s)
      | [] \<Rightarrow> Some ([], s))"

definition scan_exp :: "string \<Rightarrow> (string \<times> string) option" where
  "scan_exp s =
     (case s of
        c # r \<Rightarrow>
          if c = CHR ''e'' \<or> c = CHR ''E'' then
            (case r of
               g # r' \<Rightarrow> if g = CHR ''+'' \<or> g = CHR ''-''
                         then map_option (\<lambda>(ds, r''). (c # g # ds, r'')) (scan_digits r')
                         else map_option (\<lambda>(ds, r''). (c # ds, r'')) (scan_digits r)
             | [] \<Rightarrow> None)
          else Some ([], s)
      | [] \<Rightarrow> Some ([], s))"

definition scan_number :: "string \<Rightarrow> (string \<times> string) option" where
  "scan_number s =
     (let (sign, s0) = (case s of c # r \<Rightarrow> if c = CHR ''-'' then ([c], r) else ([], s) | [] \<Rightarrow> ([], s))
      in case scan_int s0 of
           None \<Rightarrow> None
         | Some (i, s1) \<Rightarrow>
             (case scan_frac s1 of
                None \<Rightarrow> None
              | Some (f, s2) \<Rightarrow> map_option (\<lambda>(e, s3). (sign @ i @ f @ e, s3)) (scan_exp s2)))"

definition scan_literal :: "string \<Rightarrow> json \<Rightarrow> string \<Rightarrow> (json \<times> string) option" where
  "scan_literal w v s = (if take (length w) s = w then Some (v, drop (length w) s) else None)"

text \<open>\<open>maxNestingDepth\<close>\<close>

definition max_depth :: nat where
  "max_depth = 10000"

text \<open>The scanner for values, with a bound on its steps: one more than twice the length of the input is
  enough.  \<open>d\<close> is the nesting depth.  The raw text of a part is what its scan consumed.\<close>

fun scan_value :: "nat \<Rightarrow> nat \<Rightarrow> string \<Rightarrow> (json \<times> string) option"
  and scan_elems :: "nat \<Rightarrow> nat \<Rightarrow> string \<Rightarrow> (string list \<times> string) option"
  and scan_members :: "nat \<Rightarrow> nat \<Rightarrow> string \<Rightarrow> ((string \<times> string) list \<times> string) option" where
  "scan_value 0 d s = None"
| "scan_value (Suc f) d s =
     (case s of
        [] \<Rightarrow> None
      | c # cs \<Rightarrow>
          if c = CHR 0x22 then map_option (\<lambda>(x, r). (JStr x, r)) (scan_string cs)
          else if c = CHR 0x7B then
            (if d \<ge> max_depth then None
             else (case skip_ws cs of
                     e # r \<Rightarrow> if e = CHR 0x7D then Some (JObj [], r)
                               else map_option (\<lambda>(ms, r'). (JObj ms, r')) (scan_members f (Suc d) (e # r))
                   | [] \<Rightarrow> None))
          else if c = CHR 0x5B then
            (if d \<ge> max_depth then None
             else (case skip_ws cs of
                     e # r \<Rightarrow> if e = CHR 0x5D then Some (JArr [], r)
                               else map_option (\<lambda>(es, r'). (JArr es, r')) (scan_elems f (Suc d) (e # r))
                   | [] \<Rightarrow> None))
          else if c = CHR ''t'' then scan_literal ''true'' (JBool True) s
          else if c = CHR ''f'' then scan_literal ''false'' (JBool False) s
          else if c = CHR ''n'' then scan_literal ''null'' JNull s
          else map_option (\<lambda>(x, r). (JNum x, r)) (scan_number s))"
| "scan_elems 0 d s = None"
| "scan_elems (Suc f) d s =
     (case scan_value f d s of
        None \<Rightarrow> None
      | Some (v, r) \<Rightarrow>
          (case skip_ws r of
             c # r' \<Rightarrow>
               if c = CHR 0x2C then
                 map_option (\<lambda>(es, r''). (take (length s - length r) s # es, r'')) (scan_elems f d (skip_ws r'))
               else if c = CHR 0x5D then Some ([take (length s - length r) s], r')
               else None
           | [] \<Rightarrow> None))"
| "scan_members 0 d s = None"
| "scan_members (Suc f) d s =
     (case s of
        [] \<Rightarrow> None
      | q # s0 \<Rightarrow>
          if q \<noteq> CHR 0x22 then None
          else (case scan_string s0 of
             None \<Rightarrow> None
           | Some (key, s1) \<Rightarrow>
               (case skip_ws s1 of
                  [] \<Rightarrow> None
                | c # s2 \<Rightarrow>
                    if c \<noteq> CHR 0x3A then None
                    else (case scan_value f d (skip_ws s2) of
                       None \<Rightarrow> None
                     | Some (v, r) \<Rightarrow>
                         (let raw = take (length (skip_ws s2) - length r) (skip_ws s2)
                          in case skip_ws r of
                               e # r' \<Rightarrow>
                                 if e = CHR 0x2C then
                                   map_option (\<lambda>(ms, r''). ((key, raw) # ms, r'')) (scan_members f d (skip_ws r'))
                                 else if e = CHR 0x7D then Some ([(key, raw)], r')
                                 else None
                             | [] \<Rightarrow> None)))))"

text \<open>A whole text: one value with white space around it.\<close>

definition json_parse :: "string \<Rightarrow> json option" where
  "json_parse s =
     (case scan_value (Suc (2 * length s)) 0 (skip_ws s) of
        Some (v, r) \<Rightarrow> if skip_ws r = [] then Some v else None
      | None \<Rightarrow> None)"



section \<open>The bound of the scanner is enough\<close>

lemma scan_string_length: "scan_string s = Some (x, r) \<Longrightarrow> length r < length s"
proof (induction s arbitrary: x r rule: scan_string.induct)
  case (2 c cs)
  then show ?case by (fastforce split: if_splits list.splits dest: less_SucI)
qed simp

lemma skip_ws_length: "length (skip_ws s) \<le> length s"
  by (simp add: skip_ws_def length_dropWhile_le)

lemma skip_ws_Cons_length: "skip_ws s = c # r \<Longrightarrow> length r < length s"
  using skip_ws_length [of s] by simp

lemma scan_digits_length:
  assumes "scan_digits s = Some (x, r)"
  shows "length r < length s"
proof -
  have "s = takeWhile is_digit s @ r" "takeWhile is_digit s \<noteq> []"
    using assms by (auto simp: scan_digits_def split: list.splits)
  then show ?thesis by (metis length_append length_greater_0_conv less_add_same_cancel2)
qed

lemma scan_int_length: "scan_int s = Some (x, r) \<Longrightarrow> length r < length s"
  by (auto simp: scan_int_def split: list.splits if_splits dest: scan_digits_length)

lemma scan_frac_length: "scan_frac s = Some (x, r) \<Longrightarrow> length r \<le> length s"
  by (auto simp: scan_frac_def split: list.splits if_splits dest: scan_digits_length)

lemma scan_exp_length: "scan_exp s = Some (x, r) \<Longrightarrow> length r \<le> length s"
  by (auto simp: scan_exp_def split: list.splits if_splits dest: scan_digits_length)

lemma scan_number_length:
  assumes "scan_number s = Some (x, r)"
  shows "length r < length s"
proof -
  define s0 where "s0 = snd (case s of c # r \<Rightarrow> if c = CHR ''-'' then ([c], r) else ([], s) | [] \<Rightarrow> ([], s))"
  have "length s0 \<le> length s" by (simp add: s0_def split: list.splits)
  moreover obtain i s1 f s2 e where "scan_int s0 = Some (i, s1)" "scan_frac s1 = Some (f, s2)" "scan_exp s2 = Some (e, r)"
    using assms by (auto simp: scan_number_def s0_def split_beta split: option.splits)
  ultimately show ?thesis using scan_int_length scan_frac_length scan_exp_length by fastforce
qed

text \<open>What a successful step of the scanner consists of.\<close>

lemma scan_value_cases:
  assumes "scan_value (Suc f) d s = Some (v, r)"
  shows "length r < length s \<or>
    (\<exists>c cs e r0. s = c # cs \<and> skip_ws cs = e # r0 \<and>
       ((\<exists>ms. scan_members f (Suc d) (e # r0) = Some (ms, r)) \<or> (\<exists>es. scan_elems f (Suc d) (e # r0) = Some (es, r))))"
proof (cases s)
  case (Cons c cs)
  have "skip_ws cs = e # r \<Longrightarrow> length r < Suc (length cs)" for e using skip_ws_Cons_length [of cs e r] by simp
  moreover have "scan_string cs = Some (x, r) \<Longrightarrow> length r < Suc (length cs)" for x using scan_string_length [of cs x r] by simp
  moreover have "scan_number s = Some (x, r) \<Longrightarrow> length r < Suc (length cs)" for x using scan_number_length [of s x r] Cons by simp
  ultimately show ?thesis
    using assms Cons by (auto simp: scan_literal_def split: if_splits list.splits)
qed (use assms in simp)

lemma scan_elems_cases:
  assumes "scan_elems (Suc f) d s = Some (es, r)"
  obtains v r0 c r1 where "scan_value f d s = Some (v, r0)" "skip_ws r0 = c # r1"
    "r = r1 \<or> (\<exists>es'. scan_elems f d (skip_ws r1) = Some (es', r))"
  using assms by (auto split: option.splits list.splits if_splits)

lemma scan_members_cases:
  assumes "scan_members (Suc f) d s = Some (ms, r)"
  obtains q s0 key s1 c s2 v r0 e r1 where "s = q # s0" "scan_string s0 = Some (key, s1)" "skip_ws s1 = c # s2"
    "scan_value f d (skip_ws s2) = Some (v, r0)" "skip_ws r0 = e # r1"
    "r = r1 \<or> (\<exists>ms'. scan_members f d (skip_ws r1) = Some (ms', r))"
  using assms by (auto simp: Let_def split: option.splits list.splits if_splits)

lemma scan_length:
  "scan_value f d s = Some (v, r) \<Longrightarrow> length r < length s"
  "scan_elems f d s = Some (es, r) \<Longrightarrow> length r < length s"
  "scan_members f d s = Some (ms, r) \<Longrightarrow> length r < length s"
proof (induction f arbitrary: d s v es ms r)
  case (Suc f)
  {
    case 1
    from scan_value_cases [OF this] show ?case
    proof (elim disjE exE conjE)
      fix c cs e r0 ms assume "s = c # cs" "skip_ws cs = e # r0" "scan_members f (Suc d) (e # r0) = Some (ms, r)"
      then show ?thesis using Suc.IH(3) skip_ws_Cons_length [of cs e r0] by force
    next
      fix c cs e r0 es assume "s = c # cs" "skip_ws cs = e # r0" "scan_elems f (Suc d) (e # r0) = Some (es, r)"
      then show ?thesis using Suc.IH(2) skip_ws_Cons_length [of cs e r0] by force
    qed
  next
    case 2
    then obtain v r0 c r1 where e: "scan_value f d s = Some (v, r0)" "skip_ws r0 = c # r1"
        "r = r1 \<or> (\<exists>es'. scan_elems f d (skip_ws r1) = Some (es', r))"
      by (rule scan_elems_cases)
    have "length r \<le> length r1" using e(3) Suc.IH(2) [of d "skip_ws r1"] skip_ws_length [of r1] by fastforce
    then show ?case using Suc.IH(1) [OF e(1)] skip_ws_Cons_length [OF e(2)] by simp
  next
    case 3
    then obtain q s0 key s1 c s2 v r0 e r1 where m: "s = q # s0" "scan_string s0 = Some (key, s1)" "skip_ws s1 = c # s2"
        "scan_value f d (skip_ws s2) = Some (v, r0)" "skip_ws r0 = e # r1"
        "r = r1 \<or> (\<exists>ms'. scan_members f d (skip_ws r1) = Some (ms', r))"
      by (rule scan_members_cases)
    have "length r \<le> length r1" using m(6) Suc.IH(3) [of d "skip_ws r1"] skip_ws_length [of r1] by fastforce
    then show ?case
      using m(1) Suc.IH(1) [OF m(4)] skip_ws_Cons_length [OF m(5)] skip_ws_Cons_length [OF m(3)] scan_string_length [OF m(2)]
        skip_ws_length [of s2] by simp
  }
qed simp_all


text \<open>More steps change nothing once there are twice as many as characters.\<close>

lemma scan_stable:
  "2 * length s < f \<Longrightarrow> scan_value (Suc f) d s = scan_value f d s"
  "Suc (2 * length s) < f \<Longrightarrow> scan_elems (Suc f) d s = scan_elems f d s"
  "Suc (2 * length s) < f \<Longrightarrow> scan_members (Suc f) d s = scan_members f d s"
proof (induction f arbitrary: d s)
  case (Suc f)
  {
    case 1
    show ?case
    proof (cases s)
      case (Cons c cs)
      show ?thesis
      proof (cases "skip_ws cs")
        case Nil
        then show ?thesis by (simp add: Cons)
      next
        case (Cons e r)
        have "Suc (2 * length (e # r)) < f"
          using "1" skip_ws_Cons_length [OF Cons] \<open>s = c # cs\<close> by simp
        then have "scan_elems (Suc f) (Suc d) (e # r) = scan_elems f (Suc d) (e # r)"
          "scan_members (Suc f) (Suc d) (e # r) = scan_members f (Suc d) (e # r)"
          using Suc.IH(2,3) by blast+
        then show ?thesis unfolding scan_value.simps(2) [of "Suc f"] scan_value.simps(2) [of f] \<open>s = c # cs\<close>
          by (simp only: list.case Cons)
      qed
    qed simp
  next
    case 2
    have v: "scan_value (Suc f) d s = scan_value f d s" using Suc.IH(1) [of s d] 2 by simp
    have e: "scan_elems (Suc f) d (skip_ws r1) = scan_elems f d (skip_ws r1)"
      if "scan_value f d s = Some (w, r0)" "skip_ws r0 = c # r1" for w r0 c r1
      using Suc.IH(2) [of "skip_ws r1" d] scan_length(1) [OF that(1)] skip_ws_Cons_length [OF that(2)] skip_ws_length [of r1] 2
      by simp
    show ?case
      unfolding scan_elems.simps(2) [of "Suc f" d s] scan_elems.simps(2) [of f d s] v
      using e by (auto split: option.splits list.splits simp del: scan_elems.simps)
  next
    case 3
    have v: "scan_value (Suc f) d (skip_ws s2) = scan_value f d (skip_ws s2)"
      if "s = q # s0" "scan_string s0 = Some (key, s1)" "skip_ws s1 = c # s2" for q s0 key s1 c s2
      using Suc.IH(1) [of "skip_ws s2" d] scan_string_length [OF that(2)] skip_ws_Cons_length [OF that(3)] skip_ws_length [of s2] 3 that(1)
      by simp
    have m: "scan_members (Suc f) d (skip_ws r1) = scan_members f d (skip_ws r1)"
      if "s = q # s0" "scan_string s0 = Some (key, s1)" "skip_ws s1 = c # s2" "scan_value f d (skip_ws s2) = Some (w, r0)"
        "skip_ws r0 = e # r1" for q s0 key s1 c s2 w r0 e r1
      using Suc.IH(3) [of "skip_ws r1" d] scan_string_length [OF that(2)] skip_ws_Cons_length [OF that(3)] skip_ws_length [of s2]
        scan_length(1) [OF that(4)] skip_ws_Cons_length [OF that(5)] skip_ws_length [of r1] 3 that(1)
      by simp
    show ?case
    proof (cases s)
      case (Cons q s0)
      show ?thesis
        unfolding Cons scan_members.simps(2) [of "Suc f" d "q # s0"] scan_members.simps(2) [of f d "q # s0"] list.case
        using v [OF Cons] m [OF Cons]
        by (auto simp: Let_def split: option.splits list.splits simp del: scan_members.simps scan_value.simps)
    qed simp
  }
qed simp_all

lemma scan_value_enough: "2 * length s < f \<Longrightarrow> scan_value (f + n) d s = scan_value f d s"
  by (induction n) (simp_all del: scan_value.simps add: scan_stable)



declare scan_value.simps [simp del] scan_elems.simps [simp del] scan_members.simps [simp del]


section \<open>Writing objects\<close>

definition json_int :: "int \<Rightarrow> string" where
  "json_int i = dec_int i"

fun json_members :: "(string \<times> string) list \<Rightarrow> string" where
  "json_members [] = []"
| "json_members [(k, raw)] = json_string k @ CHR 0x3A # raw"
| "json_members ((k, raw) # ms) = json_string k @ CHR 0x3A # raw @ CHR 0x2C # json_members ms"

text \<open>An object with the given keys and encoded values, in order.\<close>

definition json_object :: "(string \<times> string) list \<Rightarrow> string" where
  "json_object ms = CHR 0x7B # json_members ms @ [CHR 0x7D]"


section \<open>Decoding into Go values\<close>

text \<open>A field is found by its exact name, else by one that is equal up to case.  Two runes outside ASCII fold
  to ASCII letters, the long s and the Kelvin sign.\<close>

definition fold_char :: "char \<Rightarrow> char" where
  "fold_char c = (if 97 \<le> code c \<and> code c \<le> 122 then char_of (code c - 32) else c)"

definition fold_rune :: "bool \<times> string \<Rightarrow> string" where
  "fold_rune r =
     (if snd r = [CHR 0xC5, CHR 0xBF] then ''S''
      else if snd r = [CHR 0xE2, CHR 0x84, CHR 0xAA] then ''K''
      else map fold_char (snd r))"

definition fold_name :: "string \<Rightarrow> string" where
  "fold_name s = concat (map fold_rune (runes s))"

definition find_field :: "string list \<Rightarrow> string \<Rightarrow> string option" where
  "find_field names key =
     (if key \<in> set names then Some key else List.find (\<lambda>n. fold_name n = fold_name key) names)"

text \<open>The members are assigned in order; unknown ones are skipped.  A value of the wrong type is an error in
  the end, whatever else was assigned.\<close>

fun decode_members :: "(string \<Rightarrow> string \<Rightarrow> 's \<Rightarrow> 's option) \<Rightarrow> string list \<Rightarrow> (string \<times> string) list \<Rightarrow> 's \<Rightarrow> 's option" where
  "decode_members assign names [] s = Some s"
| "decode_members assign names ((k, raw) # ms) s =
     (case unquote k of
        None \<Rightarrow> None
      | Some key \<Rightarrow>
          (case find_field names key of
             None \<Rightarrow> decode_members assign names ms s
           | Some n \<Rightarrow> Option.bind (assign n raw s) (decode_members assign names ms)))"

definition decode_struct :: "(string \<Rightarrow> string \<Rightarrow> 's \<Rightarrow> 's option) \<Rightarrow> string list \<Rightarrow> string \<Rightarrow> 's \<Rightarrow> 's option" where
  "decode_struct assign names text s =
     (case json_parse text of
        Some (JObj ms) \<Rightarrow> decode_members assign names ms s
      | Some JNull \<Rightarrow> Some s
      | _ \<Rightarrow> None)"

definition read_string :: "string \<Rightarrow> string \<Rightarrow> string option" where
  "read_string text old =
     (case json_parse text of Some (JStr x) \<Rightarrow> unquote x | Some JNull \<Rightarrow> Some old | _ \<Rightarrow> None)"

definition read_int :: "int \<Rightarrow> int \<Rightarrow> string \<Rightarrow> int \<Rightarrow> int option" where
  "read_int lo hi text old =
     (case json_parse text of
        Some (JNum x) \<Rightarrow> (case ParseInt x of Some i \<Rightarrow> if lo \<le> i \<and> i \<le> hi then Some i else None | None \<Rightarrow> None)
      | Some JNull \<Rightarrow> Some old
      | _ \<Rightarrow> None)"


section \<open>What is written is read back\<close>

lemma skip_ws_simps [simp]:
  "skip_ws [] = []"
  "c \<notin> {CHR 0x20, CHR 0x09, CHR 0x0D, CHR 0x0A} \<Longrightarrow> skip_ws (c # s) = c # s"
  by (simp_all add: skip_ws_def)

text \<open>An encoded value that the scanner takes whole when a comma, a closing brace or nothing follows.\<close>

definition follows :: "string \<Rightarrow> bool" where
  "follows r \<longleftrightarrow> (r = [] \<or> hd r \<in> {CHR 0x2C, CHR 0x7D})"

definition scalar :: "string \<Rightarrow> json \<Rightarrow> bool" where
  "scalar raw v \<longleftrightarrow> raw \<noteq> [] \<and> hd raw \<notin> {CHR 0x20, CHR 0x09, CHR 0x0D, CHR 0x0A} \<and>
     (\<forall>f d r. follows r \<longrightarrow> scan_value (Suc f) d (raw @ r) = Some (v, r))"

lemma skip_ws_scalar: "scalar raw v \<Longrightarrow> skip_ws (raw @ r) = raw @ r"
  by (cases raw) (auto simp: scalar_def)

lemma scalar_json_string: "scalar (json_string s) (JStr (quoted s))"
  by (simp add: scalar_def json_string_def scan_string_quoted scan_value.simps)

lemma scalar_parse: "scalar raw v \<Longrightarrow> json_parse raw = Some v"
  using skip_ws_scalar [of raw v "[]"] by (auto simp: json_parse_def scalar_def follows_def)

lemma scan_members_step:
  assumes "scalar raw v" and "follows (e # r)"
  shows "scan_members (Suc (Suc f)) d (json_string k @ CHR 0x3A # raw @ e # r) =
    (if e = CHR 0x2C then map_option (\<lambda>(ms, r'). ((quoted k, raw) # ms, r')) (scan_members (Suc f) d (skip_ws r))
     else Some ([(quoted k, raw)], r))"
proof -
  have v: "scan_value (Suc f) d (raw @ e # r) = Some (v, e # r)" using assms by (simp add: scalar_def)
  have ws: "skip_ws (raw @ e # r) = raw @ e # r" by (rule skip_ws_scalar [OF assms(1)])
  have e: "skip_ws (e # r) = e # r" "e = CHR 0x2C \<or> e = CHR 0x7D" using assms(2) by (auto simp: follows_def)
  show ?thesis
    by (subst scan_members.simps(2))
      (use e(2) in \<open>auto simp: json_string_def scan_string_quoted ws v e(1)\<close>)
qed

lemma skip_ws_members: "ms \<noteq> [] \<Longrightarrow> skip_ws (json_members ms @ r) = json_members ms @ r"
  by (cases ms rule: json_members.cases) (simp_all add: json_string_def)

lemma scan_members_written:
  assumes "\<And>k raw. (k, raw) \<in> set ms \<Longrightarrow> \<exists>v. scalar raw v" and "ms \<noteq> []" and "length ms < f"
  shows "scan_members f d (json_members ms @ CHR 0x7D # r) = Some (map (\<lambda>(k, raw). (quoted k, raw)) ms, r)"
  using assms
proof (induction ms arbitrary: f rule: json_members.induct)
  case (2 k raw)
  then obtain v where v: "scalar raw v" by auto
  obtain g where "f = Suc (Suc g)" using "2.prems"(3) by (auto dest!: less_imp_Suc_add)
  then show ?case using scan_members_step [OF v, of "CHR 0x7D" r g d k] by (simp add: follows_def)
next
  case (3 k raw m ms)
  then obtain v where v: "scalar raw v" using "3.prems"(1) [of k raw] by auto
  obtain g where f: "f = Suc (Suc g)" using "3.prems"(3) by (auto dest!: less_imp_Suc_add)
  have "scan_members (Suc g) d (json_members (m # ms) @ CHR 0x7D # r) = Some (map (\<lambda>(k, raw). (quoted k, raw)) (m # ms), r)"
  proof (rule "3.IH")
    show "\<exists>v. scalar raw' v" if "(k', raw') \<in> set (m # ms)" for k' raw' using "3.prems"(1) [of k' raw'] that by simp
  qed (use "3.prems"(3) f in simp_all)
  then show ?case
    using scan_members_step [OF v, of "CHR 0x2C" "json_members (m # ms) @ CHR 0x7D # r" g d k]
      skip_ws_members [of "m # ms" "CHR 0x7D # r"]
    by (simp add: f follows_def)
qed simp

lemma length_json_members: "length ms \<le> length (json_members ms)"
  by (induction ms rule: json_members.induct) (simp_all add: json_string_def)

lemma json_parse_object:
  assumes "\<And>k raw. (k, raw) \<in> set ms \<Longrightarrow> \<exists>v. scalar raw v" and "ms \<noteq> []"
  shows "json_parse (json_object ms) = Some (JObj (map (\<lambda>(k, raw). (quoted k, raw)) ms))"
proof -
  let ?t = "json_members ms @ [CHR 0x7D]"
  define F where "F = 2 * length (json_object ms)"
  have "length ms < F" using length_json_members [of ms] by (simp add: F_def json_object_def)
  then have m: "scan_members F (Suc 0) ?t = Some (map (\<lambda>(k, raw). (quoted k, raw)) ms, [])"
    using scan_members_written [of ms F "Suc 0" "[]"] assms by simp
  obtain c cs where t: "?t = c # cs" "c \<noteq> CHR 0x7D"
    using assms(2) by (cases ms rule: json_members.cases) (auto simp: json_string_def)
  have "skip_ws ?t = c # cs" unfolding skip_ws_members [OF assms(2)] by (rule t(1))
  then have "scan_value (Suc F) 0 (CHR 0x7B # ?t) = Some (JObj (map (\<lambda>(k, raw). (quoted k, raw)) ms), [])"
    using m t(2) by (simp add: scan_value.simps(2) max_depth_def t(1))
  then show ?thesis unfolding json_parse_def F_def by (simp add: json_object_def)
qed

lemma read_string_written: "read_string (json_string s) old = Some (sanitized s)"
  by (simp add: read_string_def scalar_parse [OF scalar_json_string] unquote_quoted)

lemma digit_char_is_digit: "n < 10 \<Longrightarrow> is_digit (digit_char n)"
  by (simp add: is_digit_def)

lemma dec_nat_digits: "c \<in> set (dec_nat n) \<Longrightarrow> is_digit c"
proof (induction n rule: dec_nat.induct)
  case (1 n)
  then show ?case
    using dec_nat.simps [of n] digit_char_is_digit [of n] digit_char_is_digit [of "n mod 10"] by (auto split: if_splits)
qed

lemma digit_char_zero: "n < 10 \<Longrightarrow> digit_char n = CHR ''0'' \<Longrightarrow> n = 0"
  using digit_value_digit_char [of n] by (simp add: digit_value_def)

lemma dec_nat_zero: "hd (dec_nat n) = CHR ''0'' \<Longrightarrow> n = 0"
proof (induction n rule: dec_nat.induct)
  case (1 n)
  show ?case
  proof (cases "n < 10")
    case True
    then show ?thesis using "1.prems" digit_char_zero [of n] by (simp add: dec_nat.simps [of n])
  next
    case False
    then have "hd (dec_nat (n div 10)) = CHR ''0''" using "1.prems" by (simp add: dec_nat.simps [of n])
    then show ?thesis using "1.IH" False by simp
  qed
qed

lemma follows_not_digit: "follows r \<Longrightarrow> r \<noteq> [] \<Longrightarrow> \<not> is_digit (hd r)"
  by (auto simp: follows_def is_digit_def digit_value_def)

lemma scan_int_dec_nat:
  assumes "follows r"
  shows "scan_int (dec_nat n @ r) = Some (dec_nat n, r)"
proof -
  have drop: "takeWhile is_digit (dec_nat n @ r) = dec_nat n" "dropWhile is_digit (dec_nat n @ r) = r"
    using dec_nat_digits follows_not_digit [OF assms]
    by (auto simp: takeWhile_append2 dropWhile_append2 takeWhile_eq_Nil_iff dropWhile_eq_self_iff)
  obtain c cs where d: "dec_nat n = c # cs" by (cases "dec_nat n") auto
  show ?thesis
  proof (cases "c = CHR ''0''")
    case True
    then have "n = 0" using dec_nat_zero [of n] d by simp
    then have "cs = []" using d by (simp add: dec_nat.simps [of 0])
    then show ?thesis using True d by (simp add: scan_int_def)
  next
    case False
    then show ?thesis using drop d by (simp add: scan_int_def scan_digits_def)
  qed
qed

lemma scan_tail: "follows r \<Longrightarrow> scan_frac r = Some ([], r) \<and> scan_exp r = Some ([], r)"
  by (cases r) (auto simp: follows_def scan_frac_def scan_exp_def)

lemma scan_number_dec_int:
  assumes "follows r"
  shows "scan_number (dec_int i @ r) = Some (dec_int i, r)"
proof (cases "i < 0")
  case True
  then show ?thesis
    using scan_int_dec_nat [OF assms, of "nat (- i)"] scan_tail [OF assms] by (simp add: dec_int_def scan_number_def)
next
  case False
  obtain c cs where d: "dec_nat (nat i) = c # cs" by (cases "dec_nat (nat i)") auto
  then have "c \<noteq> CHR ''-''" using hd_dec_nat [of "nat i"] by simp
  then show ?thesis
    using scan_int_dec_nat [OF assms, of "nat i"] scan_tail [OF assms] False d by (simp add: dec_int_def scan_number_def)
qed

lemma dec_int_first: "\<exists>c cs. dec_int i = c # cs \<and> (c = CHR ''-'' \<or> is_digit c)"
proof (cases "i < 0")
  case False
  obtain c cs where "dec_nat (nat i) = c # cs" by (cases "dec_nat (nat i)") auto
  then show ?thesis using False dec_nat_digits [of c "nat i"] by (simp add: dec_int_def)
qed (simp add: dec_int_def)

lemma scalar_json_int: "scalar (json_int i) (JNum (dec_int i))"
proof -
  obtain c cs where c: "dec_int i = c # cs" "c = CHR ''-'' \<or> is_digit c" using dec_int_first by blast
  have first: "c \<noteq> CHR 0x22" "c \<noteq> CHR 0x7B" "c \<noteq> CHR 0x5B" "c \<noteq> CHR ''t''" "c \<noteq> CHR ''f''" "c \<noteq> CHR ''n''"
    "c \<notin> {CHR 0x20, CHR 0x09, CHR 0x0D, CHR 0x0A}"
    using c(2) by (auto simp: is_digit_def digit_value_def)
  have "scan_value (Suc f) d (c # cs @ r) = Some (JNum (c # cs), r)" if "follows r" for f d r
    using scan_number_dec_int [OF that, of i] unfolding scan_value.simps(2) c(1) by (simp add: first)
  then show ?thesis using c(1) first(7) by (simp add: scalar_def json_int_def)
qed

lemma read_int_written: "int64_range i \<Longrightarrow> lo \<le> i \<Longrightarrow> i \<le> hi \<Longrightarrow> read_int lo hi (json_int i) old = Some i"
  by (simp add: read_int_def scalar_parse [OF scalar_json_int] ParseInt_dec_int)

end
