(* ===== verification/TokenStore.thy ===== *)
theory TokenStore
  imports Json Cache Logon
begin

text \<open>
  The token store, \<open>internal/adapters/outbound/cache_token_store.go\<close>: single-use tokens between the login over
  HTTP and the \<open>Logon\<close> of the multiuser protocol.  It is a client of the cache contract and the provider of the
  \<open>validate\<close> parameter of the logon service.  The random bytes are an argument.
\<close>


section \<open>Records as JSON\<close>

definition marshal_token :: "token_payload \<Rightarrow> string" where
  "marshal_token p = json_object [(''character_name'', json_string (CharacterName p)),
     (''user_level'', json_int (tk_UserLevel p)), (''account_id'', json_int (AccountID p))]"

definition token_fields :: "string list" where
  "token_fields = [''character_name'', ''user_level'', ''account_id'']"

definition read_go_int :: "string \<Rightarrow> int \<Rightarrow> int option" where
  "read_go_int = read_int (- (2 ^ 63)) (2 ^ 63 - 1)"

definition assign_token :: "string \<Rightarrow> string \<Rightarrow> token_payload \<Rightarrow> token_payload option" where
  "assign_token name raw p =
     (if name = ''character_name'' then map_option (\<lambda>x. p\<lparr>CharacterName := x\<rparr>) (read_string raw (CharacterName p))
      else if name = ''user_level'' then map_option (\<lambda>i. p\<lparr>tk_UserLevel := i\<rparr>) (read_go_int raw (tk_UserLevel p))
      else map_option (\<lambda>i. p\<lparr>AccountID := i\<rparr>) (read_go_int raw (AccountID p)))"

definition unmarshal_token :: "string \<Rightarrow> token_payload option" where
  "unmarshal_token text =
     decode_struct assign_token token_fields text \<lparr>CharacterName = [], tk_UserLevel = 0, AccountID = 0\<rparr>"


section \<open>Operations\<close>

definition DefaultTokenTTL :: int where
  "DefaultTokenTTL = 5 * 60 * 1000000000"

definition NewCacheTokenStore :: "int \<Rightarrow> int" where
  "NewCacheTokenStore ttl = (if ttl \<le> 0 then DefaultTokenTTL else ttl)"

definition token_key :: "string \<Rightarrow> string" where
  "token_key token = ''authtoken:'' @ token"

text \<open>\<open>random\<close> is what \<open>rand.Read\<close> delivers, \<^const>\<open>None\<close> for an error.\<close>

definition Issue :: "'c cache_port \<Rightarrow> int \<Rightarrow> int \<Rightarrow> bytes option \<Rightarrow> token_payload \<Rightarrow> 'c \<Rightarrow> string go \<times> 'c" where
  "Issue port ttl now random payload c =
     (case random of
        None \<Rightarrow> (Err ErrOther, c)
      | Some buf \<Rightarrow>
          (let token = hex_bytes buf
           in case port_Set port now (token_key token) (bts (marshal_token payload)) ttl c of
                (Panic, c') \<Rightarrow> (Panic, c')
              | (Err e, c') \<Rightarrow> (Err e, c')
              | (Ok _, c') \<Rightarrow> (Ok token, c')))"

text \<open>\<open>Validate\<close> looks the token up and then deletes it: two operations of the cache.\<close>

definition validate_get :: "'c cache_port \<Rightarrow> int \<Rightarrow> string \<Rightarrow> 'c \<Rightarrow> bytes go \<times> 'c" where
  "validate_get port now token c =
     (if token = [] then (Err ErrTokenInvalid, c)
      else case port_Get port now (token_key token) c of
        (Panic, c') \<Rightarrow> (Panic, c')
      | (Ok (Some data), c') \<Rightarrow> (Ok data, c')
      | (_, c') \<Rightarrow> (Err ErrTokenInvalid, c'))"

definition validate_delete :: "'c cache_port \<Rightarrow> string \<Rightarrow> bytes \<Rightarrow> 'c \<Rightarrow> token_payload go \<times> 'c" where
  "validate_delete port token data c =
     (case port_Delete port (token_key token) c of
        (Panic, c') \<Rightarrow> (Panic, c')
      | (_, c') \<Rightarrow>
          (case unmarshal_token (str data) of
             None \<Rightarrow> (Err ErrTokenInvalid, c')
           | Some p \<Rightarrow> (Ok p, c')))"

definition Validate :: "'c cache_port \<Rightarrow> int \<Rightarrow> string \<Rightarrow> 'c \<Rightarrow> token_payload go \<times> 'c" where
  "Validate port now token c =
     (case validate_get port now token c of
        (Panic, c') \<Rightarrow> (Panic, c')
      | (Err e, c') \<Rightarrow> (Err e, c')
      | (Ok data, c') \<Rightarrow> validate_delete port token data c')"


section \<open>Records are read back\<close>

lemma fields_ascii:
  "sanitized ''character_name'' = ''character_name''" "sanitized ''user_level'' = ''user_level''"
  "sanitized ''account_id'' = ''account_id''"
  by (rule sanitized_valid, rule valid_utf8_ascii, fastforce)+

lemma unmarshal_marshal:
  assumes "valid_utf8 (CharacterName p)" and "int64_range (tk_UserLevel p)" and "int64_range (AccountID p)"
  shows "unmarshal_token (marshal_token p) = Some p"
proof -
  have parse: "json_parse (marshal_token p) = Some (JObj [(quoted ''character_name'', json_string (CharacterName p)),
      (quoted ''user_level'', json_int (tk_UserLevel p)), (quoted ''account_id'', json_int (AccountID p))])"
    unfolding marshal_token_def
    by (subst json_parse_object) (use scalar_json_string scalar_json_int in auto)
  have "read_go_int (json_int (tk_UserLevel p)) i = Some (tk_UserLevel p)"
    "read_go_int (json_int (AccountID p)) i = Some (AccountID p)" for i
    using assms(2,3) read_int_written by (simp_all add: read_go_int_def int64_range_def)
  then show ?thesis
    using assms(1)
    by (simp add: unmarshal_token_def decode_struct_def parse unquote_quoted fields_ascii find_field_def token_fields_def
        assign_token_def read_string_written sanitized_valid)
qed

lemma token_key_eq [simp]: "token_key a = token_key b \<longleftrightarrow> a = b"
  by (simp add: token_key_def)

definition good_payload :: "token_payload \<Rightarrow> bool" where
  "good_payload p \<longleftrightarrow> valid_utf8 (CharacterName p) \<and> int64_range (tk_UserLevel p) \<and> int64_range (AccountID p)"

context cache_contract
begin

lemma Issue_Ok:
  assumes "usable c"
  shows "\<exists>c'. Issue port ttl now (Some buf) p c = (Ok (hex_bytes buf), c') \<and> usable c' \<and>
    (\<forall>t k. now \<le> t \<longrightarrow> view c' t k = (if k = token_key (hex_bytes buf)
       then (if ttl \<le> 0 \<or> t \<le> now + ttl then Some (bts (marshal_token p)) else None) else view c t k))"
proof -
  obtain c' where "port_Set port now (token_key (hex_bytes buf)) (bts (marshal_token p)) ttl c = (Ok (), c')" "usable c'"
    using set_Ok [OF assms] by blast
  then show ?thesis using set_view [OF assms] by (simp add: Issue_def)
qed

lemma Validate_cases:
  assumes "usable c" and "token \<noteq> []"
  shows "\<exists>c'. usable c' \<and> (\<forall>t k. view c' t k = (if k = token_key token \<and> view c now k \<noteq> None then None else view c t k)) \<and>
    Validate port now token c =
      (case Option.bind (view c now (token_key token)) (\<lambda>data. unmarshal_token (str data)) of
         None \<Rightarrow> Err ErrTokenInvalid | Some p \<Rightarrow> Ok p, c')"
proof (cases "view c now (token_key token)")
  case None
  then show ?thesis using assms by (auto simp: Validate_def validate_get_def get_view)
next
  case (Some data)
  obtain c' where c': "port_Delete port (token_key token) c = (Ok (), c')" "usable c'" using delete_Ok [OF assms(1)] by blast
  have "Validate port now token c = (case unmarshal_token (str data) of None \<Rightarrow> Err ErrTokenInvalid | Some p \<Rightarrow> Ok p, c')"
    using Some assms c'(1) by (simp add: Validate_def validate_get_def validate_delete_def get_view split: option.split)
  then show ?thesis using c' Some delete_view [OF assms(1) c'(1)] by auto
qed

lemma hex_bytes_not_Nil: "buf \<noteq> [] \<Longrightarrow> hex_bytes buf \<noteq> []"
  by (cases buf) (simp_all add: hex_bytes_def hex_byte_def)

end



section \<open>A token is good for one use\<close>

lemma mc_Validate:
  assumes "mc_usable c" and "token \<noteq> []"
  shows "\<exists>c'. mc_usable c' \<and> (mc_Get now (token_key token) c \<noteq> None \<longrightarrow> (\<forall>t. mc_Get t (token_key token) c' = None)) \<and>
    Validate memory_port now token c =
      (case Option.bind (mc_Get now (token_key token) c) (\<lambda>data. unmarshal_token (str data)) of
         None \<Rightarrow> Err ErrTokenInvalid | Some p \<Rightarrow> Ok p, c')"
  using mc.Validate_cases [OF assms, of now] by (auto simp: mc_view_def)

lemma Validate_missing:
  assumes "mc_usable c" and "mc_Get now (token_key token) c = None"
  shows "fst (Validate memory_port now token c) = Err ErrTokenInvalid"
proof (cases "token = []")
  case True
  then show ?thesis by (simp add: Validate_def validate_get_def)
next
  case False
  then show ?thesis using mc_Validate [OF assms(1) False, of now] assms(2) by auto
qed

lemma Validate_present:
  assumes "mc_usable c" and "token \<noteq> []" and "mc_Get now (token_key token) c = Some (bts (marshal_token p))" and "good_payload p"
  shows "\<exists>c'. Validate memory_port now token c = (Ok p, c') \<and> mc_usable c' \<and> (\<forall>t. mc_Get t (token_key token) c' = None)"
  using mc_Validate [OF assms(1,2), of now] assms(3,4) unmarshal_marshal [of p] by (auto simp: good_payload_def)


text \<open>The look-up and the deletion are two operations: when two validations of the same token interleave, both
  are accepted.\<close>

theorem token_race:
  assumes "mc_usable c" and "good_payload p" and "token \<noteq> []" and "mc_Get t1 (token_key token) c = Some (bts (marshal_token p))"
    and "mc_Get t2 (token_key token) c = Some (bts (marshal_token p))"
  shows "\<exists>d1 d2 c1 c2. validate_get memory_port t1 token c = (Ok d1, c) \<and> validate_get memory_port t2 token c = (Ok d2, c) \<and>
    validate_delete memory_port token d1 c = (Ok p, c1) \<and> validate_delete memory_port token d2 c1 = (Ok p, c2)"
  using assms unmarshal_marshal [of p] by (simp add: validate_get_def validate_delete_def memory_port_def good_payload_def)


section \<open>Logon by token\<close>

text \<open>The token store as the collaborator of the logon service.  The clock of the cache is read at \<open>t\<close>.\<close>

definition token_validator :: "'c cache_port \<Rightarrow> int \<Rightarrow> string \<Rightarrow> 'c \<Rightarrow> (error + token_payload) \<times> 'c" where
  "token_validator port t token c =
     (case Validate port t token c of
        (Ok p, c') \<Rightarrow> (Inr p, c') | (Err e, c') \<Rightarrow> (Inl e, c') | (Panic, c') \<Rightarrow> (Inl ErrOther, c'))"

lemma Logon_token:
  assumes "mode s = ''token''" and "validate s = Some (token_validator memory_port t)" and "Credentials req = Some cr"
  shows "Logon s now req st =
    (case token_validator memory_port t (cr_Password cr) (tokens st) of
       (Inl _, tk) \<Rightarrow> (failed LogonInvalidPassword (cr_UserID cr), st\<lparr>tokens := tk\<rparr>)
     | (Inr p, tk) \<Rightarrow> establishSession s now (ConnectionID req) (CharacterName p) (cr_MovieID cr) (tk_UserLevel p) (st\<lparr>tokens := tk\<rparr>))"
  using assms by (simp add: Logon_def authenticate_def split: prod.split sum.split)

text \<open>C31.  In token mode a token logs its bearer on once.  The session belongs to the character of the token
  and has the level of the token, whatever user name the client sends; and after that, accepted or refused,
  every logon with the same token fails with an invalid password and leaves the sessions and connections as
  they are.\<close>

theorem token_logs_on_once:
  assumes "mc_usable (tokens st)" and "good_payload p" and "mc_Get t (token_key token) (tokens st) = Some (bts (marshal_token p))"
    and s: "mode s = ''token''" "validate s = Some (token_validator memory_port t)"
    and req: "Credentials req = Some cr" "cr_Password cr = token" "token \<noteq> []"
    and logon: "Logon s now req st = (r, st1)"
    and s': "mode s' = ''token''" "validate s' = Some (token_validator memory_port t')"
    and req': "Credentials req' = Some cr'" "cr_Password cr' = token"
    and later: "tokens st2 = tokens st1" "Logon s' now' req' st2 = (r', st3)"
  shows "(Code r = LogonOK \<longrightarrow> rs_UserID r = CharacterName p \<and> rs_UserLevel r = tk_UserLevel p) \<and>
    Code r' = LogonInvalidPassword \<and> sessions st3 = sessions st2 \<and> pool st3 = pool st2"
proof -
  obtain c where v: "Validate memory_port t token (tokens st) = (Ok p, c)" "mc_usable c" "\<And>u. mc_Get u (token_key token) c = None"
    using Validate_present [OF assms(1) req(3) assms(3,2)] by blast
  have r: "establishSession s now (ConnectionID req) (CharacterName p) (cr_MovieID cr) (tk_UserLevel p) (st\<lparr>tokens := c\<rparr>) = (r, st1)"
    using logon v(1) req(2) by (simp add: Logon_token [OF s req(1)] token_validator_def)
  have tk: "tokens st1 = c" using r by (auto simp: establishSession_def Let_def split: if_splits prod.splits)
  obtain c' where "Validate memory_port t' token c = (Err ErrTokenInvalid, c')"
    using Validate_missing [OF v(2) v(3)] by (metis prod.collapse)
  then have "r' = failed LogonInvalidPassword (cr_UserID cr')" "st3 = st2\<lparr>tokens := c'\<rparr>"
    using later(2) req'(2) by (simp_all add: Logon_token [OF s' req'(1)] token_validator_def later(1) tk)
  moreover have "Code r = LogonOK \<longrightarrow> rs_UserID r = CharacterName p \<and> rs_UserLevel r = tk_UserLevel p"
    using r by (auto simp: establishSession_def Let_def split: if_splits prod.splits)
  ultimately show ?thesis by simp
qed



section \<open>Examples\<close>

definition ann_payload :: token_payload where
  "ann_payload = \<lparr>CharacterName = ''ann'', tk_UserLevel = 40, AccountID = 7\<rparr>"

lemma ann_payload_good: "good_payload ann_payload"
proof -
  have "valid_utf8 ''ann''" by (rule valid_utf8_ascii) fastforce
  then show ?thesis by (simp add: good_payload_def ann_payload_def int64_range_def)
qed

lemma mc_usable_new: "mc_usable NewMemoryCache"
  by (simp add: mc_usable_def cache_ok_def NewMemoryCache_def)

text \<open>The cache after a token was issued at time 0 with a time to live of 100, and after it was used at 60.\<close>

definition issued :: memory_cache where
  "issued = snd (Issue memory_port 100 0 (Some [0xAB]) ann_payload NewMemoryCache)"

definition used :: memory_cache where
  "used = snd (Validate memory_port 60 ''ab'' issued)"

lemma hex_ab: "hex_bytes [0xAB] = ''ab''"
  by code_simp

lemma issued_usable: "mc_usable issued"
  using mc.Issue_Ok [OF mc_usable_new, of 100 0 "[0xAB]" ann_payload] by (auto simp: issued_def)

lemma issued_get: "0 \<le> t \<Longrightarrow> t \<le> 100 \<Longrightarrow> mc_Get t (token_key ''ab'') issued = Some (bts (marshal_token ann_payload))"
  using mc.Issue_Ok [OF mc_usable_new, of 100 0 "[0xAB]" ann_payload] by (auto simp: issued_def mc_view_def hex_ab)

lemma used_usable: "mc_usable used"
  using mc_Validate [OF issued_usable, of "''ab''" 60] by (auto simp: used_def)


theorem token_race_witness:
  "\<exists>d1 d2 c1 c2. validate_get memory_port 60 ''ab'' issued = (Ok d1, issued) \<and> validate_get memory_port 61 ''ab'' issued = (Ok d2, issued) \<and>
    validate_delete memory_port ''ab'' d1 issued = (Ok ann_payload, c1) \<and> validate_delete memory_port ''ab'' d2 c1 = (Ok ann_payload, c2)"
  by (rule token_race [OF issued_usable ann_payload_good]) (simp_all add: issued_get)

definition token_service :: "int \<Rightarrow> memory_cache logon_service" where
  "token_service t = \<lparr>db_GetUser = \<lambda>_. Inl ErrUserNotFound, db_GetActiveBan = \<lambda>_. Inr None, bcrypt_matches = \<lambda>_ _. False,
     validate = Some (token_validator memory_port t), has_writer = True, mode = ''token'', defaultLevel = 20\<rparr>"

definition bearer_credentials :: logon_credentials where
  "bearer_credentials = \<lparr>cr_MovieID = ''farm'', cr_UserID = ''eve'', cr_Password = ''ab''\<rparr>"

definition bearer :: logon_request where
  "bearer = \<lparr>ConnectionID = ''10.0.0.1:5000'', rq_SenderID = [], Credentials = Some bearer_credentials\<rparr>"

definition before_logon :: "memory_cache logon_state" where
  "before_logon = \<lparr>sessions = RegisterConnection ''10.0.0.1:5000'' ''10.0.0.1:5000'' 0 NewMemorySessionStore,
     pool = Register 7 ''10.0.0.1:5000'' NewConnPool, tokens = issued\<rparr>"

lemma bearer_logs_on: "Code (fst (Logon (token_service 60) 0 bearer before_logon)) = LogonOK"
proof -
  obtain c where v: "Validate memory_port 60 ''ab'' issued = (Ok ann_payload, c)"
    using Validate_present [OF issued_usable _ issued_get ann_payload_good, of 60] by auto
  have "Code (fst (establishSession (token_service 60) 0 ''10.0.0.1:5000'' ''ann'' ''farm'' 40 (before_logon\<lparr>tokens := c\<rparr>))) = LogonOK"
    by (simp add: establishSession_def token_service_def before_logon_def RegisterConnection_def NewMemorySessionStore_def
        GetConnection_def Register_def NewConnPool_def RemapClientID_def Let_def)
  moreover have "Credentials bearer = Some bearer_credentials" by (simp add: bearer_def)
  moreover have "tokens before_logon = issued" by (simp add: before_logon_def)
  ultimately show ?thesis
    using v by (subst Logon_token [of _ 60 _ bearer_credentials])
      (simp_all add: token_service_def token_validator_def bearer_credentials_def ann_payload_def bearer_def)
qed

theorem token_logs_on_once_witness:
  "let (r, st) = Logon (token_service 60) 0 bearer before_logon
   in Code r = LogonOK \<and> rs_UserID r = ''ann'' \<and> rs_UserLevel r = 40 \<and>
      Code (fst (Logon (token_service 61) 1 bearer st)) = LogonInvalidPassword"
proof -
  obtain r st where l: "Logon (token_service 60) 0 bearer before_logon = (r, st)" by (cases "Logon (token_service 60) 0 bearer before_logon")
  obtain r' st' where l': "Logon (token_service 61) 1 bearer st = (r', st')" by (cases "Logon (token_service 61) 1 bearer st")
  have "(Code r = LogonOK \<longrightarrow> rs_UserID r = CharacterName ann_payload \<and> rs_UserLevel r = tk_UserLevel ann_payload) \<and>
      Code r' = LogonInvalidPassword \<and> sessions st' = sessions st \<and> pool st' = pool st"
    by (rule token_logs_on_once [where cr = bearer_credentials and cr' = bearer_credentials and token = "''ab''" and t = 60 and t' = 61,
          OF _ ann_payload_good _ _ _ _ _ _ l _ _ _ _ refl l'])
      (simp_all add: before_logon_def issued_usable issued_get token_service_def bearer_def bearer_credentials_def)
  then show ?thesis using l l' bearer_logs_on by (simp add: ann_payload_def)
qed

end
