(* ===== verification/Paths.thy ===== *)
theory Paths
  imports Prelude "HOL-Library.Sublist"
begin

text \<open>
  File paths as Go's \<open>path/filepath\<close> treats them on Unix: \<open>Clean\<close>, \<open>Join\<close>, \<open>Abs\<close> and \<open>IsAbs\<close>, which are purely
  lexical.  A cleaned absolute path is determined by its list of names.
\<close>


section \<open>Names of a path\<close>

abbreviation slash :: char where
  "slash \<equiv> CHR ''/''"

fun split_slash :: "string \<Rightarrow> string list" where
  "split_slash [] = [[]]"
| "split_slash (c # cs) =
     (if c = slash then [] # split_slash cs
      else (case split_slash cs of [] \<Rightarrow> [[c]] | x # xs \<Rightarrow> (c # x) # xs))"

fun join_slash :: "string list \<Rightarrow> string" where
  "join_slash [] = []"
| "join_slash [x] = x"
| "join_slash (x # xs) = x @ slash # join_slash xs"

lemma split_slash_not_Nil [simp]: "split_slash s \<noteq> []"
  by (cases s) (simp_all split: list.split)

lemma split_slash_append: "split_slash (a @ slash # b) = split_slash a @ split_slash b"
  by (induction a) (simp_all split: list.split)

lemma split_slash_name: "slash \<notin> set x \<Longrightarrow> split_slash x = [x]"
  by (induction x) auto

lemma split_join: "xs \<noteq> [] \<Longrightarrow> (\<And>x. x \<in> set xs \<Longrightarrow> slash \<notin> set x) \<Longrightarrow> split_slash (join_slash xs) = xs"
  by (induction xs rule: join_slash.induct) (simp_all add: split_slash_append split_slash_name)

lemma split_slash_no_slash: "x \<in> set (split_slash s) \<Longrightarrow> slash \<notin> set x"
proof (induction s arbitrary: x)
  case (Cons c s)
  then show ?case
    by (cases "split_slash s") (auto split: if_splits)
qed simp

lemma join_slash_append: "xs \<noteq> [] \<Longrightarrow> ys \<noteq> [] \<Longrightarrow> join_slash (xs @ ys) = join_slash xs @ slash # join_slash ys"
proof (induction xs rule: join_slash.induct)
  case (2 x)
  then show ?case by (cases ys) simp_all
qed simp_all


section \<open>Clean, Join and Abs\<close>

text \<open>One name against the names so far, last first: empty names and dots disappear, and two dots take back the
  name before them, unless there is none to take back.\<close>

definition clean_name :: "bool \<Rightarrow> string list \<Rightarrow> string \<Rightarrow> string list" where
  "clean_name rooted acc x =
     (if x = [] \<or> x = ''.'' then acc
      else if x = ''..'' then
        (case acc of
           [] \<Rightarrow> if rooted then [] else [x]
         | a # as \<Rightarrow> if a = ''..'' then x # acc else as)
      else x # acc)"

definition clean_names :: "bool \<Rightarrow> string list \<Rightarrow> string list" where
  "clean_names rooted xs = rev (foldl (clean_name rooted) [] xs)"

definition IsAbs :: "string \<Rightarrow> bool" where
  "IsAbs path \<longleftrightarrow> prefix [slash] path"

definition Clean :: "string \<Rightarrow> string" where
  "Clean path =
     (if IsAbs path then slash # join_slash (clean_names True (split_slash path))
      else (case clean_names False (split_slash path) of [] \<Rightarrow> ''.'' | xs \<Rightarrow> join_slash xs))"

definition path_Join :: "string \<Rightarrow> string \<Rightarrow> string" where
  "path_Join a b = (if a \<noteq> [] then Clean (a @ slash # b) else if b \<noteq> [] then Clean b else [])"

text \<open>\<open>wd\<close> is the working directory, \<^const>\<open>None\<close> when the system cannot tell.\<close>

definition Abs :: "string option \<Rightarrow> string \<Rightarrow> string option" where
  "Abs wd path = (if IsAbs path then Some (Clean path) else map_option (\<lambda>d. path_Join d path) wd)"


section \<open>Cleaned absolute paths\<close>

definition plain :: "string list \<Rightarrow> bool" where
  "plain xs \<longleftrightarrow> (\<forall>x \<in> set xs. x \<notin> {[], ''.'', ''..''} \<and> slash \<notin> set x)"

definition names :: "string \<Rightarrow> string list" where
  "names path = clean_names True (split_slash path)"

lemma Clean_abs: "IsAbs path \<Longrightarrow> Clean path = slash # join_slash (names path)"
  unfolding Clean_def names_def by (rule if_P)

lemma clean_name_plain:
  "plain acc \<Longrightarrow> slash \<notin> set x \<Longrightarrow> plain (clean_name True acc x)"
  by (cases acc) (simp_all add: plain_def clean_name_def)

lemma foldl_clean_plain:
  "plain acc \<Longrightarrow> (\<And>x. x \<in> set xs \<Longrightarrow> slash \<notin> set x) \<Longrightarrow> plain (foldl (clean_name True) acc xs)"
  by (induction xs arbitrary: acc) (simp_all add: clean_name_plain)

lemma plain_names: "plain (names path)"
  using foldl_clean_plain [of "[]" "split_slash path"] split_slash_no_slash
  by (auto simp: names_def clean_names_def plain_def)

lemma clean_plain: "plain xs \<Longrightarrow> foldl (clean_name r) acc xs = rev xs @ acc"
  by (induction xs arbitrary: acc) (auto simp: plain_def clean_name_def)

lemma clean_names_plain: "plain xs \<Longrightarrow> clean_names r xs = xs"
  by (simp add: clean_names_def clean_plain)

lemma clean_names_append:
  "plain ys \<Longrightarrow> clean_names r (xs @ ys) = clean_names r xs @ ys"
  by (simp add: clean_names_def clean_plain)

lemma names_root: "plain xs \<Longrightarrow> names (slash # join_slash xs) = xs"
proof (cases "xs = []")
  case True
  then show ?thesis by (simp add: names_def clean_names_def clean_name_def)
next
  case False
  moreover assume "plain xs"
  ultimately have "split_slash (join_slash xs) = xs" by (intro split_join) (auto simp: plain_def)
  then show ?thesis
    using clean_names_plain [OF \<open>plain xs\<close>, of True] by (simp add: names_def clean_names_def clean_name_def)
qed

lemma names_Clean: "IsAbs path \<Longrightarrow> names (Clean path) = names path"
  by (simp add: Clean_abs names_root plain_names)

lemma IsAbs_Clean: "IsAbs path \<Longrightarrow> IsAbs (Clean path)"
  by (simp add: Clean_abs IsAbs_def)

lemma Clean_Clean: "IsAbs path \<Longrightarrow> Clean (Clean path) = Clean path"
  using Clean_abs [OF IsAbs_Clean, of path] Clean_abs [of path] names_Clean [of path] by metis

lemma Join_abs: "IsAbs a \<Longrightarrow> IsAbs (path_Join a b) \<and> path_Join a b = Clean (a @ slash # b)"
  using IsAbs_Clean [of "a @ slash # b"] by (auto simp: path_Join_def IsAbs_def prefix_def)

text \<open>A prefix of the text that ends at a slash is a prefix of the names.\<close>

lemma names_prefix:
  assumes "plain ps" and "plain cs" and "prefix (slash # join_slash ps @ [slash]) (slash # join_slash cs)"
  shows "\<exists>xs. cs = ps @ xs \<and> xs \<noteq> [] \<and> ps \<noteq> []"
proof -
  obtain r where r: "join_slash cs = join_slash ps @ slash # r" using assms(3) by (auto simp: prefix_def)
  then have "cs \<noteq> []" by auto
  then have "cs = split_slash (join_slash ps @ slash # r)" using split_join [of cs] assms(2) r by (auto simp: plain_def)
  then have cs: "cs = split_slash (join_slash ps) @ split_slash r" by (simp add: split_slash_append)
  show ?thesis
  proof (cases "ps = []")
    case True
    then have "[] \<in> set cs" using cs by simp
    then show ?thesis using assms(2) by (auto simp: plain_def)
  next
    case False
    then have "split_slash (join_slash ps) = ps" using split_join [of ps] assms(1) by (auto simp: plain_def)
    then show ?thesis using cs False by auto
  qed
qed

lemma prefix_names:
  assumes "ps \<noteq> []" and "xs \<noteq> []"
  shows "prefix (slash # join_slash ps @ [slash]) (slash # join_slash (ps @ xs))"
  using join_slash_append [OF assms] by (simp add: prefix_def)

end
