(* ===== verification/Scripts.thy ===== *)
theory Scripts
  imports Paths Dispatcher
begin

text \<open>
  Which files scripts come from: the path handling of \<open>internal/adapters/outbound/lua_script_engine.go\<close> and
  \<open>lua_sandboxed_loader.go\<close>.  The file system is a parameter: the working directory, which paths exist, and what
  symbolic links resolve to.  The Lua interpreter is a parameter too: what running a file does.
\<close>


section \<open>Resolution of subjects\<close>

record filesystem =
  workdir :: "string option"
  Stat :: "string \<Rightarrow> bool"
  EvalSymlinks :: "string \<Rightarrow> string option"

definition containsDotDot :: "string \<Rightarrow> bool" where
  "containsDotDot path \<longleftrightarrow> sublist ''..'' path"

definition isSubpath :: "string \<Rightarrow> string \<Rightarrow> bool" where
  "isSubpath parent child \<longleftrightarrow> prefix (Clean parent @ [slash]) (Clean child)"

text \<open>The containment check that \<open>resolveScriptPath\<close>, \<open>require\<close> and \<open>dofile\<close> share.\<close>

definition contained :: "filesystem \<Rightarrow> string \<Rightarrow> string \<Rightarrow> bool" where
  "contained fs dir path =
     (case Abs (workdir fs) path of
        None \<Rightarrow> False
      | Some absPath \<Rightarrow> isSubpath (case Abs (workdir fs) dir of Some d \<Rightarrow> d | None \<Rightarrow> []) absPath)"

definition resolveScriptPath :: "filesystem \<Rightarrow> string \<Rightarrow> string \<Rightarrow> string option" where
  "resolveScriptPath fs dir subject =
     (if subject = [] \<or> IsAbs subject \<or> containsDotDot subject then None
      else (let path = path_Join dir (subject @ ''.lua'') in if contained fs dir path then Some path else None))"

text \<open>\<open>strings.LastIndex(s, "-")\<close>, \<^const>\<open>None\<close> for -1.\<close>

definition dashes :: "string \<Rightarrow> nat list" where
  "dashes s = filter (\<lambda>i. s ! i = CHR ''-'') [0..<length s]"

definition last_dash :: "string \<Rightarrow> nat option" where
  "last_dash s = (if dashes s = [] then None else Some (last (dashes s)))"

lemma last_dash_less: "last_dash s = Some i \<Longrightarrow> i < length s"
  using last_in_set [of "dashes s"] by (auto simp: last_dash_def dashes_def split: if_splits)

function resolveScript :: "filesystem \<Rightarrow> string \<Rightarrow> string \<Rightarrow> string option" where
  "resolveScript fs dir candidate =
     (let rest = (case last_dash candidate of
                    None \<Rightarrow> None
                  | Some i \<Rightarrow> if i = 0 then None else resolveScript fs dir (take i candidate))
      in case resolveScriptPath fs dir candidate of
           Some path \<Rightarrow> if Stat fs path then Some path else rest
         | None \<Rightarrow> rest)"
  by pat_completeness auto
termination
  by (relation "measure (\<lambda>(_, _, s). length s)") (auto dest: last_dash_less)

declare resolveScript.simps [simp del]


section \<open>Modules, files and sandboxed chunks\<close>

text \<open>The path that \<open>require\<close> loads, and the one that \<open>dofile\<close> runs; \<^const>\<open>None\<close> is a Lua error.\<close>

definition require_path :: "filesystem \<Rightarrow> string \<Rightarrow> string \<Rightarrow> string option" where
  "require_path fs dir modName =
     (if IsAbs modName \<or> containsDotDot modName then None
      else (let path = path_Join dir (modName @ ''.lua'')
            in if contained fs dir path \<and> Stat fs path then Some path else None))"

definition dofile_path :: "filesystem \<Rightarrow> string \<Rightarrow> string \<Rightarrow> string option" where
  "dofile_path fs dir name =
     (if IsAbs name \<or> containsDotDot name then None
      else (let path = path_Join dir name in if contained fs dir path then Some path else None))"

definition resolveRealPath :: "filesystem \<Rightarrow> string \<Rightarrow> string option" where
  "resolveRealPath fs path = Option.bind (EvalSymlinks fs path) (Abs (workdir fs))"

definition sandboxedChunkID :: "string \<Rightarrow> bool" where
  "sandboxedChunkID x \<longleftrightarrow> x \<noteq> [] \<and>
     (\<forall>c \<in> set x. (let n = of_char c :: nat in 65 \<le> n \<and> n \<le> 90 \<or> 97 \<le> n \<and> n \<le> 122 \<or> 48 \<le> n \<and> n \<le> 57) \<or>
        c = CHR ''_'' \<or> c = CHR ''-'')"

definition chunk_path :: "filesystem \<Rightarrow> string \<Rightarrow> string \<Rightarrow> string \<Rightarrow> string option" where
  "chunk_path fs scriptsDir chunkDir chunk =
     (if \<not> sandboxedChunkID chunk then None
      else case (resolveRealPath fs scriptsDir, resolveRealPath fs (path_Join scriptsDir chunkDir)) of
        (Some realScriptsDir, Some realChunkDir) \<Rightarrow>
          if \<not> isSubpath realScriptsDir realChunkDir then None
          else (case resolveRealPath fs (path_Join realChunkDir (chunk @ ''.lua'')) of
             None \<Rightarrow> None
           | Some realChunk \<Rightarrow> if isSubpath realChunkDir realChunk then Some realChunk else None)
      | _ \<Rightarrow> None)"


section \<open>The script engine\<close>

text \<open>\<open>run\<close> executes a file: its result is what the script passed to \<open>mus.response\<close>, if it did.\<close>

type_synonym ('tk, 'd) runner =
  "string \<Rightarrow> string \<Rightarrow> string \<Rightarrow> lvalue option \<Rightarrow> ('tk, 'd) sys_state \<Rightarrow> lvalue option go \<times> ('tk, 'd) sys_state"

definition script_result :: "lvalue option go \<Rightarrow> lvalue option go" where
  "script_result r = (case r of Ok None \<Rightarrow> Ok (Some LVoid) | _ \<Rightarrow> r)"

definition engine_Execute :: "filesystem \<Rightarrow> string \<Rightarrow> ('tk, 'd) runner \<Rightarrow> string \<Rightarrow> string \<Rightarrow> lvalue option \<Rightarrow>
    ('tk, 'd) sys_state \<Rightarrow> lvalue option go \<times> ('tk, 'd) sys_state" where
  "engine_Execute fs dir run subject sender content st =
     (case resolveScript fs dir subject of
        None \<Rightarrow> (Err ErrOther, st)
      | Some path \<Rightarrow>
          (case run path subject sender content st of (r, st') \<Rightarrow> (script_result r, st')))"

definition lua_engine :: "filesystem \<Rightarrow> string \<Rightarrow> ('tk, 'd) runner \<Rightarrow> ('tk, 'd) script_engine" where
  "lua_engine fs dir run =
     \<lparr>HasScript = \<lambda>subject. resolveScript fs dir subject \<noteq> None, Execute = engine_Execute fs dir run\<rparr>"


section \<open>Resolution finds the longest prefix\<close>

text \<open>The subject and its prefixes before a dash, longest first; a dash at the start does not count.\<close>

definition candidates :: "string \<Rightarrow> string list" where
  "candidates s = s # map (\<lambda>i. take i s) (rev (filter (\<lambda>i. 0 < i) (dashes s)))"

definition script_exists :: "filesystem \<Rightarrow> string \<Rightarrow> string \<Rightarrow> bool" where
  "script_exists fs dir c = (case resolveScriptPath fs dir c of None \<Rightarrow> False | Some path \<Rightarrow> Stat fs path)"

lemma dashes_split:
  assumes "dashes s \<noteq> []" and i: "i = last (dashes s)"
  shows "dashes s = dashes (take i s) @ [i]" and "i < length s"
proof -
  let ?P = "\<lambda>j. s ! j = CHR ''-''"
  show n: "i < length s" using last_dash_less [of s i] assms by (simp add: last_dash_def)
  have P: "?P i" using last_in_set [OF assms(1)] i by (simp add: dashes_def)
  have "[0..<i + (length s - i)] = [0..<i] @ [i..<i + (length s - i)]" by (rule upt_add_eq_append) simp
  then have "[0..<length s] = [0..<i] @ [i..<length s]" using n by simp
  then have "[0..<length s] = [0..<i] @ i # [Suc i..<length s]" by (simp only: upt_conv_Cons [OF n])
  then have d: "dashes s = filter ?P [0..<i] @ i # filter ?P [Suc i..<length s]"
    unfolding dashes_def by (simp only: filter_append filter.simps P if_True simp_thms)
  have none: "filter ?P [Suc i..<length s] = []"
  proof (rule ccontr)
    assume ne: "filter ?P [Suc i..<length s] \<noteq> []"
    then have "last (dashes s) \<in> set (filter ?P [Suc i..<length s])" unfolding d using last_in_set [OF ne] by simp
    then show False unfolding i [symmetric] by simp
  qed
  have "filter ?P [0..<i] = dashes (take i s)"
    unfolding dashes_def using n by (intro filter_cong) (auto simp: min_absorb2)
  then show "dashes s = dashes (take i s) @ [i]" using d none by simp
qed

lemma candidates_rec:
  "candidates s = s # (case last_dash s of None \<Rightarrow> [] | Some i \<Rightarrow> if i = 0 then [] else candidates (take i s))"
proof (cases "dashes s = []")
  case True
  then show ?thesis by (simp add: candidates_def last_dash_def)
next
  case False
  define i where "i = last (dashes s)"
  note d = dashes_split [OF False i_def]
  have below: "j < i" if "j \<in> set (dashes (take i s))" for j using that d(2) by (auto simp: dashes_def)
  show ?thesis
  proof (cases "i = 0")
    case True
    then show ?thesis using d False by (simp add: candidates_def last_dash_def i_def dashes_def)
  next
    case i: False
    have "map (\<lambda>j. take j s) (rev (filter (\<lambda>j. 0 < j) (dashes (take i s)))) =
        map (\<lambda>j. take j (take i s)) (rev (filter (\<lambda>j. 0 < j) (dashes (take i s))))"
      using below by (auto simp: min_absorb1 less_imp_le)
    moreover have "last_dash s = Some i" using False by (simp add: last_dash_def i_def)
    ultimately show ?thesis using i d(1) by (simp add: candidates_def)
  qed
qed

lemma resolveScript_find:
  "resolveScript fs dir s = Option.bind (List.find (script_exists fs dir) (candidates s)) (resolveScriptPath fs dir)"
proof (induction fs dir s rule: resolveScript.induct)
  case (1 fs dir s)
  have rest: "(case last_dash s of None \<Rightarrow> None | Some i \<Rightarrow> if i = 0 then None else resolveScript fs dir (take i s)) =
      Option.bind (List.find (script_exists fs dir)
        (case last_dash s of None \<Rightarrow> [] | Some i \<Rightarrow> if i = 0 then [] else candidates (take i s))) (resolveScriptPath fs dir)"
    using 1 by (simp split: option.split)
  show ?case
    by (subst resolveScript.simps, subst candidates_rec)
      (simp add: rest script_exists_def split: option.split)
qed


section \<open>Containment\<close>

text \<open>A path is inside a directory: as absolute paths, its names are those of the directory and more.\<close>

definition inside :: "filesystem \<Rightarrow> string \<Rightarrow> string \<Rightarrow> bool" where
  "inside fs dir path \<longleftrightarrow>
     (\<exists>a d xs. Abs (workdir fs) path = Some a \<and> Abs (workdir fs) dir = Some d \<and> names a = names d @ xs \<and> xs \<noteq> [])"

definition absolute_workdir :: "filesystem \<Rightarrow> bool" where
  "absolute_workdir fs \<longleftrightarrow> (\<forall>d. workdir fs = Some d \<longrightarrow> IsAbs d)"

lemma Abs_abs: "absolute_workdir fs \<Longrightarrow> Abs (workdir fs) path = Some a \<Longrightarrow> IsAbs a \<and> Clean a = a"
  using IsAbs_Clean [of path] Clean_Clean [of path]
  by (auto simp: Abs_def absolute_workdir_def Join_abs split: if_splits)
    (metis Clean_Clean IsAbs_def Join_abs append_is_Nil_conv prefix_append)+

lemma isSubpath_names:
  assumes "IsAbs d" and "IsAbs a" and "isSubpath d a"
  shows "\<exists>xs. names a = names d @ xs \<and> xs \<noteq> []"
proof -
  have "prefix (slash # join_slash (names d) @ [slash]) (slash # join_slash (names a))"
    using assms by (simp add: isSubpath_def Clean_abs)
  then show ?thesis using names_prefix [OF plain_names plain_names] by blast
qed

lemma isSubpath_empty: "IsAbs a \<Longrightarrow> \<not> isSubpath [] a"
  by (simp add: isSubpath_def Clean_def IsAbs_def clean_names_def clean_name_def)

lemma contained_inside:
  assumes "absolute_workdir fs" and "contained fs dir path"
  shows "inside fs dir path"
proof -
  obtain a where a: "Abs (workdir fs) path = Some a" using assms(2) by (auto simp: contained_def split: option.splits)
  have "IsAbs a" using Abs_abs [OF assms(1) a] by simp
  then obtain d where d: "Abs (workdir fs) dir = Some d"
    using assms(2) a isSubpath_empty by (auto simp: contained_def split: option.splits)
  have "isSubpath d a" using assms(2) a d by (simp add: contained_def)
  then show ?thesis
    using isSubpath_names [of d a] Abs_abs [OF assms(1) d] \<open>IsAbs a\<close> a d by (auto simp: inside_def)
qed

lemma resolveScriptPath_inside:
  "absolute_workdir fs \<Longrightarrow> resolveScriptPath fs dir subject = Some path \<Longrightarrow> inside fs dir path"
  by (auto simp: resolveScriptPath_def Let_def contained_inside split: if_splits)

lemma find_Some_mem: "List.find P xs = Some x \<Longrightarrow> x \<in> set xs \<and> P x"
  by (induction xs) (auto split: if_splits)


lemma Abs_inside:
  assumes "absolute_workdir fs" and "Abs (workdir fs) p = Some a" and "Abs (workdir fs) q = Some b" and "isSubpath a b"
  shows "\<exists>xs. names b = names a @ xs \<and> xs \<noteq> []"
  using isSubpath_names [of a b] Abs_abs [OF assms(1,2)] Abs_abs [OF assms(1,3)] assms(4) by simp

lemma resolveScript_inside:
  assumes "absolute_workdir fs" and "resolveScript fs dir s = Some path"
  shows "inside fs dir path \<and> Stat fs path"
proof -
  obtain c where c: "List.find (script_exists fs dir) (candidates s) = Some c" "resolveScriptPath fs dir c = Some path"
    using assms(2) by (auto simp: resolveScript_find bind_eq_Some_conv)
  then show ?thesis
    using find_Some_mem [OF c(1)] resolveScriptPath_inside [OF assms(1) c(2)] by (simp add: script_exists_def)
qed

lemma require_path_inside:
  "absolute_workdir fs \<Longrightarrow> require_path fs dir m = Some path \<Longrightarrow> inside fs dir path"
  by (auto simp: require_path_def Let_def contained_inside split: if_splits)

lemma dofile_path_inside:
  "absolute_workdir fs \<Longrightarrow> dofile_path fs dir m = Some path \<Longrightarrow> inside fs dir path"
  by (auto simp: dofile_path_def Let_def contained_inside split: if_splits)

lemma chunk_path_inside:
  assumes fs: "absolute_workdir fs" and c: "chunk_path fs dir chunks c = Some path"
  shows "\<exists>root home xs ys. resolveRealPath fs dir = Some root \<and> resolveRealPath fs (path_Join dir chunks) = Some home \<and>
    names home = names root @ xs \<and> xs \<noteq> [] \<and> names path = names home @ ys \<and> ys \<noteq> []"
proof -
  obtain root home where
    r: "resolveRealPath fs dir = Some root" "resolveRealPath fs (path_Join dir chunks) = Some home" and
    p: "resolveRealPath fs (path_Join home (c @ ''.lua'')) = Some path" and
    sub: "isSubpath root home" "isSubpath home path"
    using c by (auto simp: chunk_path_def split: if_splits option.splits)
  obtain a b d where ab: "Abs (workdir fs) a = Some root" "Abs (workdir fs) b = Some home" "Abs (workdir fs) d = Some path"
    using r p by (auto simp: resolveRealPath_def bind_eq_Some_conv)
  show ?thesis using Abs_inside [OF fs ab(1,2) sub(1)] Abs_inside [OF fs ab(2,3) sub(2)] r by blast
qed

lemma engine_Execute_local:
  assumes "absolute_workdir fs" and "\<And>path. inside fs dir path \<Longrightarrow> Stat fs path \<Longrightarrow> run path = run' path"
  shows "engine_Execute fs dir run = engine_Execute fs dir run'"
proof (intro ext)
  fix s sender content st
  show "engine_Execute fs dir run s sender content st = engine_Execute fs dir run' s sender content st"
    using assms(2) resolveScript_inside [OF assms(1), of dir s]
    by (simp add: engine_Execute_def split: option.split)
qed


section \<open>Properties\<close>

text \<open>A file system with one script, \<open>example/chunk.lua\<close>, and one library, under \<open>/srv/scripts\<close>.\<close>

definition example_fs :: filesystem where
  "example_fs = \<lparr>workdir = Some ''/srv'',
     Stat = \<lambda>p. p \<in> {''scripts/example/chunk.lua'', ''scripts/lib/util.lua'', ''scripts/secret.lua''},
     EvalSymlinks = Some\<rparr>"

text \<open>C32.  Scripts run from the scripts directory only, whatever subject a client sends: every file that the engine runs
  for a subject, and every file that \<open>require\<close> or \<open>dofile\<close> opens for a script, lies strictly below the scripts
  directory (as absolute paths, component by component); a sandboxed chunk lies, after symbolic links are resolved,
  strictly below the chunk directory, itself strictly below the scripts directory.\<close>

theorem script_files_contained:
  assumes "absolute_workdir fs"
  shows "(resolveScript fs dir subject = Some path \<longrightarrow> inside fs dir path \<and> Stat fs path) \<and>
    (require_path fs dir m = Some path \<longrightarrow> inside fs dir path) \<and>
    (dofile_path fs dir f = Some path \<longrightarrow> inside fs dir path) \<and>
    (chunk_path fs dir chunks c = Some path \<longrightarrow>
      (\<exists>root home xs ys. resolveRealPath fs dir = Some root \<and> resolveRealPath fs (path_Join dir chunks) = Some home \<and>
        names home = names root @ xs \<and> xs \<noteq> [] \<and> names path = names home @ ys \<and> ys \<noteq> []))"
  using resolveScript_inside [OF assms] require_path_inside [OF assms] dofile_path_inside [OF assms]
    chunk_path_inside [OF assms] by blast

lemma example_abs: "absolute_workdir example_fs"
  by (simp add: absolute_workdir_def example_fs_def IsAbs_def)

lemma example_resolved:
  "resolveScript example_fs ''scripts'' ''example/chunk-42'' = Some ''scripts/example/chunk.lua''"
  "require_path example_fs ''scripts'' ''secret'' = Some ''scripts/secret.lua''"
  "dofile_path example_fs ''scripts'' ''boot.lua'' = Some ''scripts/boot.lua''"
  "chunk_path example_fs ''scripts'' ''chunks'' ''a-1'' = Some ''/srv/scripts/chunks/a-1.lua''"
  by code_simp+

theorem script_files_contained_witness:
  "inside example_fs ''scripts'' ''scripts/example/chunk.lua'' \<and>
   inside example_fs ''scripts'' ''scripts/secret.lua'' \<and>
   inside example_fs ''scripts'' ''scripts/boot.lua'' \<and>
   (\<exists>root xs. resolveRealPath example_fs ''scripts'' = Some root \<and>
      names ''/srv/scripts/chunks/a-1.lua'' = names root @ xs)"
proof -
  note contained = script_files_contained [OF example_abs, of "''scripts''" _ _ _ _ "''chunks''"]
  have "\<exists>root home xs ys. resolveRealPath example_fs ''scripts'' = Some root \<and> names home = names root @ xs \<and>
      names ''/srv/scripts/chunks/a-1.lua'' = names home @ ys"
    using contained [THEN conjunct2, THEN conjunct2, THEN conjunct2] example_resolved(4) by blast
  then have "\<exists>root xs. resolveRealPath example_fs ''scripts'' = Some root \<and>
      names ''/srv/scripts/chunks/a-1.lua'' = names root @ xs"
    by (elim exE conjE) (simp only: append_assoc, blast)
  then show ?thesis
    using contained [THEN conjunct1] contained [THEN conjunct2, THEN conjunct1]
      contained [THEN conjunct2, THEN conjunct2, THEN conjunct1] example_resolved(1-3) by blast
qed

text \<open>C33.  Resolution of a subject finds the longest candidate: the loop that strips the part after the last dash, again and
  again, returns the script of the first of the subject and its dash prefixes (longest first, none of them empty) that
  is admitted and exists on disk, and no script exactly when none is.  It terminates on every subject, on every file
  system.\<close>

theorem resolveScript_longest:
  "resolveScript fs dir s = Option.bind (List.find (script_exists fs dir) (candidates s)) (resolveScriptPath fs dir)"
  by (rule resolveScript_find)

text \<open>What the engine does depends on the files below the scripts directory only: two file contents that agree there
  give the same engine, for every subject, sender, content and state of the server.\<close>

lemma engine_runs_contained_files:
  assumes "absolute_workdir fs" and "\<And>path. inside fs dir path \<Longrightarrow> Stat fs path \<Longrightarrow> run path = run' path"
  shows "lua_engine fs dir run = lua_engine fs dir run'"
  using engine_Execute_local [OF assms] by (simp add: lua_engine_def)

end
