(* ===== verification/Codec.thy ===== *)
theory Codec
  imports Json LingoWire
begin

text \<open>
  Lingo values as stored attributes: \<open>internal/domain/types/lingo/codec.go\<close>.  Numbers and texts are JSON, the
  other types are their wire form in base64.  The shortest decimal form of a \<open>float64\<close> and its reader
  (\<open>strconv.AppendFloat\<close> and \<open>strconv.ParseFloat\<close>) are parameters.
\<close>


section \<open>Base64\<close>

definition b64_char :: "nat \<Rightarrow> char" where
  "b64_char n =
     (if n < 26 then char_of (65 + n) else if n < 52 then char_of (71 + n) else if n < 62 then char_of (n - 4)
      else if n = 62 then CHR ''+'' else CHR ''/'')"

definition b64_value :: "char \<Rightarrow> nat option" where
  "b64_value c =
     (let n = code c
      in if 65 \<le> n \<and> n \<le> 90 then Some (n - 65) else if 97 \<le> n \<and> n \<le> 122 then Some (n - 71)
         else if 48 \<le> n \<and> n \<le> 57 then Some (n + 4) else if n = 43 then Some 62 else if n = 47 then Some 63 else None)"

definition b64_group :: "nat \<Rightarrow> string" where
  "b64_group n = [b64_char (n div 262144 mod 64), b64_char (n div 4096 mod 64), b64_char (n div 64 mod 64), b64_char (n mod 64)]"

definition bits24 :: "byte \<Rightarrow> byte \<Rightarrow> byte \<Rightarrow> nat" where
  "bits24 a b c = unat a * 65536 + unat b * 256 + unat c"

text \<open>\<open>StdEncoding.EncodeToString\<close>\<close>

fun b64_encode :: "bytes \<Rightarrow> string" where
  "b64_encode [] = []"
| "b64_encode [a] = take 2 (b64_group (bits24 a 0 0)) @ ''==''"
| "b64_encode [a, b] = take 3 (b64_group (bits24 a b 0)) @ ''=''"
| "b64_encode (a # b # c # r) = b64_group (bits24 a b c) @ b64_encode r"

definition b64_bytes :: "nat \<Rightarrow> bytes" where
  "b64_bytes n = [word_of_nat (n div 65536), word_of_nat (n div 256), word_of_nat n]"

definition b64_quad :: "char \<Rightarrow> char \<Rightarrow> nat \<Rightarrow> nat \<Rightarrow> bytes option" where
  "b64_quad w x y z =
     (case (b64_value w, b64_value x) of
        (Some m, Some n) \<Rightarrow> Some (b64_bytes (m * 262144 + n * 4096 + y * 64 + z))
      | _ \<Rightarrow> None)"

text \<open>\<open>StdEncoding.Decode\<close>, after it has dropped the line breaks: padding is required, and the bits beyond the
  last byte are not looked at.\<close>

fun b64_quads :: "string \<Rightarrow> bytes option" where
  "b64_quads [] = Some []"
| "b64_quads (w # x # y # z # r) =
     (if y = CHR ''='' then (if z = CHR ''='' \<and> r = [] then map_option (take 1) (b64_quad w x 0 0) else None)
      else (case b64_value y of
        None \<Rightarrow> None
      | Some p \<Rightarrow>
          if z = CHR ''='' then (if r = [] then map_option (take 2) (b64_quad w x p 0) else None)
          else (case (b64_value z, b64_quads r) of
             (Some q, Some bs) \<Rightarrow> map_option (\<lambda>g. g @ bs) (b64_quad w x p q)
           | _ \<Rightarrow> None)))"
| "b64_quads _ = None"

definition b64_decode :: "string \<Rightarrow> bytes option" where
  "b64_decode s = b64_quads (filter (\<lambda>c. c \<noteq> CHR 0x0A \<and> c \<noteq> CHR 0x0D) s)"

lemma code_b64_char:
  "n < 64 \<Longrightarrow> code (b64_char n) = (if n < 26 then 65 + n else if n < 52 then 71 + n else if n < 62 then n - 4
     else if n = 62 then 43 else 47)"
  by (simp add: b64_char_def of_char_of)

lemma b64_value_char [simp]: "n < 64 \<Longrightarrow> b64_value (b64_char n) = Some n"
  by (auto simp: b64_value_def code_b64_char Let_def)

lemma b64_char_safe:
  assumes "n < 64"
  shows "b64_char n \<noteq> CHR ''=''" "code (b64_char n) < 0x80" "quote_ascii (b64_char n) = [b64_char n]"
    "b64_char n \<noteq> CHR 0x0A" "b64_char n \<noteq> CHR 0x0D"
proof -
  define m where "m = code (b64_char n)"
  have m: "32 \<le> m" "m < 128" "m \<notin> {34, 92, 60, 62, 38, 61}"
    using assms by (auto simp: m_def code_b64_char)
  have ne: "b64_char n \<noteq> c" if "code c \<in> {34, 92, 60, 62, 38, 61} \<or> code c < 32" for c
    using m that by (auto simp: m_def)
  show "b64_char n \<noteq> CHR ''=''" "b64_char n \<noteq> CHR 0x0A" "b64_char n \<noteq> CHR 0x0D" by (rule ne, simp)+
  show "code (b64_char n) < 0x80" using m(2) by (simp add: m_def)
  have "b64_char n \<noteq> CHR 0x22" "b64_char n \<noteq> CHR 0x5C" "b64_char n \<noteq> CHR 0x08" "b64_char n \<noteq> CHR 0x0C" "b64_char n \<noteq> CHR 0x0A"
    "b64_char n \<noteq> CHR 0x0D" "b64_char n \<noteq> CHR 0x09" "b64_char n \<noteq> CHR ''<''" "b64_char n \<noteq> CHR ''>''" "b64_char n \<noteq> CHR ''&''"
    by (rule ne, simp)+
  then show "quote_ascii (b64_char n) = [b64_char n]" using m(1) by (simp add: quote_ascii_def m_def)
qed

lemma byte_less: "unat (b :: byte) < 256"
  using unsigned_less [of b, where ?'a = nat] by simp

lemma bits24_split:
  assumes "n < 16777216"
  shows "n div 262144 mod 64 * 262144 + n div 4096 mod 64 * 4096 + n div 64 mod 64 * 64 + n mod 64 = (n :: nat)"
proof -
  have "n div 262144 mod 64 = n div 262144" using assms by (simp add: less_mult_imp_div_less)
  moreover have "n div 4096 = n div 262144 * 64 + n div 4096 mod 64" by (simp add: div_mult2_eq [of n 4096 64, simplified])
  moreover have "n div 64 = n div 4096 * 64 + n div 64 mod 64" by (simp add: div_mult2_eq [of n 64 64, simplified])
  moreover have "n = n div 64 * 64 + n mod 64" by simp
  ultimately show ?thesis by linarith
qed

lemma bits24_less: "bits24 a b c < 16777216"
  using byte_less [of a] byte_less [of b] byte_less [of c] by (simp add: bits24_def)

lemma b64_bytes_bits24: "b64_bytes (bits24 a b c) = [a, b, c]"
proof -
  have l: "unat b < 256" "unat c < 256" using byte_less [of b] byte_less [of c] by simp_all
  have d: "bits24 a b c div 65536 = unat a" using l by (simp add: bits24_def)
  have e: "bits24 a b c div 256 = unat a * 256 + unat b" using l by (simp add: bits24_def)
  have z: "(256 :: byte) = 0" "(65536 :: byte) = 0" by simp_all
  have "x * 256 = 0" "x * 65536 = 0" for x :: byte by (simp_all only: z mult_zero_right)
  then have "word_of_nat (bits24 a b c) = c" "word_of_nat (unat a * 256 + unat b) = b" by (simp_all add: bits24_def)
  then show ?thesis by (simp add: b64_bytes_def d e)
qed

lemma b64_quad_group:
  fixes a b c :: byte
  defines "n \<equiv> bits24 a b c"
  shows "b64_quad (b64_char (n div 262144 mod 64)) (b64_char (n div 4096 mod 64)) (n div 64 mod 64) (n mod 64) = Some [a, b, c]"
proof -
  have v: "b64_value (b64_char (k mod 64)) = Some (k mod 64)" for k by simp
  show ?thesis
    unfolding b64_quad_def v prod.case option.case
      bits24_split [OF bits24_less, of a b c, folded n_def] by (simp only: n_def b64_bytes_bits24)
qed

lemma quads_encode: "b64_quads (b64_encode bs) = Some bs"
proof (induction bs rule: b64_encode.induct)
  case (2 a)
  have "bits24 a 0 0 = 64 * (64 * (unat a * 16))" by (simp add: bits24_def)
  then have "bits24 a 0 0 div 64 mod 64 = 0" "bits24 a 0 0 mod 64 = 0" by simp_all
  then show ?case
    using b64_quad_group [of a 0 0] by (simp add: b64_group_def b64_char_safe)
next
  case (3 a b)
  have "bits24 a b 0 = 64 * (unat a * 1024 + unat b * 4)" by (simp add: bits24_def)
  then have "bits24 a b 0 mod 64 = 0" by simp
  then show ?case
    using b64_quad_group [of a b 0] by (simp add: b64_group_def b64_char_safe)
next
  case (4 a b c r)
  then show ?case
    using b64_quad_group [of a b c] by (simp add: b64_group_def b64_char_safe)
qed simp


text \<open>The characters of base64 are not touched by the escaping of JSON or by the filter for line breaks.\<close>

definition b64_safe :: "char \<Rightarrow> bool" where
  "b64_safe c \<longleftrightarrow> code c < 0x80 \<and> quote_ascii c = [c] \<and> c \<noteq> CHR 0x0A \<and> c \<noteq> CHR 0x0D"

lemma b64_group_safe: "c \<in> set (b64_group n) \<Longrightarrow> b64_safe c"
  by (auto simp: b64_group_def b64_safe_def b64_char_safe)

lemma b64_pad_safe: "b64_safe (CHR ''='')"
  by (simp add: b64_safe_def quote_ascii_def)

lemma b64_encode_safe: "c \<in> set (b64_encode bs) \<Longrightarrow> b64_safe c"
proof (induction bs rule: b64_encode.induct)
  case (2 a)
  then show ?case
    using b64_group_safe [OF in_set_takeD, of c 2 "bits24 a 0 0"] b64_pad_safe by (auto simp del: take_Suc_Cons)
next
  case (3 a b)
  then show ?case
    using b64_group_safe [OF in_set_takeD, of c 3 "bits24 a b 0"] b64_pad_safe by auto
next
  case (4 a b c' r)
  then show ?case using b64_group_safe [of c "bits24 a b c'"] by auto
qed simp

lemma b64_decode_encode: "b64_decode (b64_encode bs) = Some bs"
proof -
  have "filter (\<lambda>c. c \<noteq> CHR 0x0A \<and> c \<noteq> CHR 0x0D) (b64_encode bs) = b64_encode bs"
    using b64_encode_safe [of _ bs] by (auto simp: filter_id_conv b64_safe_def)
  then show ?thesis by (simp add: b64_decode_def quads_encode)
qed

lemma quoted_safe:
  assumes "\<And>c. c \<in> set s \<Longrightarrow> b64_safe c"
  shows "quoted s = s" "sanitized s = s"
proof -
  have "runes s = map (\<lambda>c. (True, [c])) s" using assms by (intro runes_all_ascii) (simp add: b64_safe_def)
  moreover have "concat (map quote_ascii s) = s" using assms by (induction s) (simp_all add: b64_safe_def)
  ultimately show "quoted s = s" by (simp add: quoted_def quote_rune_def comp_def)
  show "sanitized s = s" using assms by (intro sanitized_valid valid_utf8_ascii) (simp add: b64_safe_def)
qed


section \<open>The codec\<close>

record float_codec =
  AppendFloat :: "64 word \<Rightarrow> string"
  ParseFloat :: "string \<Rightarrow> 64 word option"

definition finite_float :: "64 word \<Rightarrow> bool" where
  "finite_float w \<longleftrightarrow> unat w div 2 ^ 52 mod 2048 \<noteq> 2047"

text \<open>The documented behaviour of the shortest form: it is a JSON number that is read back exactly.\<close>

definition exact_floats :: "float_codec \<Rightarrow> bool" where
  "exact_floats fc \<longleftrightarrow> (\<forall>w. finite_float w \<longrightarrow>
     scalar (AppendFloat fc w) (JNum (AppendFloat fc w)) \<and> ParseFloat fc (AppendFloat fc w) = Some w)"

text \<open>\<open>StoredLValue\<close>: the type, and the raw text of the value, which is left out when there is none.\<close>

definition marshal_stored :: "string \<Rightarrow> string \<Rightarrow> string" where
  "marshal_stored type raw =
     json_object ((''type'', json_string type) # (if raw = [] then [] else [(''value'', raw)]))"

definition marshal_bytes :: "bytes \<Rightarrow> string" where
  "marshal_bytes b = CHR 0x22 # b64_encode b @ [CHR 0x22]"

definition marshal_binary :: "string \<Rightarrow> lvalue \<Rightarrow> string go" where
  "marshal_binary type v = nopanic (GetBytes v) (\<lambda>b. Ok (marshal_stored type (marshal_bytes b)))"

fun MarshalLValue :: "float_codec \<Rightarrow> lvalue \<Rightarrow> string go" where
  "MarshalLValue fc (LInteger x) = Ok (marshal_stored ''integer'' (json_int (sint x)))"
| "MarshalLValue fc (LFloat w) = (if finite_float w then Ok (marshal_stored ''float'' (AppendFloat fc w)) else Err ErrOther)"
| "MarshalLValue fc (LString s) = Ok (marshal_stored ''string'' (json_string s))"
| "MarshalLValue fc (LSymbol s) = Ok (marshal_stored ''symbol'' (json_string s))"
| "MarshalLValue fc (LPropList ps vs) = marshal_binary ''proplist'' (LPropList ps vs)"
| "MarshalLValue fc (LList vs) = marshal_binary ''list'' (LList vs)"
| "MarshalLValue fc (LPoint h v) = marshal_binary ''point'' (LPoint h v)"
| "MarshalLValue fc (LRect l t r b) = marshal_binary ''rect'' (LRect l t r b)"
| "MarshalLValue fc (LColor r g b) = marshal_binary ''color'' (LColor r g b)"
| "MarshalLValue fc (LDate d) = marshal_binary ''date'' (LDate d)"
| "MarshalLValue fc (L3dVector x y z) = marshal_binary ''3dvector'' (L3dVector x y z)"
| "MarshalLValue fc (L3dTransform m) = marshal_binary ''3dtransform'' (L3dTransform m)"
| "MarshalLValue fc (LPicture d) = marshal_binary ''picture'' (LPicture d)"
| "MarshalLValue fc (LMedia d) = marshal_binary ''media'' (LMedia d)"
| "MarshalLValue fc LVoid = Ok (marshal_stored ''void'' [])"

record stored_lvalue =
  sv_Type :: string
  sv_Value :: string

definition assign_stored :: "string \<Rightarrow> string \<Rightarrow> stored_lvalue \<Rightarrow> stored_lvalue option" where
  "assign_stored name raw sv =
     (if name = ''type'' then map_option (\<lambda>x. sv\<lparr>sv_Type := x\<rparr>) (read_string raw (sv_Type sv))
      else Some (sv\<lparr>sv_Value := raw\<rparr>))"

definition unmarshal_stored :: "string \<Rightarrow> stored_lvalue option" where
  "unmarshal_stored text = decode_struct assign_stored [''type'', ''value''] text \<lparr>sv_Type = [], sv_Value = []\<rparr>"

definition read_float :: "float_codec \<Rightarrow> string \<Rightarrow> 64 word option" where
  "read_float fc text =
     (case json_parse text of Some (JNum x) \<Rightarrow> ParseFloat fc x | Some JNull \<Rightarrow> Some 0 | _ \<Rightarrow> None)"

text \<open>Into a byte slice go a base64 string, an array of small numbers, or null.\<close>

definition read_byte :: "string \<Rightarrow> byte option" where
  "read_byte text =
     (if take 1 (skip_ws text) = ''-'' then None else map_option word_of_int (read_int 0 255 text 0))"

definition read_bytes :: "string \<Rightarrow> bytes option" where
  "read_bytes text =
     (case json_parse text of
        Some (JStr x) \<Rightarrow> Option.bind (unquote x) b64_decode
      | Some (JArr es) \<Rightarrow> those (map read_byte es)
      | Some JNull \<Rightarrow> Some []
      | _ \<Rightarrow> None)"

definition binary_types :: "string list" where
  "binary_types = [''proplist'', ''list'', ''point'', ''rect'', ''color'', ''date'', ''3dvector'', ''3dtransform'',
     ''picture'', ''media'']"

definition or_error :: "('a \<Rightarrow> 'b go) \<Rightarrow> 'a option \<Rightarrow> 'b go" where
  "or_error f r = (case r of None \<Rightarrow> Err ErrOther | Some x \<Rightarrow> f x)"

definition UnmarshalLValue :: "float_codec \<Rightarrow> string \<Rightarrow> lvalue go" where
  "UnmarshalLValue fc data = or_error (\<lambda>sv.
     if sv_Type sv = ''integer'' then
       or_error (\<lambda>i. Ok (LInteger (word_of_int i))) (read_int (- (2 ^ 31)) (2 ^ 31 - 1) (sv_Value sv) 0)
     else if sv_Type sv = ''float'' then or_error (\<lambda>w. Ok (LFloat w)) (read_float fc (sv_Value sv))
     else if sv_Type sv = ''string'' then or_error (\<lambda>s. Ok (LString s)) (read_string (sv_Value sv) [])
     else if sv_Type sv = ''symbol'' then or_error (\<lambda>s. Ok (LSymbol s)) (read_string (sv_Value sv) [])
     else if sv_Type sv \<in> set binary_types then
       or_error (\<lambda>b. nopanic (FromRawBytes b 0) Ok) (read_bytes (sv_Value sv))
     else Ok LVoid) (unmarshal_stored data)"


section \<open>What is stored is read back\<close>

lemma stored_ascii:
  "sanitized ''type'' = ''type''" "sanitized ''value'' = ''value''" "sanitized ''integer'' = ''integer''"
  "sanitized ''float'' = ''float''" "sanitized ''string'' = ''string''" "sanitized ''symbol'' = ''symbol''"
  "sanitized ''void'' = ''void''"
  by (rule sanitized_valid, rule valid_utf8_ascii, fastforce)+

lemma binary_ascii: "t \<in> set binary_types \<Longrightarrow> sanitized t = t"
  by (rule sanitized_valid, rule valid_utf8_ascii) (fastforce simp: binary_types_def)

lemma unmarshal_marshal_stored:
  assumes "raw = [] \<or> (\<exists>v. scalar raw v)"
  shows "unmarshal_stored (marshal_stored t raw) = Some \<lparr>sv_Type = sanitized t, sv_Value = raw\<rparr>"
proof (cases "raw = []")
  case True
  have "json_parse (json_object [(''type'', json_string t)]) = Some (JObj [(quoted ''type'', json_string t)])"
    by (subst json_parse_object) (use scalar_json_string in auto)
  then show ?thesis
    using True by (simp add: unmarshal_stored_def marshal_stored_def decode_struct_def unquote_quoted stored_ascii
        find_field_def assign_stored_def read_string_written)
next
  case False
  have "json_parse (json_object [(''type'', json_string t), (''value'', raw)]) =
      Some (JObj [(quoted ''type'', json_string t), (quoted ''value'', raw)])"
    by (subst json_parse_object) (use scalar_json_string False assms in auto)
  then show ?thesis
    using False by (simp add: unmarshal_stored_def marshal_stored_def decode_struct_def unquote_quoted stored_ascii
        find_field_def assign_stored_def read_string_written)
qed

lemma marshal_bytes_string: "marshal_bytes b = json_string (b64_encode b)"
  using quoted_safe(1) [of "b64_encode b"] b64_encode_safe by (simp add: marshal_bytes_def json_string_def)

lemma read_bytes_written: "read_bytes (marshal_bytes b) = Some b"
  using quoted_safe(2) [of "b64_encode b"] b64_encode_safe scalar_parse [OF scalar_json_string, of "b64_encode b"]
  by (simp add: read_bytes_def marshal_bytes_string unquote_quoted b64_decode_encode)

lemma scalar_bytes: "\<exists>v. scalar (marshal_bytes b) v"
  unfolding marshal_bytes_string using scalar_json_string by blast


lemma length_sanitized:
  "length (sanitized s) = length s + 2 * length (filter (\<lambda>r. \<not> fst r) (runes s))"
proof -
  have one: "length r = 1" if "(False, r) \<in> set (runes s)" for r
    using that
  proof (induction s rule: runes.induct)
    case (1 s)
    then show ?case by (subst (asm) (2) runes.simps) (auto split: if_splits simp: Let_def neq_Nil_conv)
  qed
  have "length (concat (map (\<lambda>(ok, r). if ok then r else RuneError) rs)) =
      length (concat (map snd rs)) + 2 * length (filter (\<lambda>r. \<not> fst r) rs)"
    if "\<forall>r. (False, r) \<in> set rs \<longrightarrow> length r = 1" for rs :: "(bool \<times> string) list"
    using that by (induction rs) (auto simp: RuneError_def)
  then show ?thesis using one concat_runes [of s] by (simp add: sanitized_def)
qed

lemma sanitized_iff: "sanitized s = s \<longleftrightarrow> valid_utf8 s"
proof
  assume "sanitized s = s"
  then have "filter (\<lambda>r. \<not> fst r) (runes s) = []" using length_sanitized [of s] by simp
  then show "valid_utf8 s" by (auto simp: valid_utf8_def filter_empty_conv)
qed (rule sanitized_valid)

text \<open>The values that can be stored, what is read back, and the values that are read back unchanged.\<close>

fun storable :: "lvalue \<Rightarrow> bool" where
  "storable (LString _) = True"
| "storable (LSymbol _) = True"
| "storable (LMedia _) = True"
| "storable (LFloat w) = finite_float w"
| "storable v = wire_ok v"

fun restored :: "lvalue \<Rightarrow> lvalue" where
  "restored (LString s) = LString (sanitized s)"
| "restored (LSymbol s) = LSymbol (sanitized s)"
| "restored (LMedia _) = LVoid"
| "restored v = decoded v"

fun exactly_stored :: "lvalue \<Rightarrow> bool" where
  "exactly_stored (LString s) = valid_utf8 s"
| "exactly_stored (LSymbol s) = valid_utf8 s"
| "exactly_stored (LMedia _) = False"
| "exactly_stored v = inner_prop_free v"

lemma restored_exact: "restored v = v \<longleftrightarrow> exactly_stored v"
  by (cases v) (simp_all add: sanitized_iff decoded_eq_self_iff)

lemma read_binary:
  assumes "t \<in> set binary_types" and "GetBytes v = Some b" and "FromRawBytes b 0 = Some w"
  shows "\<exists>x. marshal_binary t v = Ok x \<and> UnmarshalLValue fc x = Ok w"
proof -
  have "unmarshal_stored (marshal_stored t (marshal_bytes b)) = Some \<lparr>sv_Type = t, sv_Value = marshal_bytes b\<rparr>"
    using unmarshal_marshal_stored [of "marshal_bytes b" t] scalar_bytes binary_ascii [OF assms(1)] by simp
  moreover have "t \<notin> {''integer'', ''float'', ''string'', ''symbol''}" using assms(1) by (auto simp: binary_types_def)
  ultimately show ?thesis
    using assms by (simp add: marshal_binary_def UnmarshalLValue_def or_error_def read_bytes_written)
qed

lemma read_wire:
  assumes "t \<in> set binary_types" and "wire_ok v"
  shows "\<exists>x. marshal_binary t v = Ok x \<and> UnmarshalLValue fc x = Ok (decoded v)"
proof -
  obtain b where b: "GetBytes v = Some b" "decodes v b" using encode_decodes [OF assms(2)] by blast
  have "FromRawBytes ([] @ b @ []) (length ([] :: bytes)) = Some (decoded v)"
    using b(2) unfolding decodes_def by blast
  then show ?thesis using read_binary [OF assms(1) b(1)] by simp
qed

lemma unmarshal_simple:
  assumes "raw = [] \<or> (\<exists>v. scalar raw v)" and "sanitized t = t"
  shows "UnmarshalLValue fc (marshal_stored t raw) =
    (if t = ''integer'' then or_error (\<lambda>i. Ok (LInteger (word_of_int i))) (read_int (- (2 ^ 31)) (2 ^ 31 - 1) raw 0)
     else if t = ''float'' then or_error (\<lambda>w. Ok (LFloat w)) (read_float fc raw)
     else if t = ''string'' then or_error (\<lambda>s. Ok (LString s)) (read_string raw [])
     else if t = ''symbol'' then or_error (\<lambda>s. Ok (LSymbol s)) (read_string raw [])
     else if t \<in> set binary_types then or_error (\<lambda>b. nopanic (FromRawBytes b 0) Ok) (read_bytes raw)
     else Ok LVoid)"
  unfolding UnmarshalLValue_def unmarshal_marshal_stored [OF assms(1)] assms(2) by (simp add: or_error_def)

lemma decoded_leaf [simp]: "decoded LVoid = LVoid" "decoded (LInteger i) = LInteger i" "decoded (LFloat w) = LFloat w"
  by (simp_all add: decoded_def)

lemma codec_text:
  "UnmarshalLValue fc (marshal_stored ''string'' (json_string s)) = Ok (LString (sanitized s))"
  "UnmarshalLValue fc (marshal_stored ''symbol'' (json_string s)) = Ok (LSymbol (sanitized s))"
  using unmarshal_simple [of "json_string s" "''string''" fc] unmarshal_simple [of "json_string s" "''symbol''" fc]
    scalar_json_string [of s]
  by (auto simp: stored_ascii or_error_def read_string_written)

lemma codec_integer: "UnmarshalLValue fc (marshal_stored ''integer'' (json_int (sint (i :: 32 word)))) = Ok (LInteger i)"
proof -
  have r: "- (2 ^ 31) \<le> sint i" "sint i < 2 ^ 31" using sint_greater_eq [of i] sint_less [of i] by simp_all
  then have "read_int (- (2 ^ 31)) (2 ^ 31 - 1) (json_int (sint i)) 0 = Some (sint i)"
    by (intro read_int_written) (auto simp: int64_range_def)
  then show ?thesis
    using unmarshal_simple [of "json_int (sint i)" "''integer''" fc] scalar_json_int
    by (auto simp: stored_ascii or_error_def)
qed

lemma codec_float:
  assumes "exact_floats fc" and "finite_float w"
  shows "UnmarshalLValue fc (marshal_stored ''float'' (AppendFloat fc w)) = Ok (LFloat w)"
proof -
  have f: "scalar (AppendFloat fc w) (JNum (AppendFloat fc w))" "ParseFloat fc (AppendFloat fc w) = Some w"
    using assms by (simp_all add: exact_floats_def)
  have "read_float fc (AppendFloat fc w) = Some w" by (simp add: read_float_def scalar_parse [OF f(1)] f(2))
  then show ?thesis
    using unmarshal_simple [of "AppendFloat fc w" "''float''" fc] f(1) by (auto simp: stored_ascii or_error_def)
qed

lemma codec_void: "UnmarshalLValue fc (marshal_stored ''void'' []) = Ok LVoid"
  using unmarshal_simple [of "[]" "''void''" fc] by (simp add: stored_ascii binary_types_def)

lemma FromRawBytes_Nil: "FromRawBytes [] 0 = Some LVoid"
  by (subst FromRawBytes.simps) simp

lemma codec_round_trip:
  assumes "exact_floats fc" and "storable v"
  shows "\<exists>t. MarshalLValue fc v = Ok t \<and> UnmarshalLValue fc t = Ok (restored v)"
proof -
  have binary: "\<exists>x. marshal_binary t v = Ok x \<and> UnmarshalLValue fc x = Ok (decoded v)" if "t \<in> set binary_types" "wire_ok v" for t
    by (rule read_wire [OF that])
  show ?thesis
  proof (cases v)
    case (LMedia d)
    then show ?thesis using read_binary [of "''media''" "LMedia d" "[]" LVoid fc] FromRawBytes_Nil by (simp add: binary_types_def)
  qed (use assms binary in \<open>simp_all add: codec_text codec_integer codec_float codec_void binary_types_def\<close>)
qed


lemma unmarshal_no_panic: "UnmarshalLValue fc data \<noteq> Panic"
proof -
  have "nopanic (FromRawBytes b 0) Ok \<noteq> Panic" for b using decoder_defined(1) [of b 0] by (cases "FromRawBytes b 0") auto
  then show ?thesis by (auto simp: UnmarshalLValue_def or_error_def split: option.splits)
qed


section \<open>Properties\<close>


text \<open>A codec for floats by their bits, which is exact.\<close>

definition bit_floats :: float_codec where
  "bit_floats = \<lparr>AppendFloat = \<lambda>w. json_int (sint w), ParseFloat = \<lambda>x. map_option word_of_int (ParseInt x)\<rparr>"

lemma bit_floats_exact: "exact_floats bit_floats"
proof -
  have "ParseInt (dec_int (sint w)) = Some (sint w)" for w :: "64 word"
    using sint_greater_eq [of w] sint_less [of w] by (intro ParseInt_dec_int) (simp add: int64_range_def)
  then show ?thesis using scalar_json_int by (simp add: exact_floats_def bit_floats_def json_int_def)
qed


end
