(* ===== verification/Sql.thy ===== *)
theory Sql
  imports Json Lingo
begin

text \<open>
  The SQL layer below the storage adapters: executors, the two dialects
  (\<open>internal/adapters/outbound/sql_dialect*.go\<close>) and the query builder (\<open>sql_query_builder.go\<close>).  The database
  itself is a parameter, an executor: what a statement text with bound arguments does.
\<close>


section \<open>Executors\<close>

datatype sql_value = VNull | VBool bool | VInt int | VFloat "64 word" | VText string | VTime int

record sql_rows =
  Columns :: "string list"
  Rows :: "sql_value list list"
  RowsErr :: "error option"

text \<open>\<open>Exec\<close> gives an error, or a result whose \<open>RowsAffected\<close> is an error or a number.  \<open>text_of\<close> is the text form of
  values that are no text.\<close>

record 'd executor =
  Exec :: "string \<Rightarrow> sql_value list \<Rightarrow> 'd \<Rightarrow> (error + (error + int)) \<times> 'd"
  Query :: "string \<Rightarrow> sql_value list \<Rightarrow> 'd \<Rightarrow> error + sql_rows"
  text_of :: "sql_value \<Rightarrow> string"

text \<open>\<open>QueryRow\<close>: the first row, \<^const>\<open>None\<close> for \<open>sql.ErrNoRows\<close>.\<close>

definition QueryRow :: "'d executor \<Rightarrow> string \<Rightarrow> sql_value list \<Rightarrow> 'd \<Rightarrow> error + sql_value list option" where
  "QueryRow ex q args d =
     (case Query ex q args d of
        Inl e \<Rightarrow> Inl e
      | Inr rs \<Rightarrow> (case Rows rs of
           row # _ \<Rightarrow> Inr (Some row)
         | [] \<Rightarrow> (case RowsErr rs of Some e \<Rightarrow> Inl e | None \<Rightarrow> Inr None)))"

text \<open>\<open>Scan\<close> into Go variables.\<close>

definition scan_text :: "'d executor \<Rightarrow> sql_value \<Rightarrow> string option" where
  "scan_text ex v = (case v of VNull \<Rightarrow> None | VText s \<Rightarrow> Some s | _ \<Rightarrow> Some (text_of ex v))"

definition scan_int64 :: "'d executor \<Rightarrow> sql_value \<Rightarrow> int option" where
  "scan_int64 ex v = (case v of VInt i \<Rightarrow> Some i | _ \<Rightarrow> Option.bind (scan_text ex v) ParseInt)"

definition scan_time :: "sql_value \<Rightarrow> int option" where
  "scan_time v = (case v of VTime t \<Rightarrow> Some t | _ \<Rightarrow> None)"

definition scan_null :: "(sql_value \<Rightarrow> 'a option) \<Rightarrow> sql_value \<Rightarrow> 'a option option" where
  "scan_null scan v = (if v = VNull then Some None else map_option Some (scan v))"


section \<open>Dialects\<close>

datatype column_type = ColInteger | ColText | ColDatetime | ColJSONB

record 'd dialect =
  Rebind :: "string \<Rightarrow> string"
  ColumnTypeSQL :: "column_type \<Rightarrow> string"
  NowExpr :: string
  DefaultNowExpr :: string
  DropTableSuffix :: string
  AutoIncrPKSQL :: string
  AddColumnClause :: string
  SkipAddColumn :: "'d executor \<Rightarrow> string \<Rightarrow> string \<Rightarrow> 'd \<Rightarrow> error + bool"
  SupportsUniqueInAddColumn :: bool
  DropColumnClause :: string
  SkipDropColumn :: "'d executor \<Rightarrow> string \<Rightarrow> string \<Rightarrow> 'd \<Rightarrow> error + bool"

text \<open>\<open>RebindDollar\<close> goes over the runes of the text: \<open>n\<close> placeholders so far, \<open>lit\<close> inside a literal.\<close>

fun rebind :: "nat \<Rightarrow> bool \<Rightarrow> (bool \<times> string) list \<Rightarrow> string" where
  "rebind n lit [] = []"
| "rebind n lit ((ok, r) # rs) =
     (if ok \<and> r = [CHR 0x27] then r @ rebind n (\<not> lit) rs
      else if ok \<and> r = ''?'' \<and> \<not> lit then CHR ''$'' # dec_nat (Suc n) @ rebind (Suc n) lit rs
      else (if ok then r else RuneError) @ rebind n lit rs)"

definition RebindDollar :: "string \<Rightarrow> string" where
  "RebindDollar query = rebind 0 False (runes query)"

fun postgres_ColumnType :: "column_type \<Rightarrow> string" where
  "postgres_ColumnType ColInteger = ''BIGINT''"
| "postgres_ColumnType ColText = ''TEXT''"
| "postgres_ColumnType ColDatetime = ''TIMESTAMPTZ''"
| "postgres_ColumnType ColJSONB = ''JSONB''"

definition postgresDialect :: "'d dialect" where
  "postgresDialect =
     \<lparr>Rebind = RebindDollar, ColumnTypeSQL = postgres_ColumnType, NowExpr = ''now()'', DefaultNowExpr = ''now()'',
      DropTableSuffix = '' CASCADE'', AutoIncrPKSQL = ''BIGSERIAL PRIMARY KEY'',
      AddColumnClause = ''ADD COLUMN IF NOT EXISTS '', SkipAddColumn = (\<lambda>_ _ _ _. Inr False),
      SupportsUniqueInAddColumn = True, DropColumnClause = ''DROP COLUMN IF EXISTS '',
      SkipDropColumn = (\<lambda>_ _ _ _. Inr False)\<rparr>"

fun sqlite_ColumnType :: "column_type \<Rightarrow> string" where
  "sqlite_ColumnType ColInteger = ''INTEGER''"
| "sqlite_ColumnType ColText = ''TEXT''"
| "sqlite_ColumnType ColDatetime = ''DATETIME''"
| "sqlite_ColumnType ColJSONB = ''TEXT''"

text \<open>The loop over \<open>PRAGMA table_info\<close>: \<^term>\<open>Inr True\<close> when a row has the name of the column.\<close>

fun has_column :: "'d executor \<Rightarrow> string \<Rightarrow> sql_value list list \<Rightarrow> error option \<Rightarrow> error + bool" where
  "has_column ex column [] e = (case e of Some err \<Rightarrow> Inl err | None \<Rightarrow> Inr False)"
| "has_column ex column (row # rs) e =
     (case row of
        [cid, name, ctype, notnull, dflt, pk] \<Rightarrow>
          (case (scan_int64 ex cid, scan_text ex name, scan_text ex ctype, scan_int64 ex notnull, scan_int64 ex pk) of
             (Some _, Some n, Some _, Some _, Some _) \<Rightarrow> if n = column then Inr True else has_column ex column rs e
           | _ \<Rightarrow> Inl ErrOther)
      | _ \<Rightarrow> Inl ErrOther)"

definition table_has :: "'d executor \<Rightarrow> string \<Rightarrow> string \<Rightarrow> 'd \<Rightarrow> error + bool" where
  "table_has ex table column d =
     (case Query ex (''PRAGMA table_info('' @ table @ '')'') [] d of
        Inl e \<Rightarrow> Inl e
      | Inr rs \<Rightarrow> has_column ex column (Rows rs) (RowsErr rs))"

definition sqlite_SkipAddColumn :: "'d executor \<Rightarrow> string \<Rightarrow> string \<Rightarrow> 'd \<Rightarrow> error + bool" where
  "sqlite_SkipAddColumn ex table column d = table_has ex table column d"

definition sqlite_SkipDropColumn :: "'d executor \<Rightarrow> string \<Rightarrow> string \<Rightarrow> 'd \<Rightarrow> error + bool" where
  "sqlite_SkipDropColumn ex table column d = map_sum id Not (table_has ex table column d)"

definition sqliteDialect :: "'d dialect" where
  "sqliteDialect =
     \<lparr>Rebind = (\<lambda>query. query), ColumnTypeSQL = sqlite_ColumnType,
      NowExpr = ''datetime('' @ [CHR 0x27] @ ''now'' @ [CHR 0x27] @ '')'',
      DefaultNowExpr = ''(datetime('' @ [CHR 0x27] @ ''now'' @ [CHR 0x27] @ ''))'',
      DropTableSuffix = [], AutoIncrPKSQL = ''INTEGER PRIMARY KEY AUTOINCREMENT'', AddColumnClause = ''ADD COLUMN '',
      SkipAddColumn = sqlite_SkipAddColumn, SupportsUniqueInAddColumn = False, DropColumnClause = ''DROP COLUMN '',
      SkipDropColumn = sqlite_SkipDropColumn\<rparr>"

definition sqlite_pragmas :: "string list" where
  "sqlite_pragmas = [''PRAGMA foreign_keys = ON'', ''PRAGMA journal_mode = WAL'']"

text \<open>Statements in a row, up to the first error.\<close>

fun exec_all :: "'d executor \<Rightarrow> string list \<Rightarrow> 'd \<Rightarrow> error option \<times> 'd" where
  "exec_all ex [] d = (None, d)"
| "exec_all ex (q # qs) d =
     (case Exec ex q [] d of (Inl e, d') \<Rightarrow> (Some e, d') | (Inr _, d') \<Rightarrow> exec_all ex qs d')"


section \<open>Identifiers\<close>

definition ident_start :: "char \<Rightarrow> bool" where
  "ident_start c \<longleftrightarrow> (let n = code c in 65 \<le> n \<and> n \<le> 90 \<or> 97 \<le> n \<and> n \<le> 122 \<or> n = 95)"

definition ident_char :: "char \<Rightarrow> bool" where
  "ident_char c \<longleftrightarrow> ident_start c \<or> 48 \<le> code c \<and> code c \<le> 57"

definition validateIdentifier :: "string \<Rightarrow> bool" where
  "validateIdentifier name \<longleftrightarrow> (case name of c # cs \<Rightarrow> ident_start c \<and> (\<forall>x \<in> set cs. ident_char x) | [] \<Rightarrow> False)"


section \<open>Queries\<close>

record where_clause =
  wc_column :: string
  wc_operator :: string
  wc_value :: sql_value

record query =
  tableName :: string
  wheres :: "where_clause list"

definition Table :: "string \<Rightarrow> query" where
  "Table name = \<lparr>tableName = name, wheres = []\<rparr>"

definition where_op :: "query \<Rightarrow> string \<Rightarrow> string \<Rightarrow> sql_value \<Rightarrow> query" where
  "where_op q column operator v =
     q\<lparr>wheres := wheres q @ [\<lparr>wc_column = column, wc_operator = operator, wc_value = v\<rparr>]\<rparr>"

definition Where :: "query \<Rightarrow> string \<Rightarrow> sql_value \<Rightarrow> query" where
  "Where q column v = where_op q column ''='' v"

definition WhereLessThan :: "query \<Rightarrow> string \<Rightarrow> sql_value \<Rightarrow> query" where
  "WhereLessThan q column v = where_op q column ''<'' v"

definition is_null_test :: "where_clause \<Rightarrow> bool" where
  "is_null_test w \<longleftrightarrow> wc_value w = VNull \<and> wc_operator w = ''=''"

definition where_part :: "where_clause \<Rightarrow> string" where
  "where_part w =
     (if is_null_test w then wc_column w @ '' IS NULL'' else wc_column w @ '' '' @ wc_operator w @ '' ?'')"

definition where_args :: "where_clause list \<Rightarrow> sql_value list" where
  "where_args ws = map wc_value (filter (\<lambda>w. \<not> is_null_test w) ws)"

text \<open>\<^const>\<open>None\<close> is the error for a column name that is no identifier.\<close>

definition buildWhere :: "query \<Rightarrow> (string \<times> sql_value list) option" where
  "buildWhere q =
     (if wheres q = [] then Some ([], [])
      else if \<exists>w \<in> set (wheres q). \<not> validateIdentifier (wc_column w) then None
      else Some ('' WHERE '' @ join '' AND '' (map where_part (wheres q)), where_args (wheres q)))"

type_synonym statement = "string \<times> sql_value list"

text \<open>The statement of an operation, before rebinding.  A Go map is a list of its entries, in the order of the
  iteration.\<close>

definition insert_stmt :: "query \<Rightarrow> (string \<times> sql_value) list \<Rightarrow> statement option" where
  "insert_stmt q data =
     (if \<not> validateIdentifier (tableName q) \<or> (\<exists>c \<in> set (map fst data). \<not> validateIdentifier c) then None
      else Some (''INSERT INTO '' @ tableName q @ '' ('' @ join '', '' (map fst data) @ '') VALUES ('' @
        join '', '' (map (\<lambda>_. ''?'') data) @ '')'', map snd data))"

definition with_where :: "query \<Rightarrow> string \<Rightarrow> sql_value list \<Rightarrow> string \<Rightarrow> statement option" where
  "with_where q text vals tail =
     (case buildWhere q of None \<Rightarrow> None | Some (whereSQL, whereVals) \<Rightarrow> Some (text @ whereSQL @ tail, vals @ whereVals))"

definition update_stmt :: "query \<Rightarrow> (string \<times> sql_value) list \<Rightarrow> statement option" where
  "update_stmt q data =
     (if \<not> validateIdentifier (tableName q) \<or> (\<exists>c \<in> set (map fst data). \<not> validateIdentifier c) then None
      else with_where q (''UPDATE '' @ tableName q @ '' SET '' @ join '', '' (map (\<lambda>(c, _). c @ '' = ?'') data))
        (map snd data) [])"

definition increment_stmt :: "query \<Rightarrow> string \<Rightarrow> int \<Rightarrow> statement option" where
  "increment_stmt q column delta =
     (if \<not> validateIdentifier (tableName q) \<or> \<not> validateIdentifier column then None
      else with_where q (''UPDATE '' @ tableName q @ '' SET '' @ column @ '' = '' @ column @ '' + ?'') [VInt delta] [])"

definition table_stmt :: "query \<Rightarrow> string \<Rightarrow> string \<Rightarrow> statement option" where
  "table_stmt q text tail =
     (if \<not> validateIdentifier (tableName q) then None else with_where q (text @ tableName q) [] tail)"

definition delete_stmt :: "query \<Rightarrow> statement option" where
  "delete_stmt q = table_stmt q ''DELETE FROM '' []"

definition first_stmt :: "query \<Rightarrow> statement option" where
  "first_stmt q = table_stmt q ''SELECT * FROM '' '' LIMIT 1''"

definition get_stmt :: "query \<Rightarrow> statement option" where
  "get_stmt q = table_stmt q ''SELECT * FROM '' []"

definition count_stmt :: "query \<Rightarrow> statement option" where
  "count_stmt q = table_stmt q ''SELECT COUNT(*) FROM '' []"


section \<open>Execution\<close>

definition run_exec :: "'d dialect \<Rightarrow> 'd executor \<Rightarrow> statement option \<Rightarrow> 'd \<Rightarrow> (error + (error + int)) \<times> 'd" where
  "run_exec dia ex s d = (case s of None \<Rightarrow> (Inl ErrOther, d) | Some (q, vals) \<Rightarrow> Exec ex (Rebind dia q) vals d)"

definition run_query :: "'d dialect \<Rightarrow> 'd executor \<Rightarrow> statement option \<Rightarrow> 'd \<Rightarrow> error + sql_rows" where
  "run_query dia ex s d = (case s of None \<Rightarrow> Inl ErrOther | Some (q, vals) \<Rightarrow> Query ex (Rebind dia q) vals d)"

definition affected :: "(error + (error + int)) \<times> 'd \<Rightarrow> (error + int) \<times> 'd" where
  "affected r = (case r of (Inl e, d) \<Rightarrow> (Inl e, d) | (Inr n, d) \<Rightarrow> (n, d))"

definition Insert :: "'d dialect \<Rightarrow> 'd executor \<Rightarrow> query \<Rightarrow> (string \<times> sql_value) list \<Rightarrow> 'd \<Rightarrow> error option \<times> 'd" where
  "Insert dia ex q data d =
     (case run_exec dia ex (insert_stmt q data) d of (Inl e, d') \<Rightarrow> (Some e, d') | (Inr _, d') \<Rightarrow> (None, d'))"

definition Update :: "'d dialect \<Rightarrow> 'd executor \<Rightarrow> query \<Rightarrow> (string \<times> sql_value) list \<Rightarrow> 'd \<Rightarrow> (error + int) \<times> 'd" where
  "Update dia ex q data d = affected (run_exec dia ex (update_stmt q data) d)"

definition IncrementBy :: "'d dialect \<Rightarrow> 'd executor \<Rightarrow> query \<Rightarrow> string \<Rightarrow> int \<Rightarrow> 'd \<Rightarrow> (error + int) \<times> 'd" where
  "IncrementBy dia ex q column delta d = affected (run_exec dia ex (increment_stmt q column delta) d)"

definition DeleteRows :: "'d dialect \<Rightarrow> 'd executor \<Rightarrow> query \<Rightarrow> 'd \<Rightarrow> (error + int) \<times> 'd" where
  "DeleteRows dia ex q d = affected (run_exec dia ex (delete_stmt q) d)"

text \<open>A row as a map: of columns with the same name the last one counts.\<close>

fun scan_row :: "string list \<Rightarrow> sql_value list \<Rightarrow> sql_value gomap option" where
  "scan_row cols vals =
     (if length cols \<noteq> length vals then None
      else Some (fold (\<lambda>(c, v) m. AList.update c v m) (zip cols vals) []))"

definition scanRows :: "sql_rows \<Rightarrow> error + sql_value gomap list" where
  "scanRows rs =
     (case those (map (scan_row (Columns rs)) (Rows rs)) of
        None \<Rightarrow> Inl ErrOther
      | Some ms \<Rightarrow> (case RowsErr rs of Some e \<Rightarrow> Inl e | None \<Rightarrow> Inr ms))"

definition Get_rows :: "'d dialect \<Rightarrow> 'd executor \<Rightarrow> query \<Rightarrow> 'd \<Rightarrow> error + sql_value gomap list" where
  "Get_rows dia ex q d = (case run_query dia ex (get_stmt q) d of Inl e \<Rightarrow> Inl e | Inr rs \<Rightarrow> scanRows rs)"

definition First_row :: "'d dialect \<Rightarrow> 'd executor \<Rightarrow> query \<Rightarrow> 'd \<Rightarrow> error + sql_value gomap option" where
  "First_row dia ex q d =
     (case run_query dia ex (first_stmt q) d of
        Inl e \<Rightarrow> Inl e
      | Inr rs \<Rightarrow> (case scanRows rs of
           Inl e \<Rightarrow> Inl e | Inr [] \<Rightarrow> Inr None | Inr (row # _) \<Rightarrow> Inr (Some row)))"

definition Count :: "'d dialect \<Rightarrow> 'd executor \<Rightarrow> query \<Rightarrow> 'd \<Rightarrow> error + int" where
  "Count dia ex q d =
     (case count_stmt q of
        None \<Rightarrow> Inl ErrOther
      | Some (text, vals) \<Rightarrow>
          (case QueryRow ex (Rebind dia text) vals d of
             Inl e \<Rightarrow> Inl e
           | Inr None \<Rightarrow> Inl ErrOther
           | Inr (Some row) \<Rightarrow>
               (case row of [v] \<Rightarrow> (case scan_int64 ex v of Some n \<Rightarrow> Inr n | None \<Rightarrow> Inl ErrOther) | _ \<Rightarrow> Inl ErrOther)))"



section \<open>Placeholders\<close>

text \<open>The placeholders of a text outside literals, and the texts whose placeholders can be numbered without
  ambiguity.\<close>

fun marks :: "bool \<Rightarrow> string \<Rightarrow> nat" where
  "marks lit [] = 0"
| "marks lit (c # cs) =
     (if c = CHR 0x27 then marks (\<not> lit) cs
      else if c = CHR ''?'' \<and> \<not> lit then Suc (marks lit cs) else marks lit cs)"

fun bindable :: "bool \<Rightarrow> string \<Rightarrow> bool" where
  "bindable lit [] = True"
| "bindable lit (c # cs) =
     (code c < 0x80 \<and>
      (if c = CHR 0x27 then bindable (\<not> lit) cs
       else (lit \<or> c \<noteq> CHR ''$'' \<and> (c = CHR ''?'' \<longrightarrow> cs = [] \<or> \<not> is_digit (hd cs))) \<and> bindable lit cs))"

text \<open>Back from numbered placeholders: their numerals, and the text with question marks.\<close>

function unbind :: "bool \<Rightarrow> string \<Rightarrow> string list \<times> string" where
  "unbind lit [] = ([], [])"
| "unbind lit (c # cs) =
     (if c = CHR 0x27 then apsnd ((#) c) (unbind (\<not> lit) cs)
      else if c = CHR ''$'' \<and> \<not> lit then
        map_prod ((#) (takeWhile is_digit cs)) ((#) (CHR ''?'')) (unbind lit (dropWhile is_digit cs))
      else apsnd ((#) c) (unbind lit cs))"
  by pat_completeness auto
termination
  by (relation "measure (\<lambda>(_, s). length s)") (auto simp: le_imp_less_Suc length_dropWhile_le)

lemma digits_before:
  assumes "\<And>c. c \<in> set ds \<Longrightarrow> is_digit c" and "s = [] \<or> \<not> is_digit (hd s)"
  shows "takeWhile is_digit (ds @ s) = ds" "dropWhile is_digit (ds @ s) = s"
proof -
  have "takeWhile is_digit s = []" "dropWhile is_digit s = s" using assms(2) by (cases s; simp)+
  then show "takeWhile is_digit (ds @ s) = ds" "dropWhile is_digit (ds @ s) = s"
    using assms(1) by (simp_all add: takeWhile_append dropWhile_append)
qed

lemma special_not_digit [simp]: "\<not> is_digit (CHR ''$'')" "\<not> is_digit (CHR 0x27)" "\<not> is_digit (CHR ''?'')"
  by (simp_all add: is_digit_def digit_value_def)

lemma rebind_starts:
  assumes "q = [] \<or> \<not> is_digit (hd q)"
  shows "rebind n lit (map (\<lambda>c. (True, [c])) q) = [] \<or> \<not> is_digit (hd (rebind n lit (map (\<lambda>c. (True, [c])) q)))"
  using assms by (cases q) auto

lemma unbind_rebind:
  "bindable lit q \<Longrightarrow>
    unbind lit (rebind n lit (map (\<lambda>c. (True, [c])) q)) = (map dec_nat [Suc n..<Suc (n + marks lit q)], q)"
proof (induction lit q arbitrary: n rule: marks.induct)
  case (2 lit c cs)
  consider "c = CHR 0x27" | "c = CHR ''?''" "\<not> lit" | "c \<noteq> CHR 0x27" "c \<noteq> CHR ''?'' \<or> lit" by blast
  then show ?case
  proof cases
    case 2
    have "cs = [] \<or> \<not> is_digit (hd cs)" using "2.prems" 2 by auto
    note start = digits_before [OF dec_nat_digits [of _ "Suc n"] rebind_starts [OF this, of "Suc n" False]]
    have "unbind lit (rebind (Suc n) lit (map (\<lambda>c. (True, [c])) cs)) =
        (map dec_nat [Suc (Suc n)..<Suc (Suc n + marks lit cs)], cs)"
      using "2.IH"(2) "2.prems" 2 by simp
    moreover have "[Suc n..<Suc (Suc (n + marks lit cs))] = Suc n # [Suc (Suc n)..<Suc (Suc (n + marks lit cs))]"
      by (rule upt_conv_Cons) simp
    ultimately show ?thesis using 2 by (simp add: start del: upt_Suc)
  next
    case 3
    have "\<not> (c = CHR ''$'' \<and> \<not> lit)" "bindable lit cs" using "2.prems" 3 by (auto split: if_splits)
    moreover have "unbind lit (rebind n lit (map (\<lambda>c. (True, [c])) cs)) = (map dec_nat [Suc n..<Suc (n + marks lit cs)], cs)"
      using "2.IH"(3) 3 calculation(2) by blast
    ultimately show ?thesis using 3 by (auto simp del: upt_Suc)
  qed (use "2.IH"(1) "2.prems" in \<open>simp del: upt_Suc\<close>)
qed simp

lemma bindable_ascii: "bindable lit q \<Longrightarrow> c \<in> set q \<Longrightarrow> code c < 0x80"
  by (induction lit q rule: bindable.induct) (auto split: if_splits)

lemma RebindDollar_unbind:
  assumes "bindable False q"
  shows "unbind False (RebindDollar q) = (map dec_nat [1..<Suc (marks False q)], q)"
  using unbind_rebind [OF assms, of 0] runes_all_ascii [of q] bindable_ascii [OF assms]
  by (simp add: RebindDollar_def del: upt_Suc)


section \<open>The statements of the builder\<close>

text \<open>The queries that clients can make, and the operations on them.\<close>

inductive built :: "query \<Rightarrow> bool" where
  built_Table: "built (Table name)"
| built_Where: "built q \<Longrightarrow> built (Where q column v)"
| built_Less: "built q \<Longrightarrow> built (WhereLessThan q column v)"

datatype operation = OpInsert "(string \<times> sql_value) list" | OpUpdate "(string \<times> sql_value) list"
  | OpIncrement string int | OpDelete | OpFirst | OpGet | OpCount

fun op_stmt :: "operation \<Rightarrow> query \<Rightarrow> statement option" where
  "op_stmt (OpInsert data) q = insert_stmt q data"
| "op_stmt (OpUpdate data) q = update_stmt q data"
| "op_stmt (OpIncrement column delta) q = increment_stmt q column delta"
| "op_stmt OpDelete q = delete_stmt q"
| "op_stmt OpFirst q = first_stmt q"
| "op_stmt OpGet q = get_stmt q"
| "op_stmt OpCount q = count_stmt q"

lemma built_operators: "built q \<Longrightarrow> w \<in> set (wheres q) \<Longrightarrow> wc_operator w \<in> {''='', ''<''}"
  by (induction rule: built.induct) (auto simp: Table_def Where_def WhereLessThan_def where_op_def)

text \<open>Characters that neither quote, nor bind, nor end a statement, nor begin a comment.\<close>

definition inert :: "char \<Rightarrow> bool" where
  "inert c \<longleftrightarrow> ident_char c \<or> c \<in> set '' ,()=<+*''"

lemma inert_facts:
  assumes "inert c"
  shows "c \<noteq> CHR 0x27" "c \<noteq> CHR ''$''" "c \<noteq> CHR ''?''" "code c < 0x80"
  using assms by (auto simp: inert_def ident_char_def ident_start_def Let_def)

text \<open>A piece of a statement with \<open>k\<close> placeholders, whatever follows it (but a digit).\<close>

definition no_digit :: "string \<Rightarrow> bool" where
  "no_digit s \<longleftrightarrow> s = [] \<or> \<not> is_digit (hd s)"

definition piece :: "string \<Rightarrow> nat \<Rightarrow> bool" where
  "piece p k \<longleftrightarrow> (\<forall>c \<in> set p. inert c \<or> c = CHR ''?'') \<and>
     (\<forall>s. no_digit s \<longrightarrow> bindable False s \<longrightarrow> bindable False (p @ s)) \<and> (\<forall>s. marks False (p @ s) = k + marks False s)"

lemma piece_inert: "\<forall>c \<in> set a. inert c \<Longrightarrow> piece r k \<Longrightarrow> piece (a @ r) k"
  by (induction a) (auto simp: piece_def inert_facts)

lemma piece_Nil [simp]: "piece [] 0"
  by (simp add: piece_def)

lemma piece_mark [simp]: "piece ''?'' (Suc 0)"
  by (simp add: piece_def no_digit_def)

lemma no_digit_append: "no_digit r \<Longrightarrow> no_digit s \<Longrightarrow> no_digit (r @ s)"
  by (cases r) (simp_all add: no_digit_def)

lemma pieceD:
  assumes "piece p k"
  shows "no_digit s \<Longrightarrow> bindable False s \<Longrightarrow> bindable False (p @ s)" "marks False (p @ s) = k + marks False s"
    "c \<in> set p \<Longrightarrow> inert c \<or> c = CHR ''?''"
  using assms by (simp_all add: piece_def)

lemma pieceI:
  assumes "\<And>c. c \<in> set p \<Longrightarrow> inert c \<or> c = CHR ''?''"
    and "\<And>s. no_digit s \<Longrightarrow> bindable False s \<Longrightarrow> bindable False (p @ s)" and "\<And>s. marks False (p @ s) = k + marks False s"
  shows "piece p k"
  using assms by (simp add: piece_def)

lemma piece_append:
  assumes "piece p k" and "piece r l" and "no_digit r"
  shows "piece (p @ r) (k + l)"
proof (rule pieceI)
  show "bindable False ((p @ r) @ s)" if "no_digit s" "bindable False s" for s
    using pieceD(1) [OF assms(1), of "r @ s"] pieceD(1) [OF assms(2) that] no_digit_append [OF assms(3) that(1)] by simp
qed (use pieceD(2,3) [OF assms(1)] pieceD(2,3) [OF assms(2)] in auto)

lemma piece_only: "\<forall>c \<in> set a. inert c \<Longrightarrow> piece a 0"
  using piece_inert [of a "[]" 0] by simp

lemma piece_join:
  assumes "\<forall>c \<in> set sep. inert c" and "sep \<noteq> []" and "\<not> is_digit (hd sep)" and "\<forall>x \<in> set xs. piece (f x) (k x)"
  shows "piece (join sep (map f xs)) (sum_list (map k xs))"
  using assms(4)
proof (induction xs)
  case (Cons x xs)
  show ?case
  proof (cases xs)
    case Nil
    then show ?thesis using Cons.prems by simp
  next
    case ys: (Cons y ys)
    have "piece (sep @ join sep (map f xs)) (sum_list (map k xs))"
      using piece_inert [OF assms(1)] Cons by simp
    moreover have "no_digit (sep @ join sep (map f xs))" using assms(2,3) by (simp add: no_digit_def)
    ultimately have "piece (f x @ sep @ join sep (map f xs)) (k x + sum_list (map k xs))"
      using piece_append [of "f x" "k x"] Cons.prems by simp
    then show ?thesis by (simp add: ys)
  qed
qed simp

lemma ident_inert: "validateIdentifier s \<Longrightarrow> \<forall>c \<in> set s. inert c"
  by (auto simp: validateIdentifier_def inert_def ident_char_def split: list.splits)

lemma inert_text:
  "\<forall>c \<in> set ''INSERT INTO ''. inert c" "\<forall>c \<in> set '' (''. inert c" "\<forall>c \<in> set '') VALUES (''. inert c"
  "\<forall>c \<in> set '', ''. inert c" "\<forall>c \<in> set '')''. inert c" "\<forall>c \<in> set '' WHERE ''. inert c" "\<forall>c \<in> set '' AND ''. inert c"
  "\<forall>c \<in> set '' IS NULL''. inert c" "\<forall>c \<in> set '' ''. inert c" "\<forall>c \<in> set '' = ''. inert c" "\<forall>c \<in> set '' + ''. inert c"
  "\<forall>c \<in> set ''UPDATE ''. inert c" "\<forall>c \<in> set '' SET ''. inert c" "\<forall>c \<in> set ''DELETE FROM ''. inert c"
  "\<forall>c \<in> set ''SELECT * FROM ''. inert c" "\<forall>c \<in> set '' LIMIT 1''. inert c" "\<forall>c \<in> set ''SELECT COUNT(*) FROM ''. inert c"
  "\<forall>c \<in> set ''=''. inert c" "\<forall>c \<in> set ''<''. inert c"
  by (simp_all add: inert_def ident_char_def ident_start_def)

lemma piece_where_part:
  assumes "validateIdentifier (wc_column w)" and "wc_operator w \<in> {''='', ''<''}"
  shows "piece (where_part w) (if is_null_test w then 0 else 1)"
proof (cases "is_null_test w")
  case True
  then show ?thesis
    using piece_inert [OF ident_inert [OF assms(1)]] piece_only [OF inert_text(8)] by (simp add: where_part_def)
next
  case False
  have "\<forall>c \<in> set (wc_operator w). inert c" using assms(2) inert_text(18,19) by auto
  then have "piece (wc_operator w @ '' '' @ ''?'') 1" using piece_inert [OF inert_text(9) piece_mark] piece_inert by simp
  then show ?thesis
    using False piece_inert [OF ident_inert [OF assms(1)] piece_inert [OF inert_text(9)]] by (simp add: where_part_def)
qed

lemma length_where_args: "length (where_args ws) = sum_list (map (\<lambda>w. if is_null_test w then 0 else 1) ws)"
  by (induction ws) (simp_all add: where_args_def)

text \<open>The condition of a query is a piece with as many placeholders as it has arguments.\<close>

lemma piece_buildWhere:
  assumes "built q" and "buildWhere q = Some (text, vals)"
  shows "piece text (length vals)" and "no_digit text"
proof -
  have "piece ('' WHERE '' @ join '' AND '' (map where_part (wheres q))) (length (where_args (wheres q)))"
    if "\<forall>w \<in> set (wheres q). validateIdentifier (wc_column w)"
  proof -
    have "\<forall>w \<in> set (wheres q). piece (where_part w) (if is_null_test w then 0 else 1)"
      using that piece_where_part built_operators [OF assms(1)] by blast
    then show ?thesis
      unfolding length_where_args
      by (intro piece_inert [OF inert_text(6)] piece_join inert_text) (simp_all add: is_digit_def digit_value_def)
  qed
  then show "piece text (length vals)" using assms(2) by (auto simp: buildWhere_def split: if_splits)
  show "no_digit text"
    using assms(2) by (auto simp: buildWhere_def no_digit_def is_digit_def digit_value_def split: if_splits)
qed


lemma piece_with_where:
  assumes "built q" and "with_where q p vals tail = Some (text, args)"
    and "piece p (length vals)" and "tail \<in> {[], '' LIMIT 1''}"
  shows "piece text (length args)"
proof -
  obtain w ws where w: "buildWhere q = Some (w, ws)" "text = p @ w @ tail" "args = vals @ ws"
    using assms(2) by (auto simp: with_where_def split: option.splits)
  have "piece tail 0" "no_digit tail"
    using assms(4) piece_only [OF inert_text(16)] by (auto simp: no_digit_def is_digit_def digit_value_def)
  then have "piece (w @ tail) (length ws)" "no_digit (w @ tail)"
    using piece_append [OF piece_buildWhere(1) [OF assms(1) w(1)]] no_digit_append [OF piece_buildWhere(2) [OF assms(1) w(1)]]
    by fastforce+
  then show ?thesis using piece_append [OF assms(3)] w(2,3) by fastforce
qed

lemma sum_list_ones: "sum_list (map (\<lambda>_. Suc 0) xs) = length xs"
  by (induction xs) simp_all

lemma piece_marks: "piece (join '', '' (map (\<lambda>_. ''?'') data)) (length data)"
  using piece_join [OF inert_text(4), of data "\<lambda>_. ''?''" "\<lambda>_. Suc 0"]
  by (simp add: sum_list_ones is_digit_def digit_value_def)

lemma join_inert:
  "\<forall>c \<in> set sep. inert c \<Longrightarrow> \<forall>s \<in> set xs. validateIdentifier s \<Longrightarrow> \<forall>c \<in> set (join sep xs). inert c"
  by (induction sep xs rule: join.induct) (auto dest: ident_inert)

lemmas piece_idents = join_inert [OF inert_text(4)]

lemma piece_insert:
  assumes "insert_stmt q data = Some (text, args)"
  shows "piece text (length args)"
proof -
  have ids: "validateIdentifier (tableName q)" "\<forall>c \<in> set (map fst data). validateIdentifier c"
    and body: "text = ''INSERT INTO '' @ tableName q @ '' ('' @ join '', '' (map fst data) @ '') VALUES ('' @
        join '', '' (map (\<lambda>_. ''?'') data) @ '')''" and args: "args = map snd data"
    using assms by (auto simp: insert_stmt_def split: if_splits)
  have tail: "piece (join '', '' (map (\<lambda>_. ''?'') data) @ '')'') (length data + 0)"
    using piece_append [OF piece_marks piece_only [OF inert_text(5)]] by (simp add: no_digit_def is_digit_def digit_value_def)
  show ?thesis
    using piece_inert [OF inert_text(1) piece_inert [OF ident_inert [OF ids(1)] piece_inert [OF inert_text(2)
      piece_inert [OF piece_idents [OF ids(2)] piece_inert [OF inert_text(3) tail]]]]]
    unfolding body args by (simp only: length_map add_0_right)
qed

lemma piece_set: "validateIdentifier c \<Longrightarrow> piece (c @ '' = ?'') (Suc 0)"
  using piece_inert [OF ident_inert piece_inert [OF inert_text(10) piece_mark], of c] by simp

lemma piece_update:
  assumes "built q" and "update_stmt q data = Some (text, args)"
  shows "piece text (length args)"
proof -
  have ids: "validateIdentifier (tableName q)" "\<forall>c \<in> set data. validateIdentifier (fst c)"
    and w: "with_where q (''UPDATE '' @ tableName q @ '' SET '' @ join '', '' (map (\<lambda>(c, _). c @ '' = ?'') data))
        (map snd data) [] = Some (text, args)"
    using assms(2) by (auto simp: update_stmt_def split: if_splits)
  have "piece (join '', '' (map (\<lambda>(c, _). c @ '' = ?'') data)) (sum_list (map (\<lambda>_. Suc 0) data))"
    using piece_join [OF inert_text(4), of data "\<lambda>(c, _). c @ '' = ?''" "\<lambda>_. Suc 0"] ids(2) piece_set
    by (simp add: is_digit_def digit_value_def split_beta)
  then have "piece (''UPDATE '' @ tableName q @ '' SET '' @ join '', '' (map (\<lambda>(c, _). c @ '' = ?'') data)) (length (map snd data))"
    unfolding sum_list_ones length_map by (intro piece_inert inert_text ident_inert [OF ids(1)])
  from piece_with_where [OF assms(1) w this] show ?thesis by simp
qed

lemma piece_increment:
  assumes "built q" and "increment_stmt q column delta = Some (text, args)"
  shows "piece text (length args)"
proof -
  have ids: "validateIdentifier (tableName q)" "validateIdentifier column"
    and w: "with_where q (''UPDATE '' @ tableName q @ '' SET '' @ column @ '' = '' @ column @ '' + ?'') [VInt delta] [] = Some (text, args)"
    using assms(2) by (auto simp: increment_stmt_def split: if_splits)
  have "piece (''UPDATE '' @ tableName q @ '' SET '' @ column @ '' = '' @ column @ '' + '' @ ''?'') (Suc 0)"
    by (intro piece_inert inert_text ident_inert [OF ids(1)] ident_inert [OF ids(2)] piece_mark)
  then have "piece (''UPDATE '' @ tableName q @ '' SET '' @ column @ '' = '' @ column @ '' + ?'') (length [VInt delta])" by simp
  from piece_with_where [OF assms(1) w this] show ?thesis by simp
qed

lemma piece_table:
  assumes "built q" and "table_stmt q p tail = Some (text, args)" and "\<forall>c \<in> set p. inert c" and "tail \<in> {[], '' LIMIT 1''}"
  shows "piece text (length args)"
proof -
  have id: "validateIdentifier (tableName q)" and w: "with_where q (p @ tableName q) [] tail = Some (text, args)"
    using assms(2) by (auto simp: table_stmt_def split: if_splits)
  have "piece (p @ tableName q) (length ([] :: sql_value list))"
    using piece_inert [OF assms(3) piece_only [OF ident_inert [OF id]]] by simp
  from piece_with_where [OF assms(1) w this assms(4)] show ?thesis .
qed

lemma piece_op:
  assumes "built q" and "op_stmt op q = Some (text, args)"
  shows "piece text (length args)"
  using assms piece_insert piece_update piece_increment piece_table inert_text
  by (cases op) (auto simp: delete_stmt_def first_stmt_def get_stmt_def count_stmt_def)

text \<open>Two queries that differ in bound values only.\<close>

definition same_shape :: "query \<Rightarrow> query \<Rightarrow> bool" where
  "same_shape q q' \<longleftrightarrow> tableName q = tableName q' \<and>
     map (\<lambda>w. (wc_column w, wc_operator w, is_null_test w)) (wheres q) =
     map (\<lambda>w. (wc_column w, wc_operator w, is_null_test w)) (wheres q')"

fun same_columns :: "operation \<Rightarrow> operation \<Rightarrow> bool" where
  "same_columns (OpInsert a) (OpInsert b) = (map fst a = map fst b)"
| "same_columns (OpUpdate a) (OpUpdate b) = (map fst a = map fst b)"
| "same_columns (OpIncrement c _) (OpIncrement c' _) = (c = c')"
| "same_columns a b = (a = b)"

lemma same_where:
  assumes "same_shape q q'"
  shows "map_option fst (buildWhere q) = map_option fst (buildWhere q')"
proof -
  let ?f = "\<lambda>w. (wc_column w, wc_operator w, is_null_test w)"
  have eq: "map ?f (wheres q) = map ?f (wheres q')" using assms by (simp add: same_shape_def)
  have part: "map where_part ws = map (\<lambda>(c, op, n). if n then c @ '' IS NULL'' else c @ '' '' @ op @ '' ?'') (map ?f ws)" for ws
    by (induction ws) (simp_all add: where_part_def)
  have parts: "map where_part (wheres q) = map where_part (wheres q')" by (simp only: part eq)
  have valid: "(\<forall>w \<in> set ws. validateIdentifier (wc_column w)) \<longleftrightarrow> (\<forall>x \<in> set (map ?f ws). validateIdentifier (fst x))" for ws by simp
  have "(\<forall>w \<in> set (wheres q). validateIdentifier (wc_column w)) \<longleftrightarrow> (\<forall>w \<in> set (wheres q'). validateIdentifier (wc_column w))"
    by (simp only: valid eq)
  moreover have "wheres q = [] \<longleftrightarrow> wheres q' = []" using arg_cong [OF eq, of length] by auto
  ultimately show ?thesis using parts by (auto simp: buildWhere_def)
qed

lemma same_with_where:
  assumes "same_shape q q'"
  shows "map_option fst (with_where q p vals tail) = map_option fst (with_where q' p vals' tail)"
  using same_where [OF assms] by (cases "buildWhere q"; cases "buildWhere q'") (auto simp: with_where_def)

lemma same_pieces:
  assumes "map fst data = map fst data'"
  shows "map (\<lambda>_. ''?'') data = map (\<lambda>_. ''?'') data'" "map (\<lambda>(c, _). c @ '' = ?'') data = map (\<lambda>(c, _). c @ '' = ?'') data'"
  using assms by (induction data data' rule: list_induct2') (auto simp: split_beta)

lemma same_text:
  assumes "same_shape q q'" and "same_columns op op'"
  shows "map_option fst (op_stmt op q) = map_option fst (op_stmt op' q')"
proof -
  have t: "tableName q = tableName q'" using assms(1) by (simp add: same_shape_def)
  show ?thesis
  proof (cases op)
    case (OpInsert data)
    with assms(2) obtain data' where d: "op' = OpInsert data'" "map fst data = map fst data'" by (cases op') auto
    show ?thesis
      unfolding OpInsert d(1) op_stmt.simps insert_stmt_def t d(2) same_pieces(1) [OF d(2)] by (simp del: set_map)
  next
    case (OpUpdate data)
    with assms(2) obtain data' where d: "op' = OpUpdate data'" "map fst data = map fst data'" by (cases op') auto
    show ?thesis
      unfolding OpUpdate d(1) op_stmt.simps update_stmt_def t d(2) same_pieces(2) [OF d(2)]
      using same_with_where [OF assms(1)] by auto
  next
    case (OpIncrement c i)
    with assms(2) obtain i' where d: "op' = OpIncrement c i'" by (cases op') auto
    show ?thesis
      unfolding OpIncrement d op_stmt.simps increment_stmt_def t using same_with_where [OF assms(1)] by auto
  qed (use assms(2) t same_with_where [OF assms(1)] in
      \<open>cases op'; auto simp: delete_stmt_def first_stmt_def get_stmt_def count_stmt_def table_stmt_def\<close>)+
qed



section \<open>Properties\<close>

text \<open>C35.  The statements of the query builder are parameterised: the text has no quotation mark, no semicolon and no comment,
  as many placeholders as there are arguments, and it does not depend on the bound values, only on the names of table
  and columns, the operators, and which values are null.  Rebound for Postgres, the placeholders are numbered
  from 1 to the number of arguments in order, and nothing else changes.\<close>

theorem builder_parameterised:
  assumes "built q" and "op_stmt op q = Some (text, args)"
  shows "(\<forall>c \<in> set text. inert c \<or> c = CHR ''?'') \<and> marks False text = length args \<and>
    unbind False (RebindDollar text) = (map dec_nat [1..<Suc (length args)], text) \<and>
    (\<forall>q' op'. same_shape q q' \<and> same_columns op op' \<longrightarrow> (\<exists>args'. op_stmt op' q' = Some (text, args')))"
proof -
  note p = piece_op [OF assms]
  have m: "marks False text = length args" using pieceD(2) [OF p, of "[]"] by simp
  have "bindable False text" using pieceD(1) [OF p, of "[]"] by (simp add: no_digit_def)
  note r = RebindDollar_unbind [OF this]
  have "\<exists>args'. op_stmt op' q' = Some (text, args')" if "same_shape q q'" "same_columns op op'" for q' op'
    using same_text [OF that] assms(2) by (cases "op_stmt op' q'") auto
  then show ?thesis using pieceD(3) [OF p] m r by (simp only: m) blast
qed

definition example_query :: query where
  "example_query = WhereLessThan (Where (Table ''users'') ''name'' (VText ''x; DROP'')) ''level'' (VInt 10)"

lemma example_built: "built example_query"
  unfolding example_query_def by (intro built.intros)

lemma example_stmt: "op_stmt OpDelete example_query =
    Some (''DELETE FROM users WHERE name = ? AND level < ?'', [VText ''x; DROP'', VInt 10])"
  by code_simp

theorem builder_parameterised_witness:
  "unbind False (RebindDollar ''DELETE FROM users WHERE name = ? AND level < ?'') =
     ([''1'', ''2''], ''DELETE FROM users WHERE name = ? AND level < ?'')"
proof -
  have "map dec_nat [1..<Suc (length [VText ''x; DROP'', VInt 10])] = [''1'', ''2'']" by code_simp
  then show ?thesis
    using builder_parameterised [OF example_built example_stmt, THEN conjunct2, THEN conjunct2, THEN conjunct1] by (simp only:)
qed

end
