(* ===== verification/Schema.thy ===== *)
theory Schema
  imports Sql
begin

text \<open>
  Tables, columns and indexes (\<open>internal/domain/ports/schema.go\<close>), the statements that create and change them
  (the schema operations of \<open>internal/adapters/outbound/sql_db.go\<close>), and the initial schema
  (\<open>external/migrations/00000000000000_initial_schema.go\<close>).
\<close>


section \<open>Definitions of tables\<close>

text \<open>A default value is a string, an integer, or another value given by its text form.\<close>

datatype default_value = DText string | DInt int | DOther string

datatype default_type = DefaultNone | DefaultNow | DefaultLiteral default_value

record column =
  col_Name :: string
  col_Type :: column_type
  IsNotNull :: bool
  IsUnique :: bool
  IsPK :: bool
  IsAutoIncr :: bool
  DefType :: default_type

definition Col :: "string \<Rightarrow> column_type \<Rightarrow> column" where
  "Col name t = \<lparr>col_Name = name, col_Type = t, IsNotNull = False, IsUnique = False, IsPK = False, IsAutoIncr = False,
     DefType = DefaultNone\<rparr>"

definition NotNull :: "column \<Rightarrow> column" where
  "NotNull c = c\<lparr>IsNotNull := True\<rparr>"

definition Unique :: "column \<Rightarrow> column" where
  "Unique c = c\<lparr>IsUnique := True\<rparr>"

definition Default :: "default_value \<Rightarrow> column \<Rightarrow> column" where
  "Default v c = c\<lparr>DefType := DefaultLiteral v\<rparr>"

definition with_DefaultNow :: "column \<Rightarrow> column" where
  "with_DefaultNow c = c\<lparr>DefType := DefaultNow\<rparr>"

definition PrimaryKey :: "string \<Rightarrow> column" where
  "PrimaryKey name = (Col name ColInteger)\<lparr>IsPK := True, IsAutoIncr := True, IsNotNull := True\<rparr>"

definition UUID :: "string \<Rightarrow> column" where
  "UUID name = (Col name ColText)\<lparr>IsNotNull := True, IsUnique := True\<rparr>"

record foreign_key =
  fk_Column :: string
  RefTable :: string
  RefCol :: string
  OnDelete :: string

record range_check =
  rc_Column :: string
  rc_Min :: int
  rc_Max :: int

record in_check =
  ic_Column :: string
  ic_Values :: "string list"

record table_def =
  td_Name :: string
  td_Columns :: "column list"
  PrimaryKeys :: "string list"
  ForeignKeys :: "foreign_key list"
  RequireOneOf :: "string list"
  RangeChecks :: "range_check list"
  InChecks :: "in_check list"

record index_def =
  ix_Name :: string
  ix_Table :: string
  ix_Columns :: "string list"


section \<open>Statements\<close>

abbreviation quote :: char where
  "quote \<equiv> CHR 0x27"

abbreviation newline_tab :: string where
  "newline_tab \<equiv> [CHR 0x2C, CHR 0x0A, CHR 0x09]"

definition validOnDelete :: "string list" where
  "validOnDelete = [[], ''CASCADE'', ''SET NULL'', ''SET DEFAULT'', ''RESTRICT'', ''NO ACTION'']"

text \<open>\<open>strings.ReplaceAll(v, "'", "''")\<close>, between quotation marks.\<close>

definition string_literal :: "string \<Rightarrow> string" where
  "string_literal v = quote # concat (map (\<lambda>c. if c = quote then [quote, quote] else [c]) v) @ [quote]"

definition defaultSQL :: "'d dialect \<Rightarrow> column \<Rightarrow> string" where
  "defaultSQL dia col =
     (case DefType col of
        DefaultNow \<Rightarrow> DefaultNowExpr dia
      | DefaultLiteral (DText v) \<Rightarrow> string_literal v
      | DefaultLiteral (DInt i) \<Rightarrow> dec_int i
      | DefaultLiteral (DOther s) \<Rightarrow> s
      | DefaultNone \<Rightarrow> [])"

definition default_clause :: "'d dialect \<Rightarrow> column \<Rightarrow> string" where
  "default_clause dia col = (if DefType col = DefaultNone then [] else '' DEFAULT '' @ defaultSQL dia col)"

definition fk_valid :: "foreign_key \<Rightarrow> bool" where
  "fk_valid fk \<longleftrightarrow> validateIdentifier (fk_Column fk) \<and> validateIdentifier (RefTable fk) \<and> validateIdentifier (RefCol fk) \<and>
     OnDelete fk \<in> set validOnDelete"

definition rc_valid :: "range_check \<Rightarrow> bool" where
  "rc_valid rc \<longleftrightarrow> validateIdentifier (rc_Column rc) \<and> \<not> rc_Min rc > rc_Max rc"

definition ic_valid :: "in_check \<Rightarrow> bool" where
  "ic_valid ic \<longleftrightarrow> validateIdentifier (ic_Column ic) \<and> ic_Values ic \<noteq> [] \<and> (\<forall>v \<in> set (ic_Values ic). validateIdentifier v)"

definition table_valid :: "table_def \<Rightarrow> bool" where
  "table_valid def \<longleftrightarrow> validateIdentifier (td_Name def) \<and>
     (\<forall>col \<in> set (td_Columns def). validateIdentifier (col_Name col)) \<and> (\<forall>fk \<in> set (ForeignKeys def). fk_valid fk) \<and>
     (\<forall>pk \<in> set (PrimaryKeys def). validateIdentifier pk) \<and> (\<forall>col \<in> set (RequireOneOf def). validateIdentifier col) \<and>
     (\<forall>rc \<in> set (RangeChecks def). rc_valid rc) \<and> (\<forall>ic \<in> set (InChecks def). ic_valid ic)"

definition column_type_sql :: "'d dialect \<Rightarrow> bool \<Rightarrow> column \<Rightarrow> string" where
  "column_type_sql dia composite col =
     (if IsPK col \<and> IsAutoIncr col \<and> \<not> composite then AutoIncrPKSQL dia
      else ColumnTypeSQL dia (col_Type col) @ (if IsPK col \<and> \<not> composite then '' PRIMARY KEY'' else []) @
        (if IsNotNull col then '' NOT NULL'' else []))"

definition column_sql :: "'d dialect \<Rightarrow> bool \<Rightarrow> column \<Rightarrow> string" where
  "column_sql dia composite col =
     CHR 0x09 # col_Name col @ '' '' @ column_type_sql dia composite col @ (if IsUnique col then '' UNIQUE'' else []) @
     default_clause dia col"

definition pk_sql :: "string list \<Rightarrow> string" where
  "pk_sql pks = (if pks = [] then [] else newline_tab @ ''PRIMARY KEY ('' @ join '', '' pks @ '')'')"

definition fk_sql :: "foreign_key \<Rightarrow> string" where
  "fk_sql fk = newline_tab @ ''FOREIGN KEY ('' @ fk_Column fk @ '') REFERENCES '' @ RefTable fk @ ''('' @ RefCol fk @ '')'' @
     (if OnDelete fk = [] then [] else '' ON DELETE '' @ OnDelete fk)"

definition require_sql :: "string list \<Rightarrow> string" where
  "require_sql cols =
     (if cols = [] then []
      else newline_tab @ ''CHECK ('' @ join '' OR '' (map (\<lambda>col. col @ '' IS NOT NULL'') cols) @ '')'')"

definition rc_sql :: "range_check \<Rightarrow> string" where
  "rc_sql rc = newline_tab @ ''CHECK ('' @ rc_Column rc @ '' BETWEEN '' @ dec_int (rc_Min rc) @ '' AND '' @
     dec_int (rc_Max rc) @ '')''"

definition ic_sql :: "in_check \<Rightarrow> string" where
  "ic_sql ic = newline_tab @ ''CHECK ('' @ ic_Column ic @ '' IN ('' @ [quote] @
     join ([quote] @ '', '' @ [quote]) (ic_Values ic) @ [quote] @ ''))''"

definition create_table_sql :: "'d dialect \<Rightarrow> table_def \<Rightarrow> string" where
  "create_table_sql dia def =
     ''CREATE TABLE IF NOT EXISTS '' @ td_Name def @ '' ('' @ [CHR 0x0A] @
     join [CHR 0x2C, CHR 0x0A] (map (column_sql dia (PrimaryKeys def \<noteq> [])) (td_Columns def)) @
     pk_sql (PrimaryKeys def) @ concat (map fk_sql (ForeignKeys def)) @ require_sql (RequireOneOf def) @
     concat (map rc_sql (RangeChecks def)) @ concat (map ic_sql (InChecks def)) @ [CHR 0x0A] @ '')''"

definition exec_sql :: "'d executor \<Rightarrow> string \<Rightarrow> 'd \<Rightarrow> error option \<times> 'd" where
  "exec_sql ex q d = (case Exec ex q [] d of (Inl e, d') \<Rightarrow> (Some e, d') | (Inr _, d') \<Rightarrow> (None, d'))"

definition CreateTable :: "'d dialect \<Rightarrow> 'd executor \<Rightarrow> table_def \<Rightarrow> 'd \<Rightarrow> error option \<times> 'd" where
  "CreateTable dia ex def d =
     (if \<not> table_valid def then (Some ErrOther, d) else exec_sql ex (create_table_sql dia def) d)"

definition DropTable :: "'d dialect \<Rightarrow> 'd executor \<Rightarrow> string \<Rightarrow> 'd \<Rightarrow> error option \<times> 'd" where
  "DropTable dia ex name d =
     (if \<not> validateIdentifier name then (Some ErrOther, d)
      else exec_sql ex (''DROP TABLE IF EXISTS '' @ name @ DropTableSuffix dia) d)"

definition add_column_sql :: "'d dialect \<Rightarrow> string \<Rightarrow> column \<Rightarrow> string" where
  "add_column_sql dia table col =
     ''ALTER TABLE '' @ table @ '' '' @ AddColumnClause dia @ col_Name col @ '' '' @ ColumnTypeSQL dia (col_Type col) @
     (if IsNotNull col then '' NOT NULL'' else []) @
     (if IsUnique col \<and> SupportsUniqueInAddColumn dia then '' UNIQUE'' else []) @ default_clause dia col"

definition AddColumn :: "'d dialect \<Rightarrow> 'd executor \<Rightarrow> string \<Rightarrow> column \<Rightarrow> 'd \<Rightarrow> error option \<times> 'd" where
  "AddColumn dia ex table col d =
     (if \<not> validateIdentifier table \<or> \<not> validateIdentifier (col_Name col) then (Some ErrOther, d)
      else case SkipAddColumn dia ex table (col_Name col) d of
        Inl e \<Rightarrow> (Some e, d)
      | Inr skip \<Rightarrow> if skip then (None, d) else exec_sql ex (add_column_sql dia table col) d)"

definition DropColumn :: "'d dialect \<Rightarrow> 'd executor \<Rightarrow> string \<Rightarrow> string \<Rightarrow> 'd \<Rightarrow> error option \<times> 'd" where
  "DropColumn dia ex table column d =
     (if \<not> validateIdentifier table \<or> \<not> validateIdentifier column then (Some ErrOther, d)
      else case SkipDropColumn dia ex table column d of
        Inl e \<Rightarrow> (Some e, d)
      | Inr skip \<Rightarrow>
          if skip then (None, d)
          else exec_sql ex (''ALTER TABLE '' @ table @ '' '' @ DropColumnClause dia @ column) d)"

definition CreateIndex :: "'d executor \<Rightarrow> index_def \<Rightarrow> 'd \<Rightarrow> error option \<times> 'd" where
  "CreateIndex ex def d =
     (if \<not> validateIdentifier (ix_Name def) \<or> \<not> validateIdentifier (ix_Table def) \<or>
         (\<exists>col \<in> set (ix_Columns def). \<not> validateIdentifier col) then (Some ErrOther, d)
      else exec_sql ex (''CREATE INDEX IF NOT EXISTS '' @ ix_Name def @ '' ON '' @ ix_Table def @ ''('' @
        join '', '' (ix_Columns def) @ '')'') d)"

definition migrations_table_sql :: "'d dialect \<Rightarrow> string" where
  "migrations_table_sql dia =
     [CHR 0x0A, CHR 0x09, CHR 0x09] @ ''CREATE TABLE IF NOT EXISTS migrations ('' @
     [CHR 0x0A, CHR 0x09, CHR 0x09, CHR 0x09] @ ''id '' @ AutoIncrPKSQL dia @ '','' @
     [CHR 0x0A, CHR 0x09, CHR 0x09, CHR 0x09] @ ''name TEXT NOT NULL UNIQUE,'' @
     [CHR 0x0A, CHR 0x09, CHR 0x09, CHR 0x09] @ ''applied_at '' @ ColumnTypeSQL dia ColDatetime @ '' NOT NULL'' @
     [CHR 0x0A, CHR 0x09, CHR 0x09] @ '')'' @ [CHR 0x0A, CHR 0x09]"

definition ensureMigrationsTable :: "'d dialect \<Rightarrow> 'd executor \<Rightarrow> 'd \<Rightarrow> error option \<times> 'd" where
  "ensureMigrationsTable dia ex d = exec_sql ex (migrations_table_sql dia) d"


section \<open>The initial schema\<close>

definition plain_table :: "string \<Rightarrow> column list \<Rightarrow> table_def" where
  "plain_table name cols = \<lparr>td_Name = name, td_Columns = cols, PrimaryKeys = [], ForeignKeys = [], RequireOneOf = [],
     RangeChecks = [], InChecks = []\<rparr>"

definition applications_table :: table_def where
  "applications_table = plain_table ''applications'' [PrimaryKey ''id'', Unique (NotNull (Col ''name'' ColText))]"

definition app_reference :: foreign_key where
  "app_reference = \<lparr>fk_Column = ''app_id'', RefTable = ''applications'', RefCol = ''id'', OnDelete = ''CASCADE''\<rparr>"

definition application_attributes_table :: table_def where
  "application_attributes_table =
     (plain_table ''application_attributes''
        [NotNull (Col ''app_id'' ColInteger), NotNull (Col ''attr_name'' ColText), NotNull (Col ''value_json'' ColText)])
      \<lparr>PrimaryKeys := [''app_id'', ''attr_name''], ForeignKeys := [app_reference]\<rparr>"

definition player_attributes_table :: table_def where
  "player_attributes_table =
     (plain_table ''player_attributes''
        [NotNull (Col ''app_id'' ColInteger), NotNull (Col ''user_id'' ColText), NotNull (Col ''attr_name'' ColText),
         NotNull (Col ''value_json'' ColText)])
      \<lparr>PrimaryKeys := [''app_id'', ''user_id'', ''attr_name''], ForeignKeys := [app_reference]\<rparr>"

definition users_table :: table_def where
  "users_table = plain_table ''users''
     [PrimaryKey ''id'', UUID ''uuid'', Unique (NotNull (Col ''username'' ColText)), NotNull (Col ''password_hash'' ColText),
      Default (DInt 20) (NotNull (Col ''user_level'' ColInteger)), with_DefaultNow (NotNull (Col ''created_at'' ColDatetime))]"

definition bans_table :: table_def where
  "bans_table =
     (plain_table ''bans''
        [PrimaryKey ''id'', UUID ''uuid'', Col ''user_id'' ColInteger, Col ''ip_address'' ColText,
         Default (DText []) (NotNull (Col ''reason'' ColText)), Col ''expires_at'' ColDatetime, Col ''revoked_at'' ColDatetime,
         with_DefaultNow (NotNull (Col ''created_at'' ColDatetime))])
      \<lparr>ForeignKeys := [\<lparr>fk_Column = ''user_id'', RefTable = ''users'', RefCol = ''id'', OnDelete = ''CASCADE''\<rparr>],
       RequireOneOf := [''user_id'', ''ip_address'']\<rparr>"

definition ban_indexes :: "index_def list" where
  "ban_indexes =
     [\<lparr>ix_Name = ''idx_bans_user_id'', ix_Table = ''bans'', ix_Columns = [''user_id'']\<rparr>,
      \<lparr>ix_Name = ''idx_bans_ip_address'', ix_Table = ''bans'', ix_Columns = [''ip_address'']\<rparr>,
      \<lparr>ix_Name = ''idx_bans_expires_at'', ix_Table = ''bans'', ix_Columns = [''expires_at'']\<rparr>]"

fun steps :: "('d \<Rightarrow> error option \<times> 'd) list \<Rightarrow> 'd \<Rightarrow> error option \<times> 'd" where
  "steps [] d = (None, d)"
| "steps (f # fs) d = (case f d of (Some e, d') \<Rightarrow> (Some e, d') | (None, d') \<Rightarrow> steps fs d')"

definition initialSchema_Up :: "'d dialect \<Rightarrow> 'd executor \<Rightarrow> 'd \<Rightarrow> error option \<times> 'd" where
  "initialSchema_Up dia ex =
     steps (map (CreateTable dia ex)
       [applications_table, application_attributes_table, player_attributes_table, users_table, bans_table] @
       map (CreateIndex ex) ban_indexes)"



section \<open>Literals cannot be left\<close>

text \<open>How SQL reads a statement: the text outside of string literals, and the contents of the literals, where a
  doubled quotation mark stands for one.  \<^const>\<open>None\<close> is an open literal.\<close>

fun sql_out :: "string \<Rightarrow> (string \<times> string list) option"
  and sql_lit :: "string \<Rightarrow> string \<Rightarrow> (string \<times> string list) option" where
  "sql_out [] = Some ([], [])"
| "sql_out (c # cs) = (if c = quote then sql_lit [] cs else map_option (apfst ((#) c)) (sql_out cs))"
| "sql_lit acc [] = None"
| "sql_lit acc (c # cs) =
     (if c \<noteq> quote then sql_lit (acc @ [c]) cs
      else (case cs of
        [] \<Rightarrow> Some ([], [acc])
      | c' # cs' \<Rightarrow> if c' = quote then sql_lit (acc @ [quote]) cs' else map_option (apsnd ((#) acc)) (sql_out cs)))"

definition no_quote :: "string \<Rightarrow> bool" where
  "no_quote s \<longleftrightarrow> s = [] \<or> hd s \<noteq> quote"

text \<open>A fragment that reads as the text \<open>out\<close> with literals \<open>ls\<close>, whatever follows it (but a quotation mark).\<close>

definition frag :: "string \<Rightarrow> string \<Rightarrow> string list \<Rightarrow> bool" where
  "frag s out ls \<longleftrightarrow> (\<forall>r. no_quote r \<longrightarrow> sql_out (s @ r) = map_option (\<lambda>x. (out @ fst x, ls @ snd x)) (sql_out r))"

definition unquoted :: "string \<Rightarrow> bool" where
  "unquoted s \<longleftrightarrow> quote \<notin> set s"

lemma sql_out_unquoted: "unquoted a \<Longrightarrow> sql_out (a @ r) = map_option (apfst ((@) a)) (sql_out r)"
proof (induction a)
  case Nil
  then show ?case by (simp add: option.map_ident_strong apfst_def map_prod_def split_beta)
next
  case (Cons c a)
  then show ?case by (cases "sql_out r") (auto simp: unquoted_def)
qed

lemma frag_unquoted: "unquoted a \<Longrightarrow> frag s out ls \<Longrightarrow> frag (a @ s) (a @ out) ls"
  by (auto simp: frag_def sql_out_unquoted option.map_comp comp_def split_beta intro!: option.map_cong0)

lemma frag_Nil [simp]: "frag [] [] []"
  by (simp add: frag_def option.map_ident_strong split_beta)

lemma frag_only: "unquoted a \<Longrightarrow> frag a a []"
  using frag_unquoted [of a "[]" "[]" "[]"] by simp

lemma no_quote_Nil [simp]: "no_quote []"
  by (simp add: no_quote_def)

lemma no_quote_append: "no_quote a \<Longrightarrow> no_quote b \<Longrightarrow> no_quote (a @ b)"
  by (cases a) (simp_all add: no_quote_def)

lemma frag_append:
  assumes "frag a oa la" and "frag b ob lb" and "no_quote b"
  shows "frag (a @ b) (oa @ ob) (la @ lb)"
  unfolding frag_def
proof (intro allI impI)
  fix r assume r: "no_quote r"
  have "sql_out (a @ b @ r) = map_option (\<lambda>x. (oa @ fst x, la @ snd x)) (sql_out (b @ r))"
    using assms(1) no_quote_append [OF assms(3) r] by (simp add: frag_def)
  also have "sql_out (b @ r) = map_option (\<lambda>x. (ob @ fst x, lb @ snd x)) (sql_out r)" using assms(2) r by (simp add: frag_def)
  finally show "sql_out ((a @ b) @ r) = map_option (\<lambda>x. ((oa @ ob) @ fst x, (la @ lb) @ snd x)) (sql_out r)"
    by (simp add: option.map_comp comp_def split_beta)
qed

lemma sql_lit_escaped:
  assumes "no_quote r"
  shows "sql_lit acc (concat (map (\<lambda>c. if c = quote then [quote, quote] else [c]) v) @ quote # r) =
    map_option (apsnd ((#) (acc @ v))) (sql_out r)"
proof (induction v arbitrary: acc)
  case Nil
  show ?case using assms by (cases r) (simp_all add: no_quote_def)
next
  case (Cons c v)
  show ?case using Cons [of "acc @ [c]"] by (cases "c = quote") simp_all
qed

lemma frag_literal: "frag (string_literal v) [] [v]"
  unfolding frag_def string_literal_def
  using sql_lit_escaped [of _ "[]" v] by (simp add: apsnd_def map_prod_def case_prod_beta')

lemma unquoted_simps [simp]:
  "unquoted []" "unquoted (c # s) \<longleftrightarrow> c \<noteq> quote \<and> unquoted s" "unquoted (a @ b) \<longleftrightarrow> unquoted a \<and> unquoted b"
  by (auto simp: unquoted_def)

text \<open>The characters outside of literals: letters, digits, space and the punctuation of definitions, but no semicolon.\<close>

definition ddl_char :: "char \<Rightarrow> bool" where
  "ddl_char c \<longleftrightarrow> inert c \<or> c \<in> {CHR 0x09, CHR 0x0A, CHR ''-''}"

definition ddl :: "string \<Rightarrow> bool" where
  "ddl s \<longleftrightarrow> (\<forall>c \<in> set s. ddl_char c)"

lemma ddl_simps [simp]: "ddl []" "ddl (c # s) \<longleftrightarrow> ddl_char c \<and> ddl s" "ddl (a @ b) \<longleftrightarrow> ddl a \<and> ddl b"
  by (auto simp: ddl_def)

lemma ddl_unquoted: "ddl s \<Longrightarrow> unquoted s"
  using inert_facts(1) by (auto simp: ddl_def unquoted_def ddl_char_def)

lemma ddl_ident [intro]: "validateIdentifier s \<Longrightarrow> ddl s"
  using ident_inert [of s] by (simp add: ddl_def ddl_char_def)

lemma ddl_digit: "is_digit c \<Longrightarrow> ddl_char c"
  by (auto simp: is_digit_def digit_value_def ddl_char_def inert_def ident_char_def split: if_splits)

lemma ddl_dec_int [simp]: "ddl (dec_int i)"
proof -
  have "ddl (dec_nat n)" for n using dec_nat_digits [of _ n] by (simp add: ddl_def ddl_digit)
  then show ?thesis by (simp add: dec_int_def ddl_char_def)
qed

lemma ddl_join: "ddl sep \<Longrightarrow> \<forall>x \<in> set xs. ddl x \<Longrightarrow> ddl (join sep xs)"
  by (induction sep xs rule: join.induct) auto

definition code_frag :: "string \<Rightarrow> string list \<Rightarrow> bool" where
  "code_frag s ls \<longleftrightarrow> (\<exists>out. frag s out ls \<and> ddl out)"

lemma cf_ddl: "ddl a \<Longrightarrow> code_frag s ls \<Longrightarrow> code_frag (a @ s) ls"
  using frag_unquoted [OF ddl_unquoted] by (fastforce simp: code_frag_def)

lemma cf_only: "ddl a \<Longrightarrow> code_frag a []"
  using frag_only [OF ddl_unquoted] by (auto simp: code_frag_def)

lemma cf_append: "code_frag a la \<Longrightarrow> code_frag b lb \<Longrightarrow> no_quote b \<Longrightarrow> code_frag (a @ b) (la @ lb)"
  using frag_append by (fastforce simp: code_frag_def)

lemma cf_literal: "code_frag (string_literal v) [v]"
  using frag_literal by (auto simp: code_frag_def intro!: exI [of _ "[]"])

lemma cf_concat:
  assumes "\<And>x. x \<in> set xs \<Longrightarrow> code_frag (f x) (ls x) \<and> no_quote (f x)"
  shows "code_frag (concat (map f xs)) (concat (map ls xs)) \<and> no_quote (concat (map f xs))"
  using assms by (induction xs) (auto intro: cf_append no_quote_append cf_only)

lemma cf_join:
  assumes "ddl sep" and "sep \<noteq> []" and "\<And>x. x \<in> set xs \<Longrightarrow> code_frag (f x) (ls x)"
  shows "code_frag (join sep (map f xs)) (concat (map ls xs))"
  using assms(3)
proof (induction xs)
  case (Cons x xs)
  show ?case
  proof (cases xs)
    case Nil
    then show ?thesis using Cons.prems by simp
  next
    case ys: (Cons y ys)
    have "code_frag (sep @ join sep (map f xs)) (concat (map ls xs))"
      using cf_ddl [OF assms(1)] Cons by simp
    moreover have "no_quote (sep @ join sep (map f xs))"
      using ddl_unquoted [OF assms(1)] assms(2) by (cases sep) (auto simp: no_quote_def)
    ultimately have "code_frag (f x @ sep @ join sep (map f xs)) (ls x @ concat (map ls xs))"
      using cf_append Cons.prems by simp
    then show ?thesis by (simp add: ys)
  qed
qed (simp add: cf_only)

lemma ddl_no_quote: "ddl a \<Longrightarrow> no_quote b \<Longrightarrow> no_quote (a @ b)"
  using ddl_unquoted [of a] by (cases a) (auto simp: no_quote_def)

text \<open>The fixed texts.\<close>

lemmas ddl_chars = ddl_char_def inert_def ident_char_def ident_start_def

lemma ddl_texts [simp]:
  "ddl ''CREATE TABLE IF NOT EXISTS ''" "ddl '' PRIMARY KEY''" "ddl '' NOT NULL''" "ddl '' UNIQUE''" "ddl '' DEFAULT ''"
  "ddl newline_tab" "ddl ''PRIMARY KEY (''" "ddl ''FOREIGN KEY (''" "ddl '') REFERENCES ''" "ddl '' ON DELETE ''" "ddl ''CHECK (''"
  "ddl '' OR ''" "ddl '' IS NOT NULL''" "ddl '' BETWEEN ''" "ddl '' AND ''" "ddl '' IN (''" "ddl ''))''" "ddl '')''" "ddl ''(''" "ddl '', ''"
  "ddl '' ''" "ddl '' (''" "ddl [CHR 0x0A]" "ddl [CHR 0x09]" "ddl [CHR 0x2C, CHR 0x0A]"
  by (simp_all add: ddl_chars)

lemma ddl_OnDelete: "s \<in> set validOnDelete \<Longrightarrow> ddl s"
  by (auto simp: validOnDelete_def ddl_chars)


definition now_literals :: "'d dialect \<Rightarrow> string list" where
  "now_literals dia = (case sql_out (DefaultNowExpr dia) of Some (_, ls) \<Rightarrow> ls | None \<Rightarrow> [])"

definition default_literals :: "'d dialect \<Rightarrow> column \<Rightarrow> string list" where
  "default_literals dia col =
     (case DefType col of DefaultNow \<Rightarrow> now_literals dia | DefaultLiteral (DText v) \<Rightarrow> [v] | _ \<Rightarrow> [])"

definition table_literals :: "'d dialect \<Rightarrow> table_def \<Rightarrow> string list" where
  "table_literals dia def =
     concat (map (default_literals dia) (td_Columns def)) @ concat (map ic_Values (InChecks def))"

definition plain_default :: "column \<Rightarrow> bool" where
  "plain_default col \<longleftrightarrow> (\<forall>s. DefType col = DefaultLiteral (DOther s) \<longrightarrow> ddl s)"

definition dialect_ok :: "'d dialect \<Rightarrow> bool" where
  "dialect_ok dia \<longleftrightarrow> ddl (AutoIncrPKSQL dia) \<and> (\<forall>t. ddl (ColumnTypeSQL dia t)) \<and>
     code_frag (DefaultNowExpr dia) (now_literals dia) \<and> ddl (AddColumnClause dia)"

lemma dialects_ok: "dialect_ok postgresDialect" "dialect_ok sqliteDialect"
proof -
  have "ddl (postgres_ColumnType t)" "ddl (sqlite_ColumnType t)" for t by (cases t; simp add: ddl_chars)+
  moreover have "code_frag ''now()'' []" by (rule cf_only) (simp add: ddl_chars)
  moreover have "code_frag (''(datetime('' @ string_literal ''now'' @ ''))'') ([''now''] @ [])"
    by (intro cf_ddl cf_append cf_literal cf_only) (simp_all add: ddl_chars no_quote_def)
  ultimately show "dialect_ok postgresDialect" "dialect_ok sqliteDialect"
    by (simp_all add: dialect_ok_def postgresDialect_def sqliteDialect_def now_literals_def string_literal_def ddl_chars)
qed

lemma cf_default:
  assumes "dialect_ok dia" and "plain_default col"
  shows "code_frag (default_clause dia col) (default_literals dia col) \<and> no_quote (default_clause dia col)"
proof -
  have "code_frag (defaultSQL dia col) (default_literals dia col)" if "DefType col \<noteq> DefaultNone"
    using assms that cf_literal cf_only
    by (auto simp: defaultSQL_def default_literals_def plain_default_def dialect_ok_def split: default_type.splits default_value.splits)
  then show ?thesis
    using cf_ddl [OF ddl_texts(5)] by (auto simp: default_clause_def no_quote_def default_literals_def cf_only)
qed

lemma no_quote_if: "no_quote a \<Longrightarrow> no_quote (if b then a else [])"
  by simp

lemma cf_column:
  assumes "dialect_ok dia" and "plain_default col" and "validateIdentifier (col_Name col)"
  shows "code_frag (column_sql dia composite col) (default_literals dia col)"
proof -
  have t: "ddl (column_type_sql dia composite col)" using assms(1) by (simp add: column_type_sql_def dialect_ok_def ddl_chars)
  have "ddl ([CHR 0x09] @ col_Name col @ '' '' @ column_type_sql dia composite col @ (if IsUnique col then '' UNIQUE'' else []))"
    using t ddl_ident [OF assms(3)] by (simp add: ddl_chars)
  from cf_ddl [OF this conjunct1 [OF cf_default [OF assms(1,2)]]] show ?thesis by (simp add: column_sql_def)
qed

lemma ddl_clauses:
  "\<forall>pk \<in> set pks. validateIdentifier pk \<Longrightarrow> ddl (pk_sql pks)"
  "fk_valid fk \<Longrightarrow> ddl (fk_sql fk)"
  "\<forall>col \<in> set cols. validateIdentifier col \<Longrightarrow> ddl (require_sql cols)"
  "rc_valid rc \<Longrightarrow> ddl (rc_sql rc)"
proof -
  show "ddl (pk_sql pks)" if "\<forall>pk \<in> set pks. validateIdentifier pk"
    using ddl_join [OF ddl_texts(20), of pks] that ddl_ident by (simp add: pk_sql_def ddl_chars)
  show "ddl (fk_sql fk)" if "fk_valid fk"
    using that ddl_ident ddl_OnDelete by (simp add: fk_sql_def fk_valid_def ddl_chars)
  show "ddl (require_sql cols)" if "\<forall>col \<in> set cols. validateIdentifier col"
    using ddl_join [OF ddl_texts(12), of "map (\<lambda>col. col @ '' IS NOT NULL'') cols"] that ddl_ident
    by (simp add: require_sql_def ddl_chars)
  show "ddl (rc_sql rc)" if "rc_valid rc" using that ddl_ident by (simp add: rc_sql_def rc_valid_def ddl_chars)
qed

lemma literal_ident: "validateIdentifier v \<Longrightarrow> string_literal v = [quote] @ v @ [quote]"
proof -
  have "concat (map (\<lambda>c. if c = quote then [quote, quote] else [c]) s) = s" if "unquoted s" for s
    using that by (induction s) auto
  then show "validateIdentifier v \<Longrightarrow> string_literal v = [quote] @ v @ [quote]"
    using ddl_unquoted [OF ddl_ident] by (simp add: string_literal_def)
qed

lemma join_literals:
  assumes "\<forall>v \<in> set vs. validateIdentifier v" and "vs \<noteq> []"
  shows "[quote] @ join ([quote] @ '', '' @ [quote]) vs @ [quote] = join '', '' (map string_literal vs)"
  using assms
proof (induction vs)
  case (Cons v vs)
  then show ?case by (cases vs) (simp_all add: literal_ident)
qed simp

lemma cf_in_check:
  assumes "ic_valid ic"
  shows "code_frag (ic_sql ic) (ic_Values ic) \<and> no_quote (ic_sql ic)"
proof -
  have v: "validateIdentifier (ic_Column ic)" "ic_Values ic \<noteq> []" "\<forall>v \<in> set (ic_Values ic). validateIdentifier v"
    using assms by (simp_all add: ic_valid_def)
  have "code_frag (join '', '' (map string_literal (ic_Values ic))) (concat (map (\<lambda>v. [v]) (ic_Values ic)))"
    by (rule cf_join) (simp_all add: cf_literal ddl_chars)
  then have l: "code_frag (join '', '' (map string_literal (ic_Values ic)) @ ''))'') (ic_Values ic @ [])"
    by (intro cf_append cf_only) (simp_all add: no_quote_def ddl_chars)
  have "ddl (newline_tab @ ''CHECK ('' @ ic_Column ic @ '' IN ('')" using ddl_ident [OF v(1)] by (simp add: ddl_chars)
  note f = cf_ddl [OF this l]
  have "ic_sql ic = (newline_tab @ ''CHECK ('' @ ic_Column ic @ '' IN ('') @ join '', '' (map string_literal (ic_Values ic)) @ ''))''"
    using arg_cong [OF join_literals [OF v(3,2)], of "\<lambda>x. x @ ''))''"] by (simp add: ic_sql_def)
  with f have "code_frag (ic_sql ic) (ic_Values ic)" by (simp only: append_Nil2)
  then show ?thesis by (simp add: ic_sql_def no_quote_def)
qed

lemma ddl_concat: "(\<And>x. x \<in> set xs \<Longrightarrow> ddl (f x)) \<Longrightarrow> ddl (concat (map f xs))"
  by (induction xs) auto

lemma cf_create_table:
  assumes "dialect_ok dia" and "table_valid def" and "\<forall>col \<in> set (td_Columns def). plain_default col"
  shows "code_frag (create_table_sql dia def) (table_literals dia def)"
proof -
  have cols: "code_frag (join [CHR 0x2C, CHR 0x0A] (map (column_sql dia (PrimaryKeys def \<noteq> [])) (td_Columns def)))
      (concat (map (default_literals dia) (td_Columns def)))"
    using assms by (intro cf_join cf_column) (simp_all add: table_valid_def ddl_chars)
  let ?mid = "pk_sql (PrimaryKeys def) @ concat (map fk_sql (ForeignKeys def)) @ require_sql (RequireOneOf def) @
     concat (map rc_sql (RangeChecks def))"
  have mid: "ddl ?mid" using assms(2) by (simp add: table_valid_def ddl_clauses ddl_concat)
  have "code_frag (concat (map ic_sql (InChecks def)) @ [CHR 0x0A] @ '')'') (concat (map ic_Values (InChecks def)) @ [])"
    using assms(2) cf_concat [of "InChecks def" ic_sql ic_Values] cf_in_check
    by (intro cf_append cf_only) (auto simp: table_valid_def ddl_chars no_quote_def)
  then have tail: "code_frag (?mid @ concat (map ic_sql (InChecks def)) @ [CHR 0x0A] @ '')'') (concat (map ic_Values (InChecks def)))"
    using cf_ddl [OF mid] by simp
  have "no_quote (concat (map ic_sql (InChecks def)))"
    using assms(2) cf_concat [of "InChecks def" ic_sql ic_Values] cf_in_check by (auto simp: table_valid_def)
  then have nq: "no_quote (?mid @ concat (map ic_sql (InChecks def)) @ [CHR 0x0A] @ '')'')"
    by (intro ddl_no_quote [OF mid] no_quote_append) (simp_all add: no_quote_def)
  have "ddl (''CREATE TABLE IF NOT EXISTS '' @ td_Name def @ '' ('' @ [CHR 0x0A])"
    using assms(2) ddl_ident by (simp add: table_valid_def ddl_chars)
  from cf_ddl [OF this cf_append [OF cols tail nq]] show ?thesis
    by (simp add: create_table_sql_def table_literals_def)
qed


lemma cf_add_column:
  assumes "dialect_ok dia" and "validateIdentifier table" and "validateIdentifier (col_Name col)" and "plain_default col"
  shows "code_frag (add_column_sql dia table col) (default_literals dia col)"
proof -
  have "ddl (''ALTER TABLE '' @ table @ '' '' @ AddColumnClause dia @ col_Name col @ '' '' @ ColumnTypeSQL dia (col_Type col) @
      (if IsNotNull col then '' NOT NULL'' else []) @ (if IsUnique col \<and> SupportsUniqueInAddColumn dia then '' UNIQUE'' else []))"
    using assms(1) ddl_ident [OF assms(2)] ddl_ident [OF assms(3)] by (simp add: dialect_ok_def ddl_chars)
  from cf_ddl [OF this conjunct1 [OF cf_default [OF assms(1,4)]]] show ?thesis by (simp add: add_column_sql_def)
qed

lemma code_frag_reads: "code_frag s ls \<Longrightarrow> \<exists>out. sql_out s = Some (out, ls) \<and> ddl out"
  unfolding code_frag_def frag_def by (metis (no_types, lifting) append_Nil2 fst_conv snd_conv no_quote_Nil option.map(2) sql_out.simps(1))


section \<open>Statements in a row\<close>

definition index_sql :: "index_def \<Rightarrow> string" where
  "index_sql def = ''CREATE INDEX IF NOT EXISTS '' @ ix_Name def @ '' ON '' @ ix_Table def @ ''('' @
     join '', '' (ix_Columns def) @ '')''"

definition index_valid :: "index_def \<Rightarrow> bool" where
  "index_valid def \<longleftrightarrow> validateIdentifier (ix_Name def) \<and> validateIdentifier (ix_Table def) \<and>
     (\<forall>col \<in> set (ix_Columns def). validateIdentifier col)"

definition initial_tables :: "table_def list" where
  "initial_tables = [applications_table, application_attributes_table, player_attributes_table, users_table, bans_table]"

definition initial_statements :: "'d dialect \<Rightarrow> string list" where
  "initial_statements dia = map (create_table_sql dia) initial_tables @ map index_sql ban_indexes"

lemma steps_exec:
  assumes "\<And>x. x \<in> set xs \<Longrightarrow> f x = exec_sql ex (g x)"
  shows "steps (map f xs @ fs) d = (case exec_all ex (map g xs) d of (Some e, d') \<Rightarrow> (Some e, d') | (None, d') \<Rightarrow> steps fs d')"
  using assms
proof (induction xs arbitrary: d)
  case (Cons x xs)
  then have "steps (map f xs @ fs) d' = (case exec_all ex (map g xs) d' of (Some e, d'') \<Rightarrow> (Some e, d'') | (None, d'') \<Rightarrow> steps fs d'')" for d'
    by simp
  then show ?case
    using Cons.prems [of x] by (auto simp: exec_sql_def split: sum.splits prod.splits option.splits)
qed simp

lemma exec_all_append:
  "exec_all ex (a @ b) d = (case exec_all ex a d of (Some e, d') \<Rightarrow> (Some e, d') | (None, d') \<Rightarrow> exec_all ex b d')"
  by (induction a arbitrary: d) (auto split: sum.splits prod.splits)

lemma initial_valid: "\<forall>t \<in> set initial_tables. table_valid t" "\<forall>i \<in> set ban_indexes. index_valid i"
  by code_simp+

lemma initialSchema_statements: "initialSchema_Up dia ex d = exec_all ex (initial_statements dia) d"
proof -
  have t: "CreateTable dia ex t = exec_sql ex (create_table_sql dia t)" if "t \<in> set initial_tables" for t
    using initial_valid(1) that by (simp add: CreateTable_def fun_eq_iff)
  have i: "CreateIndex ex i = exec_sql ex (index_sql i)" if "i \<in> set ban_indexes" for i
    using initial_valid(2) that by (simp add: CreateIndex_def index_sql_def index_valid_def fun_eq_iff)
  have up: "initialSchema_Up dia ex d = steps (map (CreateTable dia ex) initial_tables @ map (CreateIndex ex) ban_indexes @ []) d"
    by (simp add: initialSchema_Up_def initial_tables_def)
  show ?thesis
    unfolding up initial_statements_def exec_all_append
    by (subst steps_exec [OF t], assumption, subst steps_exec [OF i], assumption) (simp split: prod.split option.split)
qed

text \<open>What a schema promises about itself: the columns of a table are distinct and contain those that its keys, checks and
  indexes name, and a foreign key refers to the automatic primary key of a table created before.\<close>

fun schema_consistent :: "table_def list \<Rightarrow> table_def list \<Rightarrow> bool" where
  "schema_consistent before [] = True"
| "schema_consistent before (t # ts) =
     (let cols = map col_Name (td_Columns t)
      in td_Name t \<notin> set (map td_Name before) \<and> distinct cols \<and> set (PrimaryKeys t) \<subseteq> set cols \<and>
         set (RequireOneOf t) \<subseteq> set cols \<and> set (map rc_Column (RangeChecks t)) \<subseteq> set cols \<and>
         set (map ic_Column (InChecks t)) \<subseteq> set cols \<and>
         (\<forall>fk \<in> set (ForeignKeys t). fk_Column fk \<in> set cols \<and>
            (\<exists>r \<in> set before. td_Name r = RefTable fk \<and> PrimaryKeys r = [] \<and>
               (\<exists>c \<in> set (td_Columns r). col_Name c = RefCol fk \<and> IsPK c \<and> IsAutoIncr c))) \<and>
         schema_consistent (before @ [t]) ts)"

definition index_consistent :: "table_def list \<Rightarrow> index_def \<Rightarrow> bool" where
  "index_consistent ts i \<longleftrightarrow> (\<exists>t \<in> set ts. td_Name t = ix_Table i \<and> set (ix_Columns i) \<subseteq> set (map col_Name (td_Columns t)))"


section \<open>Properties\<close>

text \<open>C36.  Whatever strings a table definition has as defaults, the statement that creates the table, and the one that adds
  a column, reads as the intended one: its string literals are exactly the default strings and the listed values,
  with their contents, and outside of them there is no quotation mark and no semicolon.\<close>

theorem schema_literals_contained:
  assumes "dia = postgresDialect \<or> dia = sqliteDialect" and "\<forall>col \<in> set (td_Columns def). plain_default col"
    and "col \<in> set (td_Columns def)" and "table_valid def"
  shows "(\<exists>out. sql_out (create_table_sql dia def) = Some (out, table_literals dia def) \<and> ddl out) \<and>
    (\<exists>out. sql_out (add_column_sql dia (td_Name def) col) = Some (out, default_literals dia col) \<and> ddl out)"
proof -
  have dia: "dialect_ok dia" using assms(1) dialects_ok by blast
  have "code_frag (add_column_sql dia (td_Name def) col) (default_literals dia col)"
    using assms(2,3,4) by (intro cf_add_column [OF dia]) (simp_all add: table_valid_def)
  then show ?thesis using code_frag_reads cf_create_table [OF dia assms(4,2)] by blast
qed

definition hostile_table :: table_def where
  "hostile_table = plain_table ''t'' [Default (DText ([quote] @ ''); DROP TABLE users'')) (Col ''a'' ColText)]"

theorem schema_literals_contained_witness:
  "(\<exists>out. sql_out (create_table_sql (sqliteDialect :: unit dialect) hostile_table) =
      Some (out, [[quote] @ ''); DROP TABLE users'']))"
proof -
  have d: "plain_default (Default (DText ([quote] @ ''); DROP TABLE users'')) (Col ''a'' ColText))"
    by (simp add: plain_default_def Default_def Col_def)
  have v: "table_valid hostile_table" by code_simp
  have "table_literals (sqliteDialect :: unit dialect) hostile_table = [[quote] @ ''); DROP TABLE users'']" by code_simp
  then show ?thesis
    using schema_literals_contained [of "sqliteDialect :: unit dialect" hostile_table "hd (td_Columns hostile_table)"] d v
    by (auto simp: hostile_table_def plain_table_def)
qed

text \<open>The initial schema passes the checks of the adapter, so that applying it runs exactly its eight statements, in order
  and up to the first that the database refuses; and the schema is consistent: every foreign key refers to the primary
  key of a table created before, and keys, checks and indexes name columns that exist.\<close>

theorem initial_schema_applied:
  "initialSchema_Up dia ex d = exec_all ex (initial_statements dia) d \<and> length (initial_statements dia) = 8 \<and>
   schema_consistent [] initial_tables \<and> list_all (index_consistent initial_tables) ban_indexes"
proof -
  have "schema_consistent [] initial_tables" by code_simp
  moreover have "list_all (index_consistent initial_tables) ban_indexes" by code_simp
  ultimately show ?thesis
    by (simp add: initialSchema_statements) (simp add: initial_statements_def initial_tables_def ban_indexes_def)
qed

end
