(* ===== verification/SqlDb.thy ===== *)
theory SqlDb
  imports Schema Codec Logon
begin

text \<open>
  The storage adapter \<open>internal/adapters/outbound/sql_db.go\<close>: applications, attributes, users, bans and the tracker of
  migrations, as statements for an executor.  UUIDs and the clock are arguments.
\<close>


section \<open>Helpers\<close>

text \<open>A literal over several lines in the source.\<close>

abbreviation line_break :: string where
  "line_break \<equiv> [CHR 0x0A, CHR 0x09, CHR 0x09]"

definition exec_args :: "'d dialect \<Rightarrow> 'd executor \<Rightarrow> string \<Rightarrow> sql_value list \<Rightarrow> 'd \<Rightarrow> unit go \<times> 'd" where
  "exec_args dia ex q args d =
     (case Exec ex (Rebind dia q) args d of (Inl e, d') \<Rightarrow> (Err e, d') | (Inr _, d') \<Rightarrow> (Ok (), d'))"

text \<open>The same, with the error \<open>missing\<close> when no row was affected.\<close>

definition exec_found :: "error \<Rightarrow> 'd dialect \<Rightarrow> 'd executor \<Rightarrow> string \<Rightarrow> sql_value list \<Rightarrow> 'd \<Rightarrow> unit go \<times> 'd" where
  "exec_found missing dia ex q args d =
     (case Exec ex (Rebind dia q) args d of
        (Inl e, d') \<Rightarrow> (Err e, d')
      | (Inr (Inl e), d') \<Rightarrow> (Err e, d')
      | (Inr (Inr rows), d') \<Rightarrow> (if rows = 0 then Err missing else Ok (), d'))"

definition app_id_sql :: string where
  "app_id_sql = ''SELECT id FROM applications WHERE name = ?''"

definition getAppID :: "'d dialect \<Rightarrow> 'd executor \<Rightarrow> string \<Rightarrow> 'd \<Rightarrow> int go" where
  "getAppID dia ex appName d =
     (case QueryRow ex (Rebind dia app_id_sql) [VText appName] d of
        Inr (Some [v]) \<Rightarrow> (case scan_int64 ex v of Some i \<Rightarrow> Ok i | None \<Rightarrow> Err ErrOther)
      | _ \<Rightarrow> Err ErrOther)"

fun scan_names :: "'d executor \<Rightarrow> sql_value list list \<Rightarrow> string list option" where
  "scan_names ex [] = Some []"
| "scan_names ex (row # rows) =
     (case row of
        [v] \<Rightarrow> (case (scan_text ex v, scan_names ex rows) of (Some n, Some ns) \<Rightarrow> Some (n # ns) | _ \<Rightarrow> None)
      | _ \<Rightarrow> None)"

definition queryNames :: "'d executor \<Rightarrow> string \<Rightarrow> sql_value list \<Rightarrow> 'd \<Rightarrow> string list go" where
  "queryNames ex q args d =
     (case Query ex q args d of
        Inl e \<Rightarrow> Err e
      | Inr rs \<Rightarrow>
          (case scan_names ex (Rows rs) of
             None \<Rightarrow> Err ErrOther
           | Some ns \<Rightarrow> (case RowsErr rs of Some e \<Rightarrow> Err e | None \<Rightarrow> Ok ns)))"

definition scanAttribute :: "float_codec \<Rightarrow> 'd executor \<Rightarrow> string \<Rightarrow> sql_value list \<Rightarrow> 'd \<Rightarrow> lvalue go" where
  "scanAttribute fc ex q args d =
     (case QueryRow ex q args d of
        Inl e \<Rightarrow> Err e
      | Inr None \<Rightarrow> Ok LVoid
      | Inr (Some [v]) \<Rightarrow> (case scan_text ex v of Some t \<Rightarrow> UnmarshalLValue fc t | None \<Rightarrow> Err ErrOther)
      | Inr (Some _) \<Rightarrow> Err ErrOther)"


section \<open>Migrations tracker\<close>

definition db_GetAppliedMigrations :: "'d executor \<Rightarrow> 'd \<Rightarrow> string list go" where
  "db_GetAppliedMigrations ex d = queryNames ex ''SELECT name FROM migrations ORDER BY name'' [] d"

definition db_MarkMigrationApplied :: "'d dialect \<Rightarrow> 'd executor \<Rightarrow> int \<Rightarrow> string \<Rightarrow> 'd \<Rightarrow> unit go \<times> 'd" where
  "db_MarkMigrationApplied dia ex now name d =
     exec_args dia ex ''INSERT INTO migrations (name, applied_at) VALUES (?, ?)'' [VText name, VTime now] d"


section \<open>Applications and attributes\<close>

definition db_CreateApplication :: "'d dialect \<Rightarrow> 'd executor \<Rightarrow> string \<Rightarrow> 'd \<Rightarrow> unit go \<times> 'd" where
  "db_CreateApplication dia ex appName d = exec_args dia ex ''INSERT INTO applications (name) VALUES (?)'' [VText appName] d"

definition db_DeleteApplication :: "'d dialect \<Rightarrow> 'd executor \<Rightarrow> string \<Rightarrow> 'd \<Rightarrow> unit go \<times> 'd" where
  "db_DeleteApplication dia ex appName d =
     exec_found ErrOther dia ex ''DELETE FROM applications WHERE name = ?'' [VText appName] d"

text \<open>\<open>appID, err := d.getAppID(appName)\<close> and the encoding of the value, before a statement.\<close>

definition with_app :: "'d dialect \<Rightarrow> 'd executor \<Rightarrow> string \<Rightarrow> 'd \<Rightarrow> (int \<Rightarrow> 'a go \<times> 'd) \<Rightarrow> 'a go \<times> 'd" where
  "with_app dia ex appName d f =
     (case getAppID dia ex appName d of Panic \<Rightarrow> (Panic, d) | Err e \<Rightarrow> (Err e, d) | Ok appID \<Rightarrow> f appID)"

definition with_json :: "float_codec \<Rightarrow> lvalue \<Rightarrow> 'd \<Rightarrow> (string \<Rightarrow> 'a go \<times> 'd) \<Rightarrow> 'a go \<times> 'd" where
  "with_json fc v d f = (case MarshalLValue fc v of Panic \<Rightarrow> (Panic, d) | Err e \<Rightarrow> (Err e, d) | Ok t \<Rightarrow> f t)"

definition upsert_app_sql :: string where
  "upsert_app_sql = line_break @ ''INSERT INTO application_attributes (app_id, attr_name, value_json)'' @ line_break @
     ''VALUES (?, ?, ?)'' @ line_break @ ''ON CONFLICT(app_id, attr_name) DO UPDATE SET value_json=excluded.value_json''"

definition select_app_sql :: string where
  "select_app_sql = ''SELECT value_json FROM application_attributes WHERE app_id = ? AND attr_name = ?''"

definition db_SetApplicationAttribute ::
    "float_codec \<Rightarrow> 'd dialect \<Rightarrow> 'd executor \<Rightarrow> string \<Rightarrow> string \<Rightarrow> lvalue \<Rightarrow> 'd \<Rightarrow> unit go \<times> 'd" where
  "db_SetApplicationAttribute fc dia ex appName attrName v d =
     with_app dia ex appName d (\<lambda>appID. with_json fc v d (\<lambda>json.
       exec_args dia ex upsert_app_sql [VInt appID, VText attrName, VText json] d))"

definition db_GetApplicationAttribute ::
    "float_codec \<Rightarrow> 'd dialect \<Rightarrow> 'd executor \<Rightarrow> string \<Rightarrow> string \<Rightarrow> 'd \<Rightarrow> lvalue go" where
  "db_GetApplicationAttribute fc dia ex appName attrName d =
     go_bind (getAppID dia ex appName d) (\<lambda>appID.
       scanAttribute fc ex (Rebind dia select_app_sql) [VInt appID, VText attrName] d)"

definition db_GetApplicationAttributeNames :: "'d dialect \<Rightarrow> 'd executor \<Rightarrow> string \<Rightarrow> 'd \<Rightarrow> string list go" where
  "db_GetApplicationAttributeNames dia ex appName d =
     go_bind (getAppID dia ex appName d) (\<lambda>appID.
       queryNames ex (Rebind dia ''SELECT attr_name FROM application_attributes WHERE app_id = ?'') [VInt appID] d)"

definition db_DeleteApplicationAttribute :: "'d dialect \<Rightarrow> 'd executor \<Rightarrow> string \<Rightarrow> string \<Rightarrow> 'd \<Rightarrow> unit go \<times> 'd" where
  "db_DeleteApplicationAttribute dia ex appName attrName d =
     with_app dia ex appName d (\<lambda>appID.
       exec_args dia ex ''DELETE FROM application_attributes WHERE app_id = ? AND attr_name = ?'' [VInt appID, VText attrName] d)"

definition upsert_player_sql :: string where
  "upsert_player_sql = line_break @ ''INSERT INTO player_attributes (app_id, user_id, attr_name, value_json)'' @ line_break @
     ''VALUES (?, ?, ?, ?)'' @ line_break @
     ''ON CONFLICT(app_id, user_id, attr_name) DO UPDATE SET value_json=excluded.value_json''"

definition select_player_sql :: string where
  "select_player_sql = ''SELECT value_json FROM player_attributes WHERE app_id = ? AND user_id = ? AND attr_name = ?''"

definition db_SetPlayerAttribute ::
    "float_codec \<Rightarrow> 'd dialect \<Rightarrow> 'd executor \<Rightarrow> string \<Rightarrow> string \<Rightarrow> string \<Rightarrow> lvalue \<Rightarrow> 'd \<Rightarrow> unit go \<times> 'd" where
  "db_SetPlayerAttribute fc dia ex appName userID attrName v d =
     with_app dia ex appName d (\<lambda>appID. with_json fc v d (\<lambda>json.
       exec_args dia ex upsert_player_sql [VInt appID, VText userID, VText attrName, VText json] d))"

definition db_GetPlayerAttribute ::
    "float_codec \<Rightarrow> 'd dialect \<Rightarrow> 'd executor \<Rightarrow> string \<Rightarrow> string \<Rightarrow> string \<Rightarrow> 'd \<Rightarrow> lvalue go" where
  "db_GetPlayerAttribute fc dia ex appName userID attrName d =
     go_bind (getAppID dia ex appName d) (\<lambda>appID.
       scanAttribute fc ex (Rebind dia select_player_sql) [VInt appID, VText userID, VText attrName] d)"

definition db_GetPlayerAttributeNames :: "'d dialect \<Rightarrow> 'd executor \<Rightarrow> string \<Rightarrow> string \<Rightarrow> 'd \<Rightarrow> string list go" where
  "db_GetPlayerAttributeNames dia ex appName userID d =
     go_bind (getAppID dia ex appName d) (\<lambda>appID.
       queryNames ex (Rebind dia ''SELECT attr_name FROM player_attributes WHERE app_id = ? AND user_id = ?'')
         [VInt appID, VText userID] d)"

definition db_DeletePlayerAttribute ::
    "'d dialect \<Rightarrow> 'd executor \<Rightarrow> string \<Rightarrow> string \<Rightarrow> string \<Rightarrow> 'd \<Rightarrow> unit go \<times> 'd" where
  "db_DeletePlayerAttribute dia ex appName userID attrName d =
     with_app dia ex appName d (\<lambda>appID.
       exec_args dia ex ''DELETE FROM player_attributes WHERE app_id = ? AND user_id = ? AND attr_name = ?''
         [VInt appID, VText userID, VText attrName] d)"


section \<open>Users and bans\<close>

definition db_CreateUser :: "'d dialect \<Rightarrow> 'd executor \<Rightarrow> string \<Rightarrow> string \<Rightarrow> string \<Rightarrow> int \<Rightarrow> 'd \<Rightarrow> unit go \<times> 'd" where
  "db_CreateUser dia ex uuid username passwordHash level d =
     exec_args dia ex ''INSERT INTO users (uuid, username, password_hash, user_level) VALUES (?, ?, ?, ?)''
       [VText uuid, VText username, VText passwordHash, VInt level] d"

definition db_GetUser :: "'d dialect \<Rightarrow> 'd executor \<Rightarrow> string \<Rightarrow> 'd \<Rightarrow> user go" where
  "db_GetUser dia ex username d =
     (case QueryRow ex (Rebind dia
         ''SELECT id, uuid, username, password_hash, user_level, created_at FROM users WHERE username = ?'') [VText username] d of
        Inl e \<Rightarrow> Err e
      | Inr None \<Rightarrow> Err ErrUserNotFound
      | Inr (Some [vid, vuuid, vname, vhash, vlevel, vcreated]) \<Rightarrow>
          (case (scan_int64 ex vid, scan_text ex vuuid, scan_text ex vname, scan_text ex vhash, scan_int64 ex vlevel, scan_time vcreated) of
             (Some i, Some _, Some _, Some h, Some l, Some _) \<Rightarrow> Ok \<lparr>user_ID = i, PasswordHash = h, user_Level = l\<rparr>
           | _ \<Rightarrow> Err ErrOther)
      | Inr (Some _) \<Rightarrow> Err ErrOther)"

definition db_DeleteUser :: "'d dialect \<Rightarrow> 'd executor \<Rightarrow> string \<Rightarrow> 'd \<Rightarrow> unit go \<times> 'd" where
  "db_DeleteUser dia ex username d =
     exec_found ErrUserNotFound dia ex ''DELETE FROM users WHERE username = ?'' [VText username] d"

definition db_UpdateUserLevel :: "'d dialect \<Rightarrow> 'd executor \<Rightarrow> string \<Rightarrow> int \<Rightarrow> 'd \<Rightarrow> unit go \<times> 'd" where
  "db_UpdateUserLevel dia ex username level d =
     exec_found ErrUserNotFound dia ex ''UPDATE users SET user_level = ? WHERE username = ?'' [VInt level, VText username] d"

definition db_UpdateUserPassword :: "'d dialect \<Rightarrow> 'd executor \<Rightarrow> string \<Rightarrow> string \<Rightarrow> 'd \<Rightarrow> unit go \<times> 'd" where
  "db_UpdateUserPassword dia ex username passwordHash d =
     exec_found ErrUserNotFound dia ex ''UPDATE users SET password_hash = ? WHERE username = ?''
       [VText passwordHash, VText username] d"

definition nullable :: "('a \<Rightarrow> sql_value) \<Rightarrow> 'a option \<Rightarrow> sql_value" where
  "nullable f x = (case x of None \<Rightarrow> VNull | Some y \<Rightarrow> f y)"

definition db_CreateBan ::
    "'d dialect \<Rightarrow> 'd executor \<Rightarrow> string \<Rightarrow> int option \<Rightarrow> string option \<Rightarrow> string \<Rightarrow> int option \<Rightarrow> 'd \<Rightarrow> unit go \<times> 'd" where
  "db_CreateBan dia ex uuid userID ipAddress reason expiresAt d =
     exec_args dia ex ''INSERT INTO bans (uuid, user_id, ip_address, reason, expires_at) VALUES (?, ?, ?, ?, ?)''
       [VText uuid, nullable VInt userID, nullable VText ipAddress, VText reason, nullable VTime expiresAt] d"

definition active_ban_sql :: "'d dialect \<Rightarrow> string \<Rightarrow> string" where
  "active_ban_sql dia column =
     line_break @ ''SELECT id, uuid, user_id, ip_address, reason, expires_at, revoked_at, created_at'' @
     line_break @ ''FROM bans'' @
     line_break @ ''WHERE '' @ column @ '' = ? AND revoked_at IS NULL AND (expires_at IS NULL OR expires_at > '' @ NowExpr dia @ '')'' @
     line_break @ ''ORDER BY created_at DESC LIMIT 1''"

definition getActiveBan :: "'d dialect \<Rightarrow> 'd executor \<Rightarrow> string \<Rightarrow> sql_value \<Rightarrow> 'd \<Rightarrow> ban go" where
  "getActiveBan dia ex column v d =
     (case QueryRow ex (Rebind dia (active_ban_sql dia column)) [v] d of
        Inl e \<Rightarrow> Err e
      | Inr None \<Rightarrow> Err ErrBanNotFound
      | Inr (Some [vid, vuuid, vuser, vip, vreason, vexp, vrev, vcreated]) \<Rightarrow>
          (case (scan_int64 ex vid, scan_text ex vuuid, scan_null (scan_int64 ex) vuser, scan_null (scan_text ex) vip,
             scan_text ex vreason, scan_null scan_time vexp, scan_null scan_time vrev, scan_time vcreated) of
             (Some i, Some _, Some _, Some _, Some r, Some _, Some _, Some _) \<Rightarrow> Ok \<lparr>ban_ID = i, Reason = r\<rparr>
           | _ \<Rightarrow> Err ErrOther)
      | Inr (Some _) \<Rightarrow> Err ErrOther)"

definition db_GetActiveBanByUserID :: "'d dialect \<Rightarrow> 'd executor \<Rightarrow> int \<Rightarrow> 'd \<Rightarrow> ban go" where
  "db_GetActiveBanByUserID dia ex userID d = getActiveBan dia ex ''user_id'' (VInt userID) d"

definition db_GetActiveBanByIP :: "'d dialect \<Rightarrow> 'd executor \<Rightarrow> string \<Rightarrow> 'd \<Rightarrow> ban go" where
  "db_GetActiveBanByIP dia ex ip d = getActiveBan dia ex ''ip_address'' (VText ip) d"

definition db_RevokeBan :: "'d dialect \<Rightarrow> 'd executor \<Rightarrow> int \<Rightarrow> 'd \<Rightarrow> unit go \<times> 'd" where
  "db_RevokeBan dia ex banID d =
     exec_found ErrBanNotFound dia ex
       (''UPDATE bans SET revoked_at = '' @ NowExpr dia @ '' WHERE id = ? AND revoked_at IS NULL'') [VInt banID] d"



section \<open>Statements of the adapter\<close>

text \<open>Every text that the adapter can send, for a dialect.\<close>

definition adapter_texts :: "'d dialect \<Rightarrow> string list" where
  "adapter_texts dia =
     ''SELECT name FROM migrations ORDER BY name'' # map (Rebind dia)
     [''INSERT INTO migrations (name, applied_at) VALUES (?, ?)'', app_id_sql,
      ''INSERT INTO applications (name) VALUES (?)'', ''DELETE FROM applications WHERE name = ?'',
      upsert_app_sql, select_app_sql, ''SELECT attr_name FROM application_attributes WHERE app_id = ?'',
      ''DELETE FROM application_attributes WHERE app_id = ? AND attr_name = ?'',
      upsert_player_sql, select_player_sql, ''SELECT attr_name FROM player_attributes WHERE app_id = ? AND user_id = ?'',
      ''DELETE FROM player_attributes WHERE app_id = ? AND user_id = ? AND attr_name = ?'',
      ''INSERT INTO users (uuid, username, password_hash, user_level) VALUES (?, ?, ?, ?)'',
      ''SELECT id, uuid, username, password_hash, user_level, created_at FROM users WHERE username = ?'',
      ''DELETE FROM users WHERE username = ?'', ''UPDATE users SET user_level = ? WHERE username = ?'',
      ''UPDATE users SET password_hash = ? WHERE username = ?'',
      ''INSERT INTO bans (uuid, user_id, ip_address, reason, expires_at) VALUES (?, ?, ?, ?, ?)'',
      active_ban_sql dia ''user_id'', active_ban_sql dia ''ip_address'',
      ''UPDATE bans SET revoked_at = '' @ NowExpr dia @ '' WHERE id = ? AND revoked_at IS NULL'']"

text \<open>Two executors that do the same for the texts of a list.\<close>

definition same_on :: "string list \<Rightarrow> 'd executor \<Rightarrow> 'd executor \<Rightarrow> bool" where
  "same_on qs ex ex' \<longleftrightarrow> text_of ex = text_of ex' \<and> (\<forall>q \<in> set qs. Exec ex q = Exec ex' q \<and> Query ex q = Query ex' q)"

text \<open>An operation of the adapter, with its arguments.\<close>

datatype adapter_op = GetAppliedMigrations | MarkMigrationApplied int string
  | CreateApplicationOp string | DeleteApplicationOp string
  | SetAppAttr string string lvalue | GetAppAttr string string | GetAppAttrNames string | DeleteAppAttr string string
  | SetPlayerAttr string string string lvalue | GetPlayerAttr string string string | GetPlayerAttrNames string string
  | DeletePlayerAttr string string string
  | CreateUserOp string string string int | GetUserOp string | DeleteUserOp string | UpdateUserLevel string int
  | UpdateUserPassword string string
  | CreateBanOp string "int option" "string option" string "int option" | BanByUserID int | BanByIP string | RevokeBanOp int

datatype adapter_answer = ANames "string list go" | AUnit "unit go" | AValue "lvalue go" | AUser "user go" | ABan "ban go"

definition changed :: "unit go \<times> 'd \<Rightarrow> adapter_answer \<times> 'd" where
  "changed r = (AUnit (fst r), snd r)"

fun adapter :: "float_codec \<Rightarrow> 'd dialect \<Rightarrow> 'd executor \<Rightarrow> adapter_op \<Rightarrow> 'd \<Rightarrow> adapter_answer \<times> 'd" where
  "adapter fc dia ex GetAppliedMigrations d = (ANames (db_GetAppliedMigrations ex d), d)"
| "adapter fc dia ex (MarkMigrationApplied now name) d = changed (db_MarkMigrationApplied dia ex now name d)"
| "adapter fc dia ex (CreateApplicationOp app) d = changed (db_CreateApplication dia ex app d)"
| "adapter fc dia ex (DeleteApplicationOp app) d = changed (db_DeleteApplication dia ex app d)"
| "adapter fc dia ex (SetAppAttr app n v) d = changed (db_SetApplicationAttribute fc dia ex app n v d)"
| "adapter fc dia ex (GetAppAttr app n) d = (AValue (db_GetApplicationAttribute fc dia ex app n d), d)"
| "adapter fc dia ex (GetAppAttrNames app) d = (ANames (db_GetApplicationAttributeNames dia ex app d), d)"
| "adapter fc dia ex (DeleteAppAttr app n) d = changed (db_DeleteApplicationAttribute dia ex app n d)"
| "adapter fc dia ex (SetPlayerAttr app u n v) d = changed (db_SetPlayerAttribute fc dia ex app u n v d)"
| "adapter fc dia ex (GetPlayerAttr app u n) d = (AValue (db_GetPlayerAttribute fc dia ex app u n d), d)"
| "adapter fc dia ex (GetPlayerAttrNames app u) d = (ANames (db_GetPlayerAttributeNames dia ex app u d), d)"
| "adapter fc dia ex (DeletePlayerAttr app u n) d = changed (db_DeletePlayerAttribute dia ex app u n d)"
| "adapter fc dia ex (CreateUserOp uuid u h l) d = changed (db_CreateUser dia ex uuid u h l d)"
| "adapter fc dia ex (GetUserOp u) d = (AUser (db_GetUser dia ex u d), d)"
| "adapter fc dia ex (DeleteUserOp u) d = changed (db_DeleteUser dia ex u d)"
| "adapter fc dia ex (UpdateUserLevel u l) d = changed (db_UpdateUserLevel dia ex u l d)"
| "adapter fc dia ex (UpdateUserPassword u h) d = changed (db_UpdateUserPassword dia ex u h d)"
| "adapter fc dia ex (CreateBanOp uuid i ip r e) d = changed (db_CreateBan dia ex uuid i ip r e d)"
| "adapter fc dia ex (BanByUserID i) d = (ABan (db_GetActiveBanByUserID dia ex i d), d)"
| "adapter fc dia ex (BanByIP ip) d = (ABan (db_GetActiveBanByIP dia ex ip d), d)"
| "adapter fc dia ex (RevokeBanOp i) d = changed (db_RevokeBan dia ex i d)"

lemma same_scan:
  assumes "same_on qs ex ex'"
  shows "scan_text ex = scan_text ex'" "scan_int64 ex = scan_int64 ex'" "scan_names ex = scan_names ex'"
proof -
  have t: "text_of ex = text_of ex'" using assms by (simp add: same_on_def)
  show s: "scan_text ex = scan_text ex'" by (intro ext, unfold scan_text_def t, rule refl)
  show "scan_int64 ex = scan_int64 ex'" by (intro ext, unfold scan_int64_def s, rule refl)
  have "scan_names ex rs = scan_names ex' rs" for rs
    by (induction rs) (simp, unfold scan_names.simps s, simp only:)
  then show "scan_names ex = scan_names ex'" by (intro ext)
qed

lemma same_queries:
  assumes "same_on qs ex ex'" and "q \<in> set qs"
  shows "Exec ex q = Exec ex' q" "QueryRow ex q = QueryRow ex' q" "queryNames ex q = queryNames ex' q"
    "scanAttribute fc ex q = scanAttribute fc ex' q"
proof -
  show "Exec ex q = Exec ex' q" using assms by (auto simp: same_on_def)
  have query: "Query ex q = Query ex' q" using assms by (auto simp: same_on_def)
  show row: "QueryRow ex q = QueryRow ex' q" by (intro ext, unfold QueryRow_def query, rule refl)
  show "queryNames ex q = queryNames ex' q" by (intro ext, unfold queryNames_def query same_scan [OF assms(1)], rule refl)
  show "scanAttribute fc ex q = scanAttribute fc ex' q"
    by (intro ext, unfold scanAttribute_def row same_scan [OF assms(1)], rule refl)
qed

lemma same_exec:
  assumes "same_on qs ex ex'" and "Rebind dia q \<in> set qs"
  shows "exec_args dia ex q = exec_args dia ex' q" "exec_found e dia ex q = exec_found e dia ex' q"
  using same_queries(1) [OF assms] by (simp_all add: exec_args_def exec_found_def fun_eq_iff)

lemma same_app:
  assumes "same_on (adapter_texts dia) ex ex'"
  shows "getAppID dia ex = getAppID dia ex'" "with_app dia ex = with_app dia ex'"
proof -
  have row: "QueryRow ex (Rebind dia app_id_sql) = QueryRow ex' (Rebind dia app_id_sql)"
    by (rule same_queries(2) [OF assms]) (simp add: adapter_texts_def)
  show a: "getAppID dia ex = getAppID dia ex'" by (intro ext, unfold getAppID_def row same_scan [OF assms], rule refl)
  show "with_app dia ex = with_app dia ex'" by (intro ext, unfold with_app_def a, rule refl)
qed

lemma same_user:
  assumes "same_on (adapter_texts dia) ex ex'"
  shows "db_GetUser dia ex = db_GetUser dia ex'"
proof -
  let ?q = "Rebind dia ''SELECT id, uuid, username, password_hash, user_level, created_at FROM users WHERE username = ?''"
  have row: "QueryRow ex ?q = QueryRow ex' ?q" by (rule same_queries(2) [OF assms]) (simp add: adapter_texts_def)
  show ?thesis by (intro ext, unfold db_GetUser_def row same_scan [OF assms], rule refl)
qed

lemma same_ban:
  assumes "same_on (adapter_texts dia) ex ex'" and "column \<in> {''user_id'', ''ip_address''}"
  shows "getActiveBan dia ex column = getActiveBan dia ex' column"
proof -
  let ?q = "Rebind dia (active_ban_sql dia column)"
  have row: "QueryRow ex ?q = QueryRow ex' ?q"
    using assms(2) by (intro same_queries(2) [OF assms(1)]) (auto simp: adapter_texts_def)
  show ?thesis by (intro ext, unfold getActiveBan_def row same_scan [OF assms(1)], rule refl)
qed

lemmas db_defs = db_GetAppliedMigrations_def db_MarkMigrationApplied_def db_CreateApplication_def db_DeleteApplication_def
  db_SetApplicationAttribute_def db_GetApplicationAttribute_def db_GetApplicationAttributeNames_def
  db_DeleteApplicationAttribute_def db_SetPlayerAttribute_def db_GetPlayerAttribute_def db_GetPlayerAttributeNames_def
  db_DeletePlayerAttribute_def db_CreateUser_def db_DeleteUser_def db_UpdateUserLevel_def
  db_UpdateUserPassword_def db_CreateBan_def db_GetActiveBanByUserID_def db_GetActiveBanByIP_def db_RevokeBan_def

lemma adapter_same:
  assumes "same_on (adapter_texts dia) ex ex'"
  shows "adapter fc dia ex op d = adapter fc dia ex' op d"
  by (cases op)
    (simp_all add: db_defs same_queries [OF assms] same_exec [OF assms] same_app [OF assms] same_user [OF assms]
      same_ban [OF assms] adapter_texts_def)


section \<open>Attributes are read back\<close>

text \<open>What the statements for attributes mean to a database: after an upsert the row of its key has the new value, and the
  rows of other keys, as well as the applications, are as before.\<close>

definition upsert_law :: "string \<Rightarrow> string \<Rightarrow> 'd dialect \<Rightarrow> 'd executor \<Rightarrow> bool" where
  "upsert_law upsert select dia ex \<longleftrightarrow>
     (\<forall>key json d r d'. Exec ex (Rebind dia upsert) (key @ [VText json]) d = (Inr r, d') \<longrightarrow>
        (\<exists>cols. Query ex (Rebind dia select) key d' = Inr \<lparr>Columns = cols, Rows = [[VText json]], RowsErr = None\<rparr>) \<and>
        (\<forall>key'. key' \<noteq> key \<longrightarrow> Query ex (Rebind dia select) key' d' = Query ex (Rebind dia select) key' d) \<and>
        (\<forall>app. Query ex (Rebind dia app_id_sql) app d' = Query ex (Rebind dia app_id_sql) app d))"

lemma upsert_row:
  assumes "upsert_law upsert select dia ex" and "Exec ex (Rebind dia upsert) (key @ [VText json]) d = (Inr r, d')"
  shows "scanAttribute fc ex (Rebind dia select) key d' = UnmarshalLValue fc json"
    and "key' \<noteq> key \<Longrightarrow> scanAttribute fc ex (Rebind dia select) key' d' = scanAttribute fc ex (Rebind dia select) key' d"
    and "getAppID dia ex app d' = getAppID dia ex app d"
proof -
  obtain cols where "Query ex (Rebind dia select) key d' = Inr \<lparr>Columns = cols, Rows = [[VText json]], RowsErr = None\<rparr>"
    using assms unfolding upsert_law_def by blast
  then show "scanAttribute fc ex (Rebind dia select) key d' = UnmarshalLValue fc json"
    by (simp add: scanAttribute_def QueryRow_def scan_text_def)
  show "scanAttribute fc ex (Rebind dia select) key' d' = scanAttribute fc ex (Rebind dia select) key' d" if "key' \<noteq> key"
    using assms that unfolding upsert_law_def by (simp add: scanAttribute_def QueryRow_def)
  show "getAppID dia ex app d' = getAppID dia ex app d"
    using assms unfolding upsert_law_def by (simp add: getAppID_def QueryRow_def)
qed

lemma exec_args_Ok: "exec_args dia ex q args d = (Ok (), d') \<Longrightarrow> \<exists>r. Exec ex (Rebind dia q) args d = (Inr r, d')"
  by (auto simp: exec_args_def split: prod.splits sum.splits)

lemma set_inversion:
  assumes "with_app dia ex app d (\<lambda>appID. with_json fc v d (\<lambda>json. exec_args dia ex q (key appID @ [VText json]) d)) = (Ok (), d')"
  shows "\<exists>appID json r. getAppID dia ex app d = Ok appID \<and> MarshalLValue fc v = Ok json \<and>
    Exec ex (Rebind dia q) (key appID @ [VText json]) d = (Inr r, d')"
  using assms exec_args_Ok [of dia ex q _ d d'] by (auto simp: with_app_def with_json_def split: go.splits)


lemma attribute_restored:
  assumes "exact_floats fc" and "storable v" and "upsert_law upsert select dia ex" and "inj key"
    and "with_app dia ex app d (\<lambda>appID. with_json fc v d (\<lambda>json. exec_args dia ex upsert (key (appID, x) @ [VText json]) d)) = (Ok (), d')"
  shows "go_bind (getAppID dia ex app d') (\<lambda>appID. scanAttribute fc ex (Rebind dia select) (key (appID, x)) d') = Ok (restored v)"
    and "(getAppID dia ex app' d, x') \<noteq> (getAppID dia ex app d, x) \<Longrightarrow>
      go_bind (getAppID dia ex app' d') (\<lambda>appID. scanAttribute fc ex (Rebind dia select) (key (appID, x')) d') =
      go_bind (getAppID dia ex app' d) (\<lambda>appID. scanAttribute fc ex (Rebind dia select) (key (appID, x')) d)"
proof -
  obtain appID json r where s: "getAppID dia ex app d = Ok appID" "MarshalLValue fc v = Ok json"
    "Exec ex (Rebind dia upsert) (key (appID, x) @ [VText json]) d = (Inr r, d')"
    using set_inversion [of dia ex app d fc v upsert "\<lambda>appID. key (appID, x)" d'] assms(5) by blast
  note row = upsert_row [OF assms(3) s(3)]
  have "UnmarshalLValue fc json = Ok (restored v)" using codec_round_trip [OF assms(1,2)] s(2) by auto
  then show "go_bind (getAppID dia ex app d') (\<lambda>appID. scanAttribute fc ex (Rebind dia select) (key (appID, x)) d') = Ok (restored v)"
    using s(1) row(1,3) by simp
  show "go_bind (getAppID dia ex app' d') (\<lambda>appID. scanAttribute fc ex (Rebind dia select) (key (appID, x')) d') =
      go_bind (getAppID dia ex app' d) (\<lambda>appID. scanAttribute fc ex (Rebind dia select) (key (appID, x')) d)"
    if "(getAppID dia ex app' d, x') \<noteq> (getAppID dia ex app d, x)"
  proof (cases "getAppID dia ex app' d")
    case (Ok i)
    then have "key (i, x') \<noteq> key (appID, x)" using that s(1) injD [OF assms(4)] by fastforce
    then show ?thesis using row(2) [of "key (i, x')"] by (simp add: row(3) Ok)
  qed (simp_all add: row(3))
qed

lemma application_attribute_restored:
  assumes "exact_floats fc" and "storable v" and "upsert_law upsert_app_sql select_app_sql dia ex"
    and "db_SetApplicationAttribute fc dia ex app n v d = (Ok (), d')"
  shows "db_GetApplicationAttribute fc dia ex app n d' = Ok (restored v)"
proof -
  have "inj (\<lambda>(a :: int, m :: string). [VInt a, VText m])" by (auto simp: inj_def)
  from attribute_restored(1) [OF assms(1-3) this, of app d n d'] assms(4) show ?thesis
    by (simp add: db_SetApplicationAttribute_def db_GetApplicationAttribute_def)
qed


section \<open>Properties\<close>

text \<open>C37.  No operation of the storage adapter puts data into SQL: what the adapter does is determined by what the database does
  for a fixed list of 22 statement texts that depends on the dialect only, whatever names, values, hashes and reasons
  the operations are given; everything else is bound as an argument.\<close>

theorem adapter_sends_fixed_texts:
  assumes "same_on (adapter_texts dia) ex ex'"
  shows "adapter fc dia ex op d = adapter fc dia ex' op d \<and> length (adapter_texts dia) = 22"
  using adapter_same [OF assms] by (simp add: adapter_texts_def)


text \<open>A database with one application and a table of attributes, and one that also knows another statement.\<close>

type_synonym toy = "(sql_value list \<times> string) list"

definition toy_rows :: "sql_value list list \<Rightarrow> error + sql_rows" where
  "toy_rows rs = Inr \<lparr>Columns = [''v''], Rows = rs, RowsErr = None\<rparr>"

definition toy_executor :: "toy executor" where
  "toy_executor = \<lparr>
     Exec = (\<lambda>q args d. if q = upsert_player_sql then (case last args of VText json \<Rightarrow> (Inr (Inr 1), AList.update (butlast args) json d)
        | _ \<Rightarrow> (Inl ErrOther, d)) else (Inl ErrOther, d)),
     Query = (\<lambda>q args d. if q = select_player_sql then toy_rows (case map_of d args of None \<Rightarrow> [] | Some j \<Rightarrow> [[VText j]])
        else if q = app_id_sql \<and> args = [VText ''game''] then toy_rows [[VInt 1]] else toy_rows []),
     text_of = (\<lambda>_. [])\<rparr>"

definition chatty_executor :: "toy executor" where
  "chatty_executor = toy_executor\<lparr>Exec := (\<lambda>q. if q = ''DROP TABLE users'' then (\<lambda>_ _. (Inr (Inr 0), [])) else Exec toy_executor q)\<rparr>"

lemma toy_law: "upsert_law upsert_player_sql select_player_sql sqliteDialect toy_executor"
proof -
  have "app_id_sql \<noteq> select_player_sql" by (simp add: app_id_sql_def select_player_sql_def)
  then show ?thesis
    by (simp add: upsert_law_def toy_executor_def sqliteDialect_def toy_rows_def gomap_simps)
qed

theorem adapter_sends_fixed_texts_witness:
  "adapter bit_floats sqliteDialect toy_executor (GetUserOp (quote # ''; DROP TABLE users'')) [] =
   adapter bit_floats sqliteDialect chatty_executor (GetUserOp (quote # ''; DROP TABLE users'')) []"
proof -
  have "''DROP TABLE users'' \<notin> set (adapter_texts (sqliteDialect :: toy dialect))"
    by (simp add: adapter_texts_def sqliteDialect_def app_id_sql_def upsert_app_sql_def select_app_sql_def upsert_player_sql_def
        select_player_sql_def active_ban_sql_def)
  then have "same_on (adapter_texts (sqliteDialect :: toy dialect)) toy_executor chatty_executor"
    by (auto simp: same_on_def chatty_executor_def)
  from adapter_sends_fixed_texts [OF this, of bit_floats "GetUserOp (quote # ''; DROP TABLE users'')" "[]"] show ?thesis by simp
qed


end
