(* ===== verification/Migrations.thy ===== *)
theory Migrations
  imports SqlDb "HOL-Library.Multiset" "HOL-Library.List_Lexorder" "HOL-Library.Char_ord"
begin

text \<open>
  Migrations: the runner \<open>internal/domain/services/migration_runner.go\<close>, savepoints (\<open>sql_query_builder.go\<close>) and the
  execution of backend-specific statements inside a migration (\<open>sql_migration.go\<close>).  A transaction of the database works
  on a copy of its state: committing makes the copy the state, a rollback or a failed commit drops it.
\<close>


section \<open>The runner\<close>

text \<open>A migration changes a database; it may also panic.\<close>

record 'd migration =
  mg_Name :: string
  Up :: "'d \<Rightarrow> unit go \<times> 'd"

text \<open>\<open>sameAdapter\<close> says that database and tracker are one adapter that can open transactions; \<open>BeginErr\<close> and
  \<open>CommitErr\<close> are the errors of the database when a transaction begins and when it is committed.\<close>

record 'd migration_runner =
  applied_names :: "'d \<Rightarrow> string list go"
  mark_applied :: "string \<Rightarrow> 'd \<Rightarrow> unit go \<times> 'd"
  sameAdapter :: bool
  BeginErr :: "'d \<Rightarrow> error option"
  CommitErr :: "'d \<Rightarrow> 'd \<Rightarrow> error option"
  migrations :: "'d migration list"

definition NewMigrationRunner :: "'d migration_runner \<Rightarrow> 'd migration list \<Rightarrow> 'd migration_runner" where
  "NewMigrationRunner r ms = r\<lparr>migrations := sort_key mg_Name ms\<rparr>"

definition runMigration :: "'d migration_runner \<Rightarrow> 'd migration \<Rightarrow> 'd \<Rightarrow> unit go \<times> 'd" where
  "runMigration r m d = (case Up m d of (Ok _, d') \<Rightarrow> mark_applied r (mg_Name m) d' | (e, d') \<Rightarrow> (e, d'))"

definition apply_migration :: "'d migration_runner \<Rightarrow> 'd migration \<Rightarrow> 'd \<Rightarrow> unit go \<times> 'd" where
  "apply_migration r m d =
     (if \<not> sameAdapter r then runMigration r m d
      else (case BeginErr r d of
        Some e \<Rightarrow> (Err e, d)
      | None \<Rightarrow>
          (case runMigration r m d of
             (Ok _, t) \<Rightarrow> (case CommitErr r d t of Some e \<Rightarrow> (Err e, d) | None \<Rightarrow> (Ok (), t))
           | (e, t) \<Rightarrow> (e, d))))"

text \<open>The loop of \<open>RunPending\<close>: the names of the migrations that ns.\<close>

fun run_loop :: "'d migration_runner \<Rightarrow> string list \<Rightarrow> 'd migration list \<Rightarrow> 'd \<Rightarrow> unit go \<times> string list \<times> 'd" where
  "run_loop r applied [] d = (Ok (), [], d)"
| "run_loop r applied (m # ms) d =
     (if mg_Name m \<in> set applied then run_loop r applied ms d
      else (case apply_migration r m d of
        (Ok _, d') \<Rightarrow> (case run_loop r applied ms d' of (e, ns, d'') \<Rightarrow> (e, mg_Name m # ns, d''))
      | (e, d') \<Rightarrow> (e, [], d')))"

record migration_result =
  Total :: nat
  Applied :: nat
  Ran :: "string list"

definition RunPending :: "'d migration_runner \<Rightarrow> 'd \<Rightarrow> unit go \<times> migration_result \<times> 'd" where
  "RunPending r d =
     (let total = length (migrations r)
      in case applied_names r d of
           Panic \<Rightarrow> (Panic, \<lparr>Total = total, Applied = 0, Ran = []\<rparr>, d)
         | Err e \<Rightarrow> (Err e, \<lparr>Total = total, Applied = 0, Ran = []\<rparr>, d)
         | Ok names \<Rightarrow>
             (case run_loop r names (migrations r) d of
                (e, ns, d') \<Rightarrow> (e, \<lparr>Total = total, Applied = length names, Ran = ns\<rparr>, d')))"


section \<open>Savepoints and raw statements\<close>

record savepoint =
  sp_Name :: string
  sp_Done :: bool

text \<open>\<open>seq\<close> is the counter that makes the names of savepoints unique.\<close>

definition beginSavepoint :: "'d executor \<Rightarrow> nat \<Rightarrow> 'd \<Rightarrow> (error + savepoint) \<times> nat \<times> 'd" where
  "beginSavepoint ex seq d =
     (let name = ''sp_'' @ dec_nat (Suc seq)
      in case Exec ex (''SAVEPOINT '' @ name) [] d of
           (Inl e, d') \<Rightarrow> (Inl e, Suc seq, d')
         | (Inr _, d') \<Rightarrow> (Inr \<lparr>sp_Name = name, sp_Done = False\<rparr>, Suc seq, d'))"

definition sp_Commit :: "'d executor \<Rightarrow> savepoint \<Rightarrow> 'd \<Rightarrow> error option \<times> savepoint \<times> 'd" where
  "sp_Commit ex s d =
     (if sp_Done s then (Some ErrOther, s, d)
      else (case exec_sql ex (''RELEASE SAVEPOINT '' @ sp_Name s) d of (e, d') \<Rightarrow> (e, s\<lparr>sp_Done := True\<rparr>, d')))"

definition sp_Rollback :: "'d executor \<Rightarrow> savepoint \<Rightarrow> 'd \<Rightarrow> error option \<times> savepoint \<times> 'd" where
  "sp_Rollback ex s d =
     (if sp_Done s then (Some ErrOther, s, d)
      else (case exec_all ex [''ROLLBACK TO SAVEPOINT '' @ sp_Name s, ''RELEASE SAVEPOINT '' @ sp_Name s] d of
        (e, d') \<Rightarrow> (e, s\<lparr>sp_Done := True\<rparr>, d')))"

datatype backend = SQLite | Postgres | OtherBackend

record migration_sql =
  ddl_SQLite :: "string list"
  ddl_Postgres :: "string list"

definition backend_statements :: "backend \<Rightarrow> migration_sql \<Rightarrow> string list option" where
  "backend_statements b sqls =
     (case b of SQLite \<Rightarrow> Some (ddl_SQLite sqls) | Postgres \<Rightarrow> Some (ddl_Postgres sqls) | OtherBackend \<Rightarrow> None)"

definition ExecuteMigrationSQL :: "backend \<Rightarrow> 'd executor \<Rightarrow> nat \<Rightarrow> migration_sql \<Rightarrow> 'd \<Rightarrow> error option \<times> nat \<times> 'd" where
  "ExecuteMigrationSQL b ex seq sqls d =
     (case backend_statements b sqls of
        None \<Rightarrow> (Some ErrOther, seq, d)
      | Some statements \<Rightarrow>
          (case beginSavepoint ex seq d of
             (Inl e, seq', d1) \<Rightarrow> (Some e, seq', d1)
           | (Inr sp, seq', d1) \<Rightarrow>
               (case exec_all ex statements d1 of
                  (Some e, d2) \<Rightarrow> (case sp_Rollback ex sp d2 of (_, _, d3) \<Rightarrow> (Some e, seq', d3))
                | (None, d2) \<Rightarrow> (case sp_Commit ex sp d2 of (e, _, d3) \<Rightarrow> (e, seq', d3)))))"


section \<open>Pending migrations\<close>

definition pending :: "'d migration_runner \<Rightarrow> string list \<Rightarrow> 'd migration list" where
  "pending r applied = filter (\<lambda>m. mg_Name m \<notin> set applied) (migrations r)"

text \<open>Complete runs of migrations, one after the other.\<close>

fun all_ran :: "'d migration_runner \<Rightarrow> 'd migration list \<Rightarrow> 'd \<Rightarrow> 'd \<Rightarrow> bool" where
  "all_ran r [] d d' \<longleftrightarrow> d' = d"
| "all_ran r (m # ms) d d' \<longleftrightarrow> (\<exists>d1. runMigration r m d = (Ok (), d1) \<and> all_ran r ms d1 d')"

lemma run_loop_filter: "run_loop r applied ms d = run_loop r applied (filter (\<lambda>m. mg_Name m \<notin> set applied) ms) d"
  by (induction ms arbitrary: d) (auto split: prod.split go.split)

lemma apply_cases:
  assumes "sameAdapter r" and "apply_migration r m d = (e, d')"
  shows "(e = Ok () \<and> runMigration r m d = (Ok (), d')) \<or> (e \<noteq> Ok () \<and> d' = d)"
  using assms by (auto simp: apply_migration_def split: option.splits prod.splits go.splits)

lemma run_loop_prefix:
  assumes "sameAdapter r" and "run_loop r applied ms d = (e, ns, d')" and "\<forall>m \<in> set ms. mg_Name m \<notin> set applied"
  shows "\<exists>k \<le> length ms. ns = map mg_Name (take k ms) \<and> all_ran r (take k ms) d d' \<and> (e = Ok () \<longleftrightarrow> k = length ms)"
  using assms(2,3)
proof (induction ms arbitrary: d ns)
  case (Cons m ms)
  obtain e1 d1 where a: "apply_migration r m d = (e1, d1)" by fastforce
  show ?case
  proof (cases "e1 = Ok ()")
    case True
    then have m: "runMigration r m d = (Ok (), d1)" using apply_cases [OF assms(1) a] by simp
    obtain ns1 where l: "run_loop r applied ms d1 = (e, ns1, d')" "ns = mg_Name m # ns1"
      using Cons.prems a True by (auto split: prod.splits)
    then obtain k where "k \<le> length ms" "ns1 = map mg_Name (take k ms)" "all_ran r (take k ms) d1 d'" "e = Ok () \<longleftrightarrow> k = length ms"
      using Cons.IH [OF l(1)] Cons.prems(2) by auto
    then show ?thesis using l(2) m by (intro exI [of _ "Suc k"]) auto
  next
    case False
    then have "d' = d1" "ns = []" "e = e1" using Cons.prems a by (auto split: go.splits)
    then show ?thesis using False apply_cases [OF assms(1) a] by (intro exI [of _ 0]) auto
  qed
qed simp



section \<open>The tracker\<close>

text \<open>What the runner relies on: recording a migration adds its name to the applied ones, and migrations leave the tracker
  alone.\<close>

definition tracker_law :: "'d migration_runner \<Rightarrow> bool" where
  "tracker_law r \<longleftrightarrow>
     (\<forall>d d' name ns. applied_names r d = Ok ns \<longrightarrow> mark_applied r name d = (Ok (), d') \<longrightarrow>
        (\<exists>ns'. applied_names r d' = Ok ns' \<and> set ns' = insert name (set ns))) \<and>
     (\<forall>m d d'. m \<in> set (migrations r) \<longrightarrow> Up m d = (Ok (), d') \<longrightarrow> applied_names r d' = applied_names r d)"

lemma tracked:
  assumes "tracker_law r" and "all_ran r ms d d'" and "set ms \<subseteq> set (migrations r)" and "applied_names r d = Ok ns"
  shows "\<exists>ns'. applied_names r d' = Ok ns' \<and> set ns' = set ns \<union> mg_Name ` set ms"
  using assms(2-4)
proof (induction ms arbitrary: d ns)
  case (Cons m ms)
  then obtain d1 d2 where u: "Up m d = (Ok (), d1)" "mark_applied r (mg_Name m) d1 = (Ok (), d2)" "all_ran r ms d2 d'"
    by (auto simp: runMigration_def split: prod.splits go.splits)
  have "m \<in> set (migrations r)" using Cons.prems(2) by simp
  then have "applied_names r d1 = Ok ns" using assms(1) u(1) Cons.prems(3) unfolding tracker_law_def by metis
  then obtain ns2 where "applied_names r d2 = Ok ns2" "set ns2 = insert (mg_Name m) (set ns)"
    using assms(1) u(2) unfolding tracker_law_def by blast
  then show ?case using Cons.IH [OF u(3), of ns2] Cons.prems(2) by auto
qed simp

lemma run_loop_none: "\<forall>m \<in> set ms. mg_Name m \<in> set applied \<Longrightarrow> run_loop r applied ms d = (Ok (), [], d)"
  by (induction ms) auto

lemma RunPending_prefix:
  assumes "sameAdapter r" and "applied_names r d = Ok names" and "RunPending r d = (e, res, d')"
  shows "\<exists>k \<le> length (pending r names). Ran res = map mg_Name (take k (pending r names)) \<and>
    all_ran r (take k (pending r names)) d d' \<and> (e = Ok () \<longleftrightarrow> k = length (pending r names))"
proof -
  obtain ns where l: "run_loop r names (migrations r) d = (e, ns, d')" "res = \<lparr>Total = length (migrations r), Applied = length names, Ran = ns\<rparr>"
    using assms(2,3) by (auto simp: RunPending_def Let_def split: prod.splits)
  have "run_loop r names (pending r names) d = (e, ns, d')"
    using l(1) run_loop_filter [of r names "migrations r" d] by (simp add: pending_def)
  from run_loop_prefix [OF assms(1) this] show ?thesis using l(2) by (auto simp: pending_def)
qed

lemma RunPending_again:
  assumes "tracker_law r" and "sameAdapter r" and "applied_names r d = Ok names" and "RunPending r d = (e, res, d')"
  shows "\<exists>names'. applied_names r d' = Ok names' \<and> pending r names' = filter (\<lambda>m. mg_Name m \<notin> set (Ran res)) (pending r names)"
proof -
  obtain k where k: "Ran res = map mg_Name (take k (pending r names))" "all_ran r (take k (pending r names)) d d'"
    using RunPending_prefix [OF assms(2-4)] by blast
  have "set (take k (pending r names)) \<subseteq> set (migrations r)"
    using set_take_subset [of k "pending r names"] by (auto simp: pending_def)
  then obtain names' where n: "applied_names r d' = Ok names'" "set names' = set names \<union> mg_Name ` set (take k (pending r names))"
    using tracked [OF assms(1) k(2) _ assms(3)] by blast
  have "pending r names' = filter (\<lambda>m. mg_Name m \<notin> set (Ran res)) (pending r names)"
    unfolding pending_def filter_filter by (rule filter_cong) (auto simp: n(2) k(1) pending_def)
  then show ?thesis using n(1) by blast
qed


section \<open>Savepoints\<close>

text \<open>What a database promises of savepoints, for the visible \<open>content\<close> of its state: a savepoint remembers the content under
  its name, other statements keep what is remembered, rolling back to it restores the content, and releasing it
  changes nothing.\<close>

definition savepoint_text :: "string \<Rightarrow> bool" where
  "savepoint_text q \<longleftrightarrow> (\<exists>p \<in> set [''SAVEPOINT '', ''ROLLBACK TO SAVEPOINT '', ''RELEASE SAVEPOINT '']. prefix p q)"

definition savepoint_law :: "'d executor \<Rightarrow> ('d \<Rightarrow> 'c) \<Rightarrow> ('d \<Rightarrow> string \<Rightarrow> 'c option) \<Rightarrow> bool" where
  "savepoint_law ex content saved \<longleftrightarrow>
     (\<forall>n d r d'. Exec ex (''SAVEPOINT '' @ n) [] d = (r, d') \<longrightarrow>
        content d' = content d \<and> (isl r \<or> saved d' n = Some (content d))) \<and>
     (\<forall>q n d r d'. \<not> savepoint_text q \<longrightarrow> Exec ex q [] d = (r, d') \<longrightarrow> saved d' n = saved d n) \<and>
     (\<forall>n d c. saved d n = Some c \<longrightarrow>
        (\<exists>r d'. Exec ex (''ROLLBACK TO SAVEPOINT '' @ n) [] d = (Inr r, d') \<and> content d' = c \<and> saved d' n = Some c)) \<and>
     (\<forall>n d c. saved d n = Some c \<longrightarrow>
        (\<exists>r d'. Exec ex (''RELEASE SAVEPOINT '' @ n) [] d = (Inr r, d') \<and> content d' = content d))"

lemma exec_all_saved:
  assumes "savepoint_law ex content saved" and "\<forall>q \<in> set qs. \<not> savepoint_text q" and "exec_all ex qs d = (e, d')"
  shows "saved d' n = saved d n"
  using assms(2,3)
proof (induction qs arbitrary: d)
  case (Cons q qs)
  obtain r d1 where q: "Exec ex q [] d = (r, d1)" by fastforce
  have "\<not> savepoint_text q" using Cons.prems(1) by simp
  then have "saved d1 n = saved d n" using assms(1) q unfolding savepoint_law_def by blast
  then show ?case using Cons q by (cases r) auto
qed simp

lemma rollback_restores:
  assumes "savepoint_law ex content saved" and "saved d (sp_Name s) = Some c" and "\<not> sp_Done s"
  shows "\<exists>d'. sp_Rollback ex s d = (None, s\<lparr>sp_Done := True\<rparr>, d') \<and> content d' = c"
proof -
  obtain r1 d1 where 1: "Exec ex (''ROLLBACK TO SAVEPOINT '' @ sp_Name s) [] d = (Inr r1, d1)" "content d1 = c" "saved d1 (sp_Name s) = Some c"
    using assms unfolding savepoint_law_def by blast
  obtain r2 d2 where 2: "Exec ex (''RELEASE SAVEPOINT '' @ sp_Name s) [] d1 = (Inr r2, d2)" "content d2 = content d1"
    using assms(1) 1(3) unfolding savepoint_law_def by blast
  show ?thesis using 1 2 assms(3) by (simp add: sp_Rollback_def)
qed

lemma commit_keeps:
  assumes "savepoint_law ex content saved" and "saved d (sp_Name s) = Some c" and "\<not> sp_Done s"
  shows "\<exists>d'. sp_Commit ex s d = (None, s\<lparr>sp_Done := True\<rparr>, d') \<and> content d' = content d"
proof -
  obtain r d' where "Exec ex (''RELEASE SAVEPOINT '' @ sp_Name s) [] d = (Inr r, d')" "content d' = content d"
    using assms unfolding savepoint_law_def by blast
  then show ?thesis using assms(3) by (simp add: sp_Commit_def exec_sql_def)
qed


lemma beginSavepoint_saves:
  assumes "savepoint_law ex content saved" and "beginSavepoint ex seq d = (r, seq', d1)"
  shows "content d1 = content d" and "r = Inr sp \<Longrightarrow> saved d1 (sp_Name sp) = Some (content d) \<and> \<not> sp_Done sp"
proof -
  let ?n = "''sp_'' @ dec_nat (Suc seq)"
  obtain r' d' where q: "Exec ex (''SAVEPOINT '' @ ?n) [] d = (r', d')" by fastforce
  have law: "content d' = content d" "isl r' \<or> saved d' ?n = Some (content d)"
    using assms(1) q unfolding savepoint_law_def by blast+
  show "content d1 = content d" using assms(2) q law(1) by (cases r') (simp_all add: beginSavepoint_def)
  show "saved d1 (sp_Name sp) = Some (content d) \<and> \<not> sp_Done sp" if "r = Inr sp"
    using assms(2) q law(2) that by (cases r') (auto simp: beginSavepoint_def)
qed

lemma ExecuteMigrationSQL_atomic:
  assumes "savepoint_law ex content saved" and "backend_statements b sqls = Some qs" and "\<forall>q \<in> set qs. \<not> savepoint_text q"
    and "ExecuteMigrationSQL b ex seq sqls d = (e, seq', d')"
  shows "if e = None then \<exists>d1 d2. content d1 = content d \<and> exec_all ex qs d1 = (None, d2) \<and> content d' = content d2
    else content d' = content d"
proof -
  obtain r s1 d1 where s: "beginSavepoint ex seq d = (r, s1, d1)" by (metis prod_cases3)
  note saves = beginSavepoint_saves [OF assms(1) s]
  show ?thesis
  proof (cases r)
    case (Inl err)
    then show ?thesis using assms(2,4) s saves(1) by (auto simp: ExecuteMigrationSQL_def)
  next
    case (Inr sp)
    obtain e2 d2 where q: "exec_all ex qs d1 = (e2, d2)" by fastforce
    have sv: "saved d2 (sp_Name sp) = Some (content d)" "\<not> sp_Done sp"
      using exec_all_saved [OF assms(1,3) q] saves(2) [OF Inr] by simp_all
    show ?thesis
    proof (cases e2)
      case None
      then show ?thesis
        using commit_keeps [OF assms(1) sv] assms(2,4) s q Inr saves(1) by (auto simp: ExecuteMigrationSQL_def)
    next
      case (Some err)
      then show ?thesis
        using rollback_restores [OF assms(1) sv] assms(2,4) s q Inr by (auto simp: ExecuteMigrationSQL_def)
    qed
  qed
qed


text \<open>The runner over the SQL adapter: the tracker table, and the initial schema as a migration.\<close>

definition error_go :: "error option \<times> 'd \<Rightarrow> unit go \<times> 'd" where
  "error_go r = (case r of (None, d) \<Rightarrow> (Ok (), d) | (Some e, d) \<Rightarrow> (Err e, d))"

definition initial_migration :: "'d dialect \<Rightarrow> 'd executor \<Rightarrow> 'd migration" where
  "initial_migration dia ex = \<lparr>mg_Name = ''00000000000000_initial_schema'', Up = (\<lambda>d. error_go (initialSchema_Up dia ex d))\<rparr>"

definition sql_runner :: "'d dialect \<Rightarrow> 'd executor \<Rightarrow> int \<Rightarrow> ('d \<Rightarrow> error option) \<Rightarrow> ('d \<Rightarrow> 'd \<Rightarrow> error option) \<Rightarrow>
    'd migration list \<Rightarrow> 'd migration_runner" where
  "sql_runner dia ex now begin_err commit_err ms =
     NewMigrationRunner \<lparr>applied_names = db_GetAppliedMigrations ex, mark_applied = db_MarkMigrationApplied dia ex now,
       sameAdapter = True, BeginErr = begin_err, CommitErr = commit_err, migrations = []\<rparr> ms"


section \<open>Properties\<close>



text \<open>A database that is the list of recorded names and a log of statements.\<close>

definition log_runner :: "(string list \<times> string list) migration_runner" where
  "log_runner = \<lparr>applied_names = (\<lambda>d. Ok (fst d)), mark_applied = (\<lambda>n d. (Ok (), apfst ((#) n) d)), sameAdapter = True,
     BeginErr = (\<lambda>_. None), CommitErr = (\<lambda>_ _. None), migrations = []\<rparr>"

definition log_migrations :: "(string list \<times> string list) migration list" where
  "log_migrations =
     [\<lparr>mg_Name = ''2_b'', Up = (\<lambda>d. (Err ErrOther, apsnd ((#) ''partial'') d))\<rparr>,
      \<lparr>mg_Name = ''1_a'', Up = (\<lambda>d. (Ok (), apsnd ((#) ''create'') d))\<rparr>]"

lemma log_sorted: "sort_key mg_Name log_migrations = rev log_migrations"
proof -
  have "\<not> ''2_b'' \<le> ''1_a''" by code_simp
  then show ?thesis by (simp add: log_migrations_def)
qed

lemma log_tracker: "tracker_law (NewMigrationRunner log_runner log_migrations)"
  by (auto simp: tracker_law_def NewMigrationRunner_def log_runner_def log_sorted log_migrations_def)

lemma log_run: "RunPending (NewMigrationRunner log_runner log_migrations) ([], []) =
    (Err ErrOther, \<lparr>Total = 2, Applied = 0, Ran = [''1_a'']\<rparr>, ([''1_a''], [''create'']))"
  by (simp add: RunPending_def NewMigrationRunner_def log_runner_def log_sorted)
    (simp add: log_migrations_def apply_migration_def runMigration_def)


text \<open>A database with savepoints: the statements that took effect, and the remembered contents.\<close>

definition log_executor :: "(string list \<times> string list gomap) executor" where
  "log_executor = \<lparr>
     Exec = (\<lambda>q _ d.
       if prefix ''SAVEPOINT '' q then (Inr (Inr 0), (fst d, AList.update (drop 10 q) (fst d) (snd d)))
       else if prefix ''ROLLBACK TO SAVEPOINT '' q then
         (case map_of (snd d) (drop 22 q) of Some c \<Rightarrow> (Inr (Inr 0), (c, snd d)) | None \<Rightarrow> (Inl ErrOther, d))
       else if prefix ''RELEASE SAVEPOINT '' q then (Inr (Inr 0), d)
       else if q = ''bad'' then (Inl ErrOther, d)
       else (Inr (Inr 0), (q # fst d, snd d))),
     Query = (\<lambda>_ _ _. Inl ErrOther), text_of = (\<lambda>_. [])\<rparr>"

lemma log_savepoints: "savepoint_law log_executor fst (\<lambda>d. map_of (snd d))"
  by (auto simp: savepoint_law_def log_executor_def savepoint_text_def gomap_simps split: if_splits)


end
