(* ===== verification/Spec2Isabelle.thy ===== *)
theory Spec2Isabelle
  imports LingoWire Smus Blowfish Frame Session ConnPool Logon Movie Timers SystemService SystemProps
    Dispatcher Server Config Cache CacheLock TokenStore Scripts Codec Migrations
begin

text \<open>
  \<^bold>\<open>A verification of the MUSGoS multiuser server.\<close>

  The program is a Go server for the Shockwave Multiuser protocol.  A client connects by TCP; the stream is
  cut into frames (\<open>internal/adapters/inbound/tcp_server.go\<close>), a frame is parsed to a message whose content is
  a Lingo value (\<open>internal/domain/types\<close>), the message is dispatched under the identity of the connection
  (\<open>smus_handler.go\<close>, \<open>mus/dispatcher.go\<close>) to the system service, to a script or to other users, and the
  response goes back over the connection pool.  A session store keeps connections, attributes and rooms;
  movies and groups are rooms with a naming scheme; the logon service decides who a connection is and stamps
  a user level, which the authorizer compares with a configured table.

  \<^bold>\<open>Theories and the code they model\<close>
  (paths below \<open>src/internal\<close>):

  \<^item> \<open>Prelude\<close>: bytes, Go maps as association lists, number formatting, the results of Go functions.
    \<open>Strconv\<close>: the reader for decimal integers.
  \<^item> \<open>Lingo\<close>, \<open>LingoWire\<close>: \<open>domain/types/lingo/l_*.go\<close>, every value type with decoder, encoder, accessors and
    text form; totality of the decoder, round trips, and when re-encoding panics.
  \<^item> \<open>Smus\<close>: \<open>domain/types/smus\<close>, header strings, the message parser and encoder.
  \<^item> \<open>Blowfish\<close>: \<open>adapters/outbound/blowfish.go\<close> and \<open>factory/cipher.go\<close>, the cipher with its stream mode.
  \<^item> \<open>Frame\<close>: \<open>nextFrame\<close> and the read loop of \<open>tcp_server.go\<close>, for every way the network may cut the stream.
  \<^item> \<open>Session\<close>: \<open>adapters/outbound/memory_session_store.go\<close> with its index invariant and a refinement of an
    abstract store; \<open>ConnPool\<close>: \<open>adapters/inbound/conn_pool.go\<close>.
  \<^item> \<open>Logon\<close>: \<open>domain/services/authorizer.go\<close> and \<open>logon_service.go\<close>.
  \<^item> \<open>Movie\<close>: \<open>adapters/inbound/mus/movie.go\<close>, \<open>group.go\<close>, \<open>sender.go\<close>, \<open>response.go\<close>.
  \<^item> \<open>Timers\<close>: \<open>adapters/inbound/timer_manager.go\<close> with the steps between expiry and callback.
  \<^item> \<open>SystemService\<close>, \<open>SystemProps\<close>: \<open>mus/system_service*.go\<close>, every command and the command table; what
    commands keep, whom they obey, and that they answer.
  \<^item> \<open>Dispatcher\<close>: \<open>mus/dispatcher.go\<close> and \<open>smus_handler.go\<close>.
  \<^item> \<open>Server\<close>: the connection life cycle of \<open>tcp_server.go\<close>, \<open>idle_checker.go\<close>, \<open>disconnect_hook.go\<close> and the timer
    callbacks as a machine over events, with its reachable states.
  \<^item> \<open>Config\<close>: \<open>config/config.go\<close>.
  \<^item> \<open>Cache\<close>, \<open>CacheLock\<close>: \<open>memory_cache.go\<close>, \<open>memory_cache_lock.go\<close> and \<open>ban_checker.go\<close>; the contract of a cache is a
    locale, interpreted on the memory cache.

  \<^bold>\<open>State and operations.\<close>
  A struct is a record and a method is a function on it.  The state of the services is one record that grows
  by extension: \<^typ>\<open>'tk logon_state\<close> (sessions, pool, tokens), then the movies and the network, then the
  database and the timers.  Go's results are \<^typ>\<open>'a go\<close>: a value, an error, or a panic.  Code that is not part
  of the repository is a parameter: the database behind its port, bcrypt, the script engine, the mail
  server.  Clocks are arguments.  Loops over data are structural recursions; the read loop terminates
  because every frame is at least six bytes long.

  \<^bold>\<open>Not modelled.\<close>
  Logging and metrics; the listening sockets; the Redis and RabbitMQ adapters, the SQL engine and the Lua
  interpreter, which are programs of their own; \<open>GetLValue\<close>, the conversion from untyped Go values.
\<close>

end
